(* ===== verification/Mqtt_Prelude.thy ===== *)
theory Mqtt_Prelude
  imports "HOL-Library.Word" "HOL-Library.Char_ord" "HOL-Library.List_Lexorder"
    "HOL-Library.Multiset"
begin

text \<open>
  Shared vocabulary of the development: the machine integers of the client library, the
  operations of \<open>std::vector\<close> and \<open>std::lower_bound\<close> the sources use, the sorted-vector set
  they implement, and generic list lemmas. The theorem collections declared here are filled by
  the component theories.
\<close>

named_theorems pid_simps \<open>facts about the packet identifier pool\<close>
named_theorems timer_simps \<open>facts about the timer manager\<close>
named_theorems evolve \<open>operations of the client as sequences of atomic steps\<close>

type_synonym u8 = "8 word"
type_synonym u16 = "16 word"
type_synonym u32 = "32 word"
type_synonym u64 = "64 word"
type_synonym bytes = "u8 list"

lemma unat_ucast_32_64 [simp]: "unat (ucast (a :: u32) :: u64) = unat a"
proof -
  have "unat a < 2 ^ 64" using unsigned_less [of a, where ?'a = nat] by simp
  then show ?thesis by (simp add: unsigned_ucast_eq take_bit_nat_eq_self)
qed

lemma ucast_add_32_64:
  fixes a b :: u32
  assumes "unat a + unat b < 2 ^ 32"
  shows "(ucast (a + b) :: u64) = ucast a + ucast b"
  using assms by (simp add: word_unat_eq_iff unat_word_ariths)

section \<open>Vectors\<close>

text \<open>
  \<open>ObjListType\<close> (\<open>ObjListType.h\<close>) is a \<open>std::vector\<close> when its limit is 0 and a fixed-capacity
  vector otherwise. \<open>vec_full lim xs\<close> is the test \<open>xs.max_size() <= xs.size()\<close>; the
  \<open>max_size()\<close> of a \<open>std::vector\<close> is never reached.
\<close>

definition vec_full :: "nat \<Rightarrow> 'a list \<Rightarrow> bool" where
  "vec_full lim xs \<longleftrightarrow> lim \<noteq> 0 \<and> lim \<le> length xs"

definition insert_at :: "nat \<Rightarrow> 'a \<Rightarrow> 'a list \<Rightarrow> 'a list" where
  "insert_at i x xs = take i xs @ x # drop i xs"

definition erase_at :: "nat \<Rightarrow> 'a list \<Rightarrow> 'a list" where
  "erase_at i xs = take i xs @ drop (Suc i) xs"

text \<open>\<open>std::find_if\<close> as an index: the length of the list when nothing is found.\<close>

definition find_index :: "('a \<Rightarrow> bool) \<Rightarrow> 'a list \<Rightarrow> nat" where
  "find_index p xs = length (takeWhile (\<lambda>x. \<not> p x) xs)"

text \<open>\<open>std::lower_bound\<close> on a sorted range: the index of the first element not less than the key.\<close>

definition lower_bound :: "'a::linorder list \<Rightarrow> 'a \<Rightarrow> nat" where
  "lower_bound xs x = length (takeWhile (\<lambda>y. y < x) xs)"

text \<open>The lookup test of the sources: \<open>(iter != end) && (*iter == x)\<close>.\<close>

definition lb_found :: "'a::linorder list \<Rightarrow> 'a \<Rightarrow> bool" where
  "lb_found xs x \<longleftrightarrow> lower_bound xs x < length xs \<and> xs ! lower_bound xs x = x"

definition lb_insert :: "'a::linorder \<Rightarrow> 'a list \<Rightarrow> 'a list" where
  "lb_insert x xs = insert_at (lower_bound xs x) x xs"

definition lb_erase :: "'a::linorder \<Rightarrow> 'a list \<Rightarrow> 'a list" where
  "lb_erase x xs = (if lb_found xs x then erase_at (lower_bound xs x) xs else xs)"

definition strict_sorted :: "'a::linorder list \<Rightarrow> bool" where
  "strict_sorted xs = sorted_wrt (<) xs"

lemma strict_sorted_Nil [simp]: "strict_sorted []"
  by (simp add: strict_sorted_def)

lemma strict_sorted_Cons [simp]:
  "strict_sorted (x # xs) \<longleftrightarrow> (\<forall>y\<in>set xs. x < y) \<and> strict_sorted xs"
  by (simp add: strict_sorted_def)

lemma strict_sorted_append [simp]:
  "strict_sorted (xs @ ys) \<longleftrightarrow>
     strict_sorted xs \<and> strict_sorted ys \<and> (\<forall>x\<in>set xs. \<forall>y\<in>set ys. x < y)"
  by (simp add: strict_sorted_def sorted_wrt_append)

lemma strict_sorted_distinct: "strict_sorted xs \<Longrightarrow> distinct xs"
  by (induction xs) auto

text \<open>Computation rules of the sorted-vector operations.\<close>

lemma lower_bound_simps [simp]:
  "lower_bound [] x = 0"
  "lower_bound (y # ys) x = (if y < x then Suc (lower_bound ys x) else 0)"
  by (simp_all add: lower_bound_def)

lemma lb_found_simps [simp]:
  "\<not> lb_found [] x"
  "lb_found (y # ys) x = (if y < x then lb_found ys x else y = x)"
  by (simp_all add: lb_found_def)

lemma lb_insert_simps [simp]:
  "lb_insert x [] = [x]"
  "lb_insert x (y # ys) = (if y < x then y # lb_insert x ys else x # y # ys)"
  by (simp_all add: lb_insert_def insert_at_def)

lemma lb_erase_simps [simp]:
  "lb_erase x [] = []"
  "lb_erase x (y # ys) = (if y < x then y # lb_erase x ys else if y = x then ys else y # ys)"
  by (simp_all add: lb_erase_def erase_at_def)

lemma lb_found_iff: "strict_sorted xs \<Longrightarrow> lb_found xs x \<longleftrightarrow> x \<in> set xs"
  by (induction xs) auto

lemma set_lb_insert [simp]: "set (lb_insert x xs) = insert x (set xs)"
  by (induction xs) auto

lemma length_lb_insert [simp]: "length (lb_insert x xs) = Suc (length xs)"
  by (induction xs) auto

lemma strict_sorted_lb_insert:
  "strict_sorted xs \<Longrightarrow> x \<notin> set xs \<Longrightarrow> strict_sorted (lb_insert x xs)"
  by (induction xs) (auto simp: not_less dest: order_le_neq_trans)

lemma set_lb_erase: "strict_sorted xs \<Longrightarrow> set (lb_erase x xs) = set xs - {x}"
  by (induction xs) auto

lemma strict_sorted_lb_erase: "strict_sorted xs \<Longrightarrow> strict_sorted (lb_erase x xs)"
  by (induction xs) (auto simp: set_lb_erase)

lemma lb_erase_insert: "x \<notin> set xs \<Longrightarrow> lb_erase x (lb_insert x xs) = xs"
  by (induction xs) auto

lemma lb_erase_absent: "strict_sorted xs \<Longrightarrow> x \<notin> set xs \<Longrightarrow> lb_erase x xs = xs"
  by (induction xs) auto

lemma lb_insert_last: "\<forall>y\<in>set xs. y < x \<Longrightarrow> lb_insert x xs = xs @ [x]"
  by (induction xs) auto

section \<open>The contract of a sorted vector used as a set\<close>

text \<open>
  The client keeps two collections in sorted vectors, the allocated packet identifiers and the
  subscribed topic filters, and reaches both through \<open>std::lower_bound\<close>. The contract: the
  operations behave like membership, insertion and deletion on a set, on vectors that satisfy
  the invariant.
\<close>

locale set_store =
  fixes member :: "'s \<Rightarrow> 'a \<Rightarrow> bool"
    and add :: "'a \<Rightarrow> 's \<Rightarrow> 's"
    and remove :: "'a \<Rightarrow> 's \<Rightarrow> 's"
    and contents :: "'s \<Rightarrow> 'a set"
    and invar :: "'s \<Rightarrow> bool"
  assumes member_iff: "invar s \<Longrightarrow> member s x \<longleftrightarrow> x \<in> contents s"
    and contents_add: "invar s \<Longrightarrow> \<not> member s x \<Longrightarrow> contents (add x s) = insert x (contents s)"
    and contents_remove: "invar s \<Longrightarrow> contents (remove x s) = contents s - {x}"
    and invar_add: "invar s \<Longrightarrow> \<not> member s x \<Longrightarrow> invar (add x s)"
    and invar_remove: "invar s \<Longrightarrow> invar (remove x s)"
begin

text \<open>The idiom of both clients: insert unless present, and remove if present.\<close>

definition add_new :: "'a \<Rightarrow> 's \<Rightarrow> 's" where
  "add_new x s = (if member s x then s else add x s)"

lemma contents_add_new: "invar s \<Longrightarrow> contents (add_new x s) = insert x (contents s)"
  by (auto simp: add_new_def contents_add member_iff)

lemma invar_add_new: "invar s \<Longrightarrow> invar (add_new x s)"
  by (simp add: add_new_def invar_add)

lemma contents_fold_add_new:
  "invar s \<Longrightarrow> invar (fold add_new xs s) \<and> contents (fold add_new xs s) = contents s \<union> set xs"
  by (induction xs arbitrary: s) (auto simp: invar_add_new contents_add_new)

lemma contents_fold_remove:
  "invar s \<Longrightarrow> invar (fold remove xs s) \<and> contents (fold remove xs s) = contents s - set xs"
  by (induction xs arbitrary: s) (auto simp: invar_remove contents_remove)

end

interpretation sv: set_store "lb_found :: 'a::linorder list \<Rightarrow> 'a \<Rightarrow> bool" lb_insert lb_erase
    set strict_sorted
  by unfold_locales
    (auto simp: lb_found_iff strict_sorted_lb_insert set_lb_erase strict_sorted_lb_erase)

section \<open>The contract of a resource pool\<close>

text \<open>
  Operations take packet identifiers and timer slots from pools and give them back. What they rely
  on: what is handed out is not in use, stays in use until it is given back, and giving something
  back does not take away anything else.
\<close>

locale resource_pool =
  fixes in_use :: "'p \<Rightarrow> 'i set"
    and alloc :: "'p \<Rightarrow> 'i \<Rightarrow> 'p \<Rightarrow> bool"
    and release :: "'i \<Rightarrow> 'p \<Rightarrow> 'p"
    and valid :: "'p \<Rightarrow> bool"
  assumes alloc_fresh: "valid p \<Longrightarrow> alloc p i p' \<Longrightarrow> i \<notin> in_use p"
    and alloc_in_use: "valid p \<Longrightarrow> alloc p i p' \<Longrightarrow> in_use p' = insert i (in_use p)"
    and alloc_valid: "valid p \<Longrightarrow> alloc p i p' \<Longrightarrow> valid p'"
    and release_in_use: "valid p \<Longrightarrow> i \<in> in_use p \<Longrightarrow> in_use p - {i} \<subseteq> in_use (release i p)"
    and release_valid: "valid p \<Longrightarrow> i \<in> in_use p \<Longrightarrow> valid (release i p)"
begin

text \<open>
  A client that holds the resources \<open>held\<close> (all in use, no duplicates) keeps holding distinct
  resources in use when it takes one more or gives one back.
\<close>

definition holds :: "'p \<Rightarrow> 'i list \<Rightarrow> bool" where
  "holds p held \<longleftrightarrow> distinct held \<and> set held \<subseteq> in_use p"

lemma holds_alloc:
  assumes "valid p" "holds p held" "alloc p i p'"
  shows "valid p' \<and> holds p' (held @ [i])"
  using assms alloc_fresh [of p i p'] alloc_in_use [of p i p'] alloc_valid [of p i p']
  by (auto simp: holds_def)

lemma holds_release:
  assumes "valid p" "holds p held" "i \<in> set held"
  shows "valid (release i p) \<and> holds (release i p) (filter (\<lambda>j. j \<noteq> i) held)"
  using assms release_in_use [of p i] release_valid [of p i] by (auto simp: holds_def)

text \<open>The order of the held resources does not matter, and several can be given back in turn.\<close>

lemma holds_perm: "mset xs = mset ys \<Longrightarrow> holds p xs \<longleftrightarrow> holds p ys"
  by (auto simp: holds_def dest: mset_eq_setD mset_eq_imp_distinct_iff)

lemma holds_release_list:
  assumes "valid p" "holds p held" "mset held = mset is + mset rest"
  shows "valid (fold release is p) \<and> holds (fold release is p) rest"
  using assms
proof (induction "is" arbitrary: p held)
  case Nil
  then show ?case using holds_perm [of held rest] by simp
next
  case (Cons i "is")
  have h: "holds p (i # is @ rest)" using Cons.prems holds_perm [of held "i # is @ rest"] by simp
  then have "filter (\<lambda>j. j \<noteq> i) (is @ rest) = is @ rest"
    by (intro filter_True) (auto simp: holds_def)
  with holds_release [OF Cons.prems(1) h, of i]
  have "valid (release i p)" "holds (release i p) (is @ rest)" by simp_all
  then show ?case using Cons.IH [of "release i p" "is @ rest"] by simp
qed

end

section \<open>Searching and erasing\<close>

lemma find_index_simps [simp]:
  "find_index p [] = 0"
  "find_index p (x # xs) = (if p x then 0 else Suc (find_index p xs))"
  by (simp_all add: find_index_def)

lemma find_index_less_iff: "find_index p xs < length xs \<longleftrightarrow> (\<exists>x\<in>set xs. p x)"
  by (induction xs) auto

lemma find_index_le [simp]: "find_index p xs \<le> length xs"
  by (induction xs) auto

lemma find_index_sat: "find_index p xs < length xs \<Longrightarrow> p (xs ! find_index p xs)"
  by (induction xs) (auto split: if_splits)

lemma erase_at_simps [simp]:
  "erase_at i [] = []"
  "erase_at 0 (x # xs) = xs"
  "erase_at (Suc i) (x # xs) = x # erase_at i xs"
  by (simp_all add: erase_at_def)

lemma length_erase_at: "i < length xs \<Longrightarrow> length (erase_at i xs) = length xs - 1"
  by (simp add: erase_at_def)

lemma map_erase_at [simp]: "map f (erase_at i xs) = erase_at i (map f xs)"
  by (simp add: erase_at_def take_map drop_map)

lemma set_erase_at: "set (erase_at i xs) \<subseteq> set xs"
  by (auto simp: erase_at_def dest: in_set_takeD in_set_dropD)

lemma distinct_erase_at: "distinct xs \<Longrightarrow> distinct (erase_at i xs)"
  by (induction xs arbitrary: i; case_tac i) (auto dest: set_erase_at [THEN subsetD])

end
