(* ===== verification/Packet_Ids.thy ===== *)
theory Packet_Ids
  imports Mqtt_Prelude
begin

text \<open>
  The pool of MQTT packet identifiers: \<open>ClientState::m_allocatedPacketIds\<close> and
  \<open>m_lastPacketId\<close> (\<open>ClientState.h\<close>) with \<open>Op::allocPacketId\<close> and \<open>Op::releasePacketId\<close>
  (\<open>op/Op.cpp\<close>). The allocated identifiers are a sorted vector of 16-bit values; a new identifier
  is searched upwards from the last one, with wrap-around.
\<close>

section \<open>Model\<close>

record packet_ids =
  m_allocatedPacketIds :: "u16 list"
  m_lastPacketId :: u16

definition packet_ids_init :: packet_ids where
  "packet_ids_init = \<lparr>m_allocatedPacketIds = [], m_lastPacketId = 0\<rparr>"

text \<open>
  One iteration of the search loop: the new vector when \<open>next\<close> can be inserted. The first test
  appends at the back, the second inserts in the middle.
\<close>

definition alloc_try :: "u16 list \<Rightarrow> u16 \<Rightarrow> u16 list option" where
  "alloc_try ids nextPacketId =
     (if ids = [] \<or> last ids < nextPacketId then Some (ids @ [nextPacketId])
      else if \<not> lb_found ids nextPacketId then Some (lb_insert nextPacketId ids)
      else None)"

text \<open>The loop \<open>while (true)\<close>; the increment wraps at 16 bits.\<close>

partial_function (option) alloc_loop :: "u16 list \<Rightarrow> u16 \<Rightarrow> (u16 list \<times> u16) option" where
  "alloc_loop ids nextPacketId =
     (case alloc_try ids nextPacketId of
        Some ids' \<Rightarrow> Some (ids', nextPacketId)
      | None \<Rightarrow> alloc_loop ids (nextPacketId + 1))"

declare alloc_loop.simps [code]

text \<open>
  \<open>lim\<close> is \<open>ExtConfig::PacketIdsLimit\<close>. The result is the identifier, 0 when the pool is full;
  \<open>None\<close> stands for a search that does not end.
\<close>

definition allocPacketId :: "nat \<Rightarrow> packet_ids \<Rightarrow> (u16 \<times> packet_ids) option" where
  "allocPacketId lim p =
     (let ids = m_allocatedPacketIds p in
      if vec_full lim ids \<or> 65535 \<le> length ids then Some (0, p)
      else
        let n0 = m_lastPacketId p + 1;
            nextPacketId = (if n0 = 0 then 1 else n0)
        in case alloc_loop ids nextPacketId of
             None \<Rightarrow> None
           | Some (ids', r) \<Rightarrow> Some (r, \<lparr>m_allocatedPacketIds = ids', m_lastPacketId = r\<rparr>))"

definition releasePacketId :: "u16 \<Rightarrow> packet_ids \<Rightarrow> packet_ids" where
  "releasePacketId pid p =
     (if pid = 0 then p
      else p\<lparr>m_allocatedPacketIds := lb_erase pid (m_allocatedPacketIds p)\<rparr>)"

section \<open>The search loop\<close>

definition pids_wf :: "packet_ids \<Rightarrow> bool" where
  "pids_wf p \<longleftrightarrow> strict_sorted (m_allocatedPacketIds p)"

lemma strict_sorted_lastD:
  assumes "strict_sorted xs" "x \<in> set xs" shows "x \<le> last xs"
  using assms by (induction xs) (auto simp: le_less split: if_splits)

lemma alloc_try_eq:
  assumes "strict_sorted ids"
  shows "alloc_try ids n = (if n \<in> set ids then None else Some (lb_insert n ids))"
proof (cases "ids = [] \<or> last ids < n")
  case True
  then have "\<forall>y\<in>set ids. y < n"
    using strict_sorted_lastD [OF assms] by (auto dest: order_le_less_trans)
  with True show ?thesis
    by (auto simp: alloc_try_def lb_insert_last)
next
  case False
  with assms show ?thesis by (simp add: alloc_try_def lb_found_iff)
qed

lemma alloc_loop_unfold:
  assumes "strict_sorted ids"
  shows "alloc_loop ids n =
     (if n \<in> set ids then alloc_loop ids (n + 1) else Some (lb_insert n ids, n))"
  by (subst alloc_loop.simps) (simp add: alloc_try_eq [OF assms])

text \<open>If \<open>k\<close> is the distance to the first free identifier, the loop returns it.\<close>

lemma alloc_loop_steps:
  assumes "strict_sorted ids" "n + of_nat k \<notin> set ids" "\<forall>j<k. n + of_nat j \<in> set ids"
  shows "alloc_loop ids n = Some (lb_insert (n + of_nat k) ids, n + of_nat k)"
  using assms(2,3)
proof (induction k arbitrary: n)
  case 0
  then show ?case by (simp add: alloc_loop_unfold [OF assms(1)])
next
  case (Suc k)
  have "n \<in> set ids" using Suc.prems(2) [rule_format, of 0] by simp
  moreover have "alloc_loop ids (n + 1)
      = Some (lb_insert (n + 1 + of_nat k) ids, n + 1 + of_nat k)"
  proof (rule Suc.IH)
    show "n + 1 + of_nat k \<notin> set ids" using Suc.prems(1) by (simp add: ac_simps)
    show "\<forall>j<k. n + 1 + of_nat j \<in> set ids"
      using Suc.prems(2) [rule_format, of "Suc j" for j] by (simp add: ac_simps)
  qed
  ultimately show ?case by (simp add: alloc_loop_unfold [OF assms(1), of n] ac_simps)
qed

text \<open>A pool with fewer than \<open>2 ^ 16\<close> entries has a free identifier ahead of any start.\<close>

lemma free_ahead:
  fixes n :: u16
  assumes "length ids < 65536"
  obtains k where "k < 65536" "n + of_nat k \<notin> set ids" "\<forall>j<k. n + of_nat j \<in> set ids"
proof -
  have "card (set ids) < card (UNIV :: u16 set)"
    using assms card_length [of ids] by (simp add: card_word)
  then obtain x where x: "x \<notin> set ids"
    by (metis UNIV_eq_I less_irrefl)
  define m where "m = unat (x - n)"
  have m: "n + of_nat m = x" by (simp add: m_def)
  define k where "k = (LEAST k. n + of_nat k \<notin> set ids)"
  have k: "n + of_nat k \<notin> set ids"
    unfolding k_def using x m by (metis (mono_tags, lifting) LeastI)
  have "k \<le> m" unfolding k_def using x m by (simp add: Least_le)
  moreover have "m < 65536" unfolding m_def using unsigned_less [of "x - n"] by simp
  ultimately have "k < 65536" by simp
  moreover have "\<forall>j<k. n + of_nat j \<in> set ids"
    unfolding k_def by (auto dest: not_less_Least)
  ultimately show thesis using that k by blast
qed

lemma alloc_loop_returns:
  assumes "strict_sorted ids" "length ids < 65536"
  shows "\<exists>r. alloc_loop ids n = Some (lb_insert r ids, r) \<and> r \<notin> set ids"
proof -
  obtain k where "n + of_nat k \<notin> set ids" "\<forall>j<k. n + of_nat j \<in> set ids"
    using assms(2) by (rule free_ahead)
  then show ?thesis using alloc_loop_steps [OF assms(1)] by blast
qed

section \<open>Allocation and release\<close>

definition pids_full :: "nat \<Rightarrow> packet_ids \<Rightarrow> bool" where
  "pids_full lim p \<longleftrightarrow>
     vec_full lim (m_allocatedPacketIds p) \<or> 65535 \<le> length (m_allocatedPacketIds p)"

lemma pids_wf_init [simp]: "pids_wf packet_ids_init"
  by (simp add: pids_wf_def packet_ids_init_def)

lemma alloc_full [pid_simps]: "pids_full lim p \<Longrightarrow> allocPacketId lim p = Some (0, p)"
  by (simp add: allocPacketId_def pids_full_def Let_def)

text \<open>The identifier the search starts from.\<close>

definition first_candidate :: "packet_ids \<Rightarrow> u16" where
  "first_candidate p = (if m_lastPacketId p + 1 = 0 then 1 else m_lastPacketId p + 1)"

lemma alloc_not_full:
  "\<not> pids_full lim p \<Longrightarrow> allocPacketId lim p =
     (case alloc_loop (m_allocatedPacketIds p) (first_candidate p) of
        None \<Rightarrow> None
      | Some (ids', r) \<Rightarrow> Some (r, \<lparr>m_allocatedPacketIds = ids', m_lastPacketId = r\<rparr>))"
  by (simp add: allocPacketId_def pids_full_def first_candidate_def Let_def)

lemma first_candidate_nonzero [simp]: "first_candidate p \<noteq> 0"
  by (simp add: first_candidate_def)

lemma alloc_returns:
  assumes "pids_wf p" "\<not> pids_full lim p"
  shows "\<exists>r. allocPacketId lim p =
      Some (r, \<lparr>m_allocatedPacketIds = lb_insert r (m_allocatedPacketIds p), m_lastPacketId = r\<rparr>)
    \<and> r \<notin> set (m_allocatedPacketIds p)"
proof -
  have "length (m_allocatedPacketIds p) < 65536"
    using assms(2) by (simp add: pids_full_def)
  then show ?thesis
    using alloc_loop_returns [of "m_allocatedPacketIds p" "first_candidate p"] assms
    by (auto simp: alloc_not_full pids_wf_def)
qed

lemma releasePacketId_wf [simp]: "pids_wf p \<Longrightarrow> pids_wf (releasePacketId pid p)"
  by (simp add: pids_wf_def releasePacketId_def strict_sorted_lb_erase)

lemma set_releasePacketId [pid_simps]:
  "pids_wf p \<Longrightarrow> set (m_allocatedPacketIds (releasePacketId pid p)) =
     (if pid = 0 then set (m_allocatedPacketIds p) else set (m_allocatedPacketIds p) - {pid})"
  by (simp add: pids_wf_def releasePacketId_def set_lb_erase)

text \<open>The bounds of the search before it wraps around: everything from the candidate up is taken.\<close>

lemma alloc_loop_in_range:
  fixes n :: u16
  assumes "strict_sorted ids" "x \<notin> set ids" "n \<le> x"
  shows "\<exists>r. alloc_loop ids n = Some (lb_insert r ids, r) \<and> n \<le> r \<and> r \<le> x"
  using assms(3)
proof (induction "unat (x - n)" arbitrary: n)
  case 0
  then have "x = n" by (simp add: unat_eq_zero)
  then show ?case using assms by (simp add: alloc_loop_unfold)
next
  case (Suc d)
  show ?case
  proof (cases "n \<in> set ids")
    case True
    with assms(2) Suc.prems have "n < x" by (metis order_le_less)
    then have "n + 1 \<le> x" "n < n + 1" "d = unat (x - (n + 1))"
      using Suc.hyps(2) by unat_arith+
    with Suc.hyps(1) [of "n + 1"] True show ?thesis
      by (fastforce simp: alloc_loop_unfold [OF assms(1), of n])
  next
    case False
    with Suc.prems show ?thesis by (auto simp: alloc_loop_unfold [OF assms(1), of n])
  qed
qed

lemma alloc_loop_wraps_to_zero:
  fixes n :: u16
  assumes "strict_sorted ids" "0 \<notin> set ids" "\<forall>x\<ge>n. x \<in> set ids"
  shows "alloc_loop ids n = Some (lb_insert 0 ids, 0)"
proof -
  define k where "k = 65536 - unat n"
  have n: "unat n < 65536" using unsigned_less [of n] by simp
  have k: "n + of_nat k = 0"
  proof -
    have "n + of_nat k = of_nat (unat n + k)" by simp
    also have "unat n + k = 65536" using n by (simp add: k_def)
    finally show ?thesis by simp
  qed
  moreover have "\<forall>j<k. n + of_nat j \<in> set ids"
  proof (intro allI impI)
    fix j assume "j < k"
    then have "unat n + j < 65536" using n by (simp add: k_def)
    then have "unat (n + of_nat j) = unat n + j"
      by (simp add: unat_word_ariths unat_of_nat)
    then have "n \<le> n + of_nat j" by (simp add: word_le_nat_alt)
    with assms(3) show "n + of_nat j \<in> set ids" by blast
  qed
  ultimately show ?thesis
    using alloc_loop_steps [OF assms(1), of n k] assms(2) by simp
qed

section \<open>The pool as a resource pool\<close>

definition pid_alloc_rel :: "nat \<Rightarrow> packet_ids \<Rightarrow> u16 \<Rightarrow> packet_ids \<Rightarrow> bool" where
  "pid_alloc_rel lim p i p' \<longleftrightarrow> allocPacketId lim p = Some (i, p') \<and> \<not> pids_full lim p"

lemma pid_alloc_relD:
  assumes "pids_wf p" "pid_alloc_rel lim p i p'"
  shows "i \<notin> set (m_allocatedPacketIds p)"
    "p' = \<lparr>m_allocatedPacketIds = lb_insert i (m_allocatedPacketIds p), m_lastPacketId = i\<rparr>"
  using assms alloc_returns [of p lim] by (auto simp: pid_alloc_rel_def)

interpretation pool: resource_pool "\<lambda>p. set (m_allocatedPacketIds p)" "pid_alloc_rel lim"
    releasePacketId pids_wf for lim
proof unfold_locales
  fix p i p'
  assume p: "pids_wf p" "pid_alloc_rel lim p i p'"
  note D = pid_alloc_relD [OF p]
  show "i \<notin> set (m_allocatedPacketIds p)" by (rule D(1))
  show "set (m_allocatedPacketIds p') = insert i (set (m_allocatedPacketIds p))" by (simp add: D(2))
  show "pids_wf p'" using p(1) D(1) by (simp add: D(2) pids_wf_def strict_sorted_lb_insert)
qed (auto simp: pid_simps)

section \<open>Runs of the pool\<close>

inductive pid_reach :: "nat \<Rightarrow> packet_ids \<Rightarrow> bool" for lim where
  pid_start: "pid_reach lim packet_ids_init"
| pid_alloc: "pid_reach lim p \<Longrightarrow> allocPacketId lim p = Some (i, p') \<Longrightarrow> pid_reach lim p'"
| pid_release: "pid_reach lim p \<Longrightarrow> pid_reach lim (releasePacketId i p)"

lemma pid_reach_wf: "pid_reach lim p \<Longrightarrow> pids_wf p"
proof (induction rule: pid_reach.induct)
  case (pid_alloc p i p')
  then show ?case
  proof (cases "pids_full lim p")
    case False
    with pid_alloc have "pid_alloc_rel lim p i p'" by (simp add: pid_alloc_rel_def)
    with pid_alloc.IH show ?thesis by (rule pool.alloc_valid)
  qed (auto simp: alloc_full)
qed simp_all

text \<open>Allocating the candidate itself, when it is free.\<close>

lemma alloc_candidate:
  assumes "strict_sorted ids" "first_candidate \<lparr>m_allocatedPacketIds = ids, m_lastPacketId = l\<rparr> = c"
    "c \<notin> set ids" "length ids < 65535"
  shows "allocPacketId 0 \<lparr>m_allocatedPacketIds = ids, m_lastPacketId = l\<rparr> =
     Some (c, \<lparr>m_allocatedPacketIds = lb_insert c ids, m_lastPacketId = c\<rparr>)"
proof -
  have "\<not> pids_full 0 \<lparr>m_allocatedPacketIds = ids, m_lastPacketId = l\<rparr>"
    using assms(4) by (simp add: pids_full_def vec_full_def)
  from alloc_not_full [OF this] show ?thesis
    using assms by (simp add: alloc_loop_unfold)
qed

lemma pid_reach_next:
  assumes "pid_reach 0 \<lparr>m_allocatedPacketIds = ids, m_lastPacketId = l\<rparr>"
    "l + 1 \<noteq> 0" "l + 1 \<notin> set ids" "length ids < 65535"
  shows "pid_reach 0 \<lparr>m_allocatedPacketIds = lb_insert (l + 1) ids, m_lastPacketId = l + 1\<rparr>"
proof -
  have "strict_sorted ids" using pid_reach_wf [OF assms(1)] by (simp add: pids_wf_def)
  then have "allocPacketId 0 \<lparr>m_allocatedPacketIds = ids, m_lastPacketId = l\<rparr> =
     Some (l + 1, \<lparr>m_allocatedPacketIds = lb_insert (l + 1) ids, m_lastPacketId = l + 1\<rparr>)"
    by (rule alloc_candidate) (use assms in \<open>simp_all add: first_candidate_def\<close>)
  with assms(1) show ?thesis by (rule pid_alloc)
qed

text \<open>A client that publishes one message after another walks through all identifiers.\<close>

lemma pid_reach_ladder:
  assumes "1 \<le> k" "k \<le> 65535"
  shows "pid_reach 0 \<lparr>m_allocatedPacketIds = [of_nat k], m_lastPacketId = of_nat k\<rparr>"
  using assms
proof (induction k rule: dec_induct)
  case base
  show ?case using pid_reach_next [OF pid_start [unfolded packet_ids_init_def]] by simp
next
  case (step k)
  let ?k = "of_nat k :: u16"
  have k: "?k + 1 \<noteq> 0" "?k < ?k + 1" "?k \<noteq> 0"
    using step by (simp_all add: word_less_nat_alt unat_word_ariths unat_of_nat unat_eq_0 word_unat_eq_iff)
  have "pid_reach 0 \<lparr>m_allocatedPacketIds = lb_insert (?k + 1) [?k], m_lastPacketId = ?k + 1\<rparr>"
    by (rule pid_reach_next) (use step k in auto)
  from pid_release [OF this, of ?k] k show ?case
    by (simp add: releasePacketId_def add.commute)
qed

text \<open>The same walk once more, while identifier 65535 stays in use.\<close>

lemma pid_reach_second_round:
  assumes "1 \<le> k" "k \<le> 65534"
  shows "pid_reach 0 \<lparr>m_allocatedPacketIds = [65535], m_lastPacketId = of_nat k\<rparr>"
  using assms
proof (induction k rule: dec_induct)
  case base
  have "pid_reach 0 \<lparr>m_allocatedPacketIds = [65535], m_lastPacketId = 65535\<rparr>"
    using pid_reach_ladder [of 65535] by simp
  moreover have "allocPacketId 0 \<lparr>m_allocatedPacketIds = [65535], m_lastPacketId = 65535\<rparr> =
     Some (1, \<lparr>m_allocatedPacketIds = [1, 65535], m_lastPacketId = 1\<rparr>)"
    by (subst alloc_candidate [where c = 1]) (simp_all add: first_candidate_def)
  ultimately have "pid_reach 0 \<lparr>m_allocatedPacketIds = [1, 65535], m_lastPacketId = 1\<rparr>"
    by (rule pid_alloc)
  from pid_release [OF this, of 1] show ?case by (simp add: releasePacketId_def)
next
  case (step k)
  let ?k = "of_nat k :: u16"
  have k: "?k + 1 \<noteq> 0" "?k + 1 < 65535"
    using step by (simp_all add: word_less_nat_alt unat_word_ariths unat_of_nat word_unat_eq_iff)
  have "pid_reach 0 \<lparr>m_allocatedPacketIds = lb_insert (?k + 1) [65535], m_lastPacketId = ?k + 1\<rparr>"
    by (rule pid_reach_next) (use step k in auto)
  from pid_release [OF this, of "?k + 1"] k less_imp_not_less [OF k(2)] show ?case
    by (simp add: releasePacketId_def add.commute)
qed

section \<open>Properties\<close>

text \<open>
  C26. The identifier search always ends, and allocation behaves as a fresh-name supply: on a pool
  whose vector is sorted without duplicates, \<open>allocPacketId\<close> returns 0 and changes nothing when
  the pool is full, and otherwise returns an identifier that was not allocated, adds exactly that
  identifier, remembers it as the last one and keeps the vector sorted without duplicates.
\<close>

theorem allocPacketId_fresh:
  assumes "pids_wf p"
  shows "\<exists>i p'. allocPacketId lim p = Some (i, p') \<and> pids_wf p' \<and>
     (if vec_full lim (m_allocatedPacketIds p) \<or> 65535 \<le> length (m_allocatedPacketIds p)
      then i = 0 \<and> p' = p
      else i \<notin> set (m_allocatedPacketIds p) \<and> m_lastPacketId p' = i \<and>
           set (m_allocatedPacketIds p') = insert i (set (m_allocatedPacketIds p)))"
proof (cases "pids_full lim p")
  case True
  with assms show ?thesis by (auto simp: alloc_full pids_full_def)
next
  case False
  then obtain i p' where a: "allocPacketId lim p = Some (i, p')" "pid_alloc_rel lim p i p'"
    using alloc_returns [OF assms False] by (auto simp: pid_alloc_rel_def)
  then show ?thesis
    using False pid_alloc_relD [OF assms a(2)] pool.alloc_valid [OF assms a(2)]
    by (auto simp: pids_full_def)
qed

theorem allocPacketId_fresh_witness:
  "pids_wf \<lparr>m_allocatedPacketIds = [1, 2, 5], m_lastPacketId = 1\<rparr> \<and>
   (\<exists>i p'. allocPacketId 0 \<lparr>m_allocatedPacketIds = [1, 2, 5], m_lastPacketId = 1\<rparr> = Some (i, p') \<and>
      i \<notin> {1, 2, 5} \<and> pids_wf p')"
proof -
  have wf: "pids_wf \<lparr>m_allocatedPacketIds = [1, 2, 5], m_lastPacketId = 1\<rparr>"
    by (simp add: pids_wf_def)
  from allocPacketId_fresh [OF wf, of 0] wf show ?thesis
    by (auto simp: vec_full_def)
qed

text \<open>
  Releasing the identifier that was just allocated gives back the vector as it was, so
  identifiers are not lost by an allocation and its release; the exception is the value 0, which
  \<open>releasePacketId\<close> ignores.
\<close>

theorem alloc_release_roundtrip:
  assumes "pids_wf p" "allocPacketId lim p = Some (i, p')" "i \<noteq> 0"
  shows "m_allocatedPacketIds (releasePacketId i p') = m_allocatedPacketIds p"
proof -
  have nf: "\<not> pids_full lim p" using assms(2,3) by (auto simp: alloc_full)
  then have "pid_alloc_rel lim p i p'" using assms(2) by (simp add: pid_alloc_rel_def)
  from pid_alloc_relD [OF assms(1) this] assms(3) show ?thesis
    by (simp add: releasePacketId_def lb_erase_insert)
qed

theorem alloc_release_roundtrip_witness:
  "m_allocatedPacketIds (releasePacketId 3
     \<lparr>m_allocatedPacketIds = [1, 2, 3, 5], m_lastPacketId = 3\<rparr>) = [1, 2, 5]"
proof -
  have wf: "pids_wf \<lparr>m_allocatedPacketIds = [1, 2, 5], m_lastPacketId = 1\<rparr>"
    by (simp add: pids_wf_def)
  have "allocPacketId 0 \<lparr>m_allocatedPacketIds = [1, 2, 5], m_lastPacketId = 1\<rparr>
      = Some (3, \<lparr>m_allocatedPacketIds = [1, 2, 3, 5], m_lastPacketId = 3\<rparr>)"
    by (simp add: allocPacketId_def vec_full_def alloc_loop.simps alloc_try_def)
  from alloc_release_roundtrip [OF wf this] show ?thesis by simp
qed

text \<open>
  C27. When the identifier is 0 although the pool is not full. The search does not skip 0 when it
  wraps inside the loop, so 0, which MQTT reserves, is returned exactly when 0 is not already in
  the vector and every identifier from the first candidate up to 65535 is allocated.
\<close>

theorem allocPacketId_zero_iff:
  assumes "pids_wf p" "\<not> vec_full lim (m_allocatedPacketIds p)"
    "length (m_allocatedPacketIds p) < 65535"
  shows "(\<exists>p'. allocPacketId lim p = Some (0, p')) \<longleftrightarrow>
     0 \<notin> set (m_allocatedPacketIds p) \<and>
     (\<forall>x \<ge> first_candidate p. x \<in> set (m_allocatedPacketIds p))"
proof -
  let ?ids = "m_allocatedPacketIds p" and ?c = "first_candidate p"
  have nf: "\<not> pids_full lim p" using assms(2,3) by (simp add: pids_full_def)
  have wf: "strict_sorted ?ids" using assms(1) by (simp add: pids_wf_def)
  show ?thesis
  proof (intro iffI conjI allI impI)
    assume "\<exists>p'. allocPacketId lim p = Some (0, p')"
    then obtain p' where z: "allocPacketId lim p = Some (0, p')" by blast
    then show "0 \<notin> set ?ids" using alloc_returns [OF assms(1) nf] by auto
    fix x assume "?c \<le> x"
    show "x \<in> set ?ids"
    proof (rule ccontr)
      assume "x \<notin> set ?ids"
      from alloc_loop_in_range [OF wf this \<open>?c \<le> x\<close>] obtain r
        where r: "alloc_loop ?ids ?c = Some (lb_insert r ?ids, r)" "?c \<le> r" by blast
      with z have "r = 0" by (simp add: alloc_not_full [OF nf])
      with r(2) show False by simp
    qed
  next
    assume "0 \<notin> set ?ids \<and> (\<forall>x\<ge>?c. x \<in> set ?ids)"
    then show "\<exists>p'. allocPacketId lim p = Some (0, p')"
      using alloc_loop_wraps_to_zero [OF wf] by (simp add: alloc_not_full [OF nf])
  qed
qed

theorem allocPacketId_zero_iff_witness:
  "\<exists>p'. allocPacketId 0 \<lparr>m_allocatedPacketIds = [65535], m_lastPacketId = 65534\<rparr> = Some (0, p')"
proof -
  let ?p = "\<lparr>m_allocatedPacketIds = [65535], m_lastPacketId = 65534\<rparr>"
  have c: "first_candidate ?p = 65535" by (simp add: first_candidate_def)
  have "x = 65535" if "65535 \<le> x" for x :: u16
    using that by unat_arith (use unsigned_less [of x] in simp)
  then show ?thesis
    using allocPacketId_zero_iff [of ?p 0] unfolding c
    by (simp add: pids_wf_def vec_full_def)
qed

text \<open>
  The reserved identifier 0 is handed out in a reachable state: after one round over all
  identifiers with the last one still in use, the next search passes 65535, wraps to 0 and returns
  it. The entry 0 then stays in the vector for ever, since releasing 0 is ignored.
\<close>

theorem packet_id_zero_reachable:
  "\<exists>p p'. pid_reach 0 p \<and> allocPacketId 0 p = Some (0, p') \<and> 0 \<in> set (m_allocatedPacketIds p') \<and>
     releasePacketId 0 p' = p'"
proof -
  let ?p = "\<lparr>m_allocatedPacketIds = [65535], m_lastPacketId = 65534\<rparr>"
  have "pid_reach 0 ?p" using pid_reach_second_round [of 65534] by simp
  moreover have "allocPacketId 0 ?p = Some (0, \<lparr>m_allocatedPacketIds = [0, 65535], m_lastPacketId = 0\<rparr>)"
    by (simp add: allocPacketId_def vec_full_def alloc_loop.simps alloc_try_def)
  ultimately show ?thesis by (force simp: releasePacketId_def)
qed

end
