(* ===== verification/Topic_Filters.thy ===== *)
theory Topic_Filters
  imports Mqtt_Prelude
begin

text \<open>
  Topic names and topic filters: the format checks \<open>Op::verifySubFilterInternal\<close> and
  \<open>Op::verifyPubTopicInternal\<close> (\<open>op/Op.cpp\<close>) with their wrappers in \<open>op/Op.h\<close>, and the matching
  of a topic against a filter, \<open>isTopicMatch\<close> (\<open>op/RecvOp.cpp\<close>). The specification they are
  compared with is the level structure of MQTT 3.1.1, section 4.7: a topic is a list of levels
  separated by slashes.

  Positions are unbounded here; the sources hold them in \<open>unsigned\<close> and \<open>int\<close>, so the model is
  exact for strings of fewer than \<open>2 ^ 31\<close> characters.
\<close>

section \<open>Model\<close>

definition TopicSep :: char where "TopicSep = CHR ''/''"
definition MultLevelWildcard :: char where "MultLevelWildcard = CHR ''#''"
definition SingleLevelWildcard :: char where "SingleLevelWildcard = CHR ''+''"

lemmas topic_chars = TopicSep_def MultLevelWildcard_def SingleLevelWildcard_def

text \<open>\<open>c_str()\<close> as its readers see it: the string up to the first NUL character.\<close>

definition c_str :: "string \<Rightarrow> string" where
  "c_str s = takeWhile (\<lambda>c. c \<noteq> CHR 0x00) s"

text \<open>
  The loop of \<open>verifySubFilterInternal\<close>, over the part of the C string from position \<open>pos\<close> on.
  The result is the verdict with the message passed to \<open>errorLog\<close>, if any.
\<close>

fun verifySubFilter_loop :: "string \<Rightarrow> nat \<Rightarrow> int \<Rightarrow> bool \<times> string option" where
  "verifySubFilter_loop [] pos lastSep = (True, None)"
| "verifySubFilter_loop (ch # rest) pos lastSep =
     (if ch = TopicSep then verifySubFilter_loop rest (pos + 1) (int pos)
      else if ch = MultLevelWildcard then
        (if rest \<noteq> [] then (False, Some ''Multi-level wildcard '#' must be last.'')
         else if pos = 0 then (True, None)
         else if lastSep < 0 \<or> int pos - 1 \<noteq> lastSep
           then (False, Some ''Multi-level wildcard '#' must follow separator.'')
         else (True, None))
      else if ch \<noteq> SingleLevelWildcard then verifySubFilter_loop rest (pos + 1) lastSep
      else if rest \<noteq> [] \<and> hd rest \<noteq> TopicSep
        then (False, Some ''Single-level wildcard '+' must be last of followed by /.'')
      else if pos = 0 then verifySubFilter_loop rest (pos + 1) lastSep
      else if lastSep < 0 \<or> int pos - 1 \<noteq> lastSep
        then (False, Some ''Single-level wildcard '+' must follow separator.'')
      else verifySubFilter_loop rest (pos + 1) lastSep)"

text \<open>\<open>verifyOutgoing\<close> is \<open>ConfigState::m_verifyOutgoingTopic\<close>.\<close>

definition verifySubFilterInternal :: "bool \<Rightarrow> string \<Rightarrow> bool \<times> string option" where
  "verifySubFilterInternal verifyOutgoing flt =
     (if \<not> verifyOutgoing then (True, None)
      else if flt = [] then (False, None)
      else verifySubFilter_loop flt 0 (-1))"

definition verifySubFilter :: "bool \<Rightarrow> bool \<Rightarrow> string \<Rightarrow> bool \<times> string option" where
  "verifySubFilter HasVerification verifyOutgoing flt =
     (if HasVerification then verifySubFilterInternal verifyOutgoing flt else (True, None))"

fun verifyPubTopic_loop :: "string \<Rightarrow> bool \<times> string option" where
  "verifyPubTopic_loop [] = (True, None)"
| "verifyPubTopic_loop (ch # rest) =
     (if ch = MultLevelWildcard \<or> ch = SingleLevelWildcard
        then (False, Some ''Wildcards cannot be used in publish topic'')
      else verifyPubTopic_loop rest)"

definition verifyPubTopicInternal :: "bool \<Rightarrow> bool \<Rightarrow> string \<Rightarrow> bool \<Rightarrow> bool \<times> string option" where
  "verifyPubTopicInternal verifyOutgoing verifyIncoming topic outgoing =
     (if outgoing \<and> \<not> verifyOutgoing then (True, None)
      else if \<not> outgoing \<and> \<not> verifyIncoming then (True, None)
      else if topic = [] then (False, None)
      else if outgoing \<and> hd topic = CHR ''$'' then (False, Some ''Cannot start topic with '$'.'')
      else verifyPubTopic_loop topic)"

definition verifyPubTopic :: "bool \<Rightarrow> bool \<Rightarrow> bool \<Rightarrow> string \<Rightarrow> bool \<Rightarrow> bool \<times> string option" where
  "verifyPubTopic HasVerification verifyOutgoing verifyIncoming topic outgoing =
     (if HasVerification then verifyPubTopicInternal verifyOutgoing verifyIncoming topic outgoing
      else (True, None))"

text \<open>
  \<open>isTopicMatch\<close> on string views. A view of the source always ends where its NUL-terminated
  buffer ends, so \<open>filter[0]\<close> of an empty view reads the terminator.
\<close>

definition sv_front :: "string \<Rightarrow> char" where
  "sv_front s = (case s of [] \<Rightarrow> CHR 0x00 | c # _ \<Rightarrow> c)"

definition find_sep :: "string \<Rightarrow> nat option" where
  "find_sep s = (let i = find_index (\<lambda>c. c = CHR ''/'') s in if i < length s then Some i else None)"

lemma find_sep_less: "find_sep s = Some i \<Longrightarrow> i < length s"
  by (auto simp: find_sep_def Let_def split: if_splits)

function isTopicMatch :: "string \<Rightarrow> string \<Rightarrow> bool" where
  "isTopicMatch flt topic =
     (if length flt = 1 \<and> sv_front flt = CHR ''#'' then True
      else if topic = [] then flt = []
      else case find_sep topic of
        Some t \<Rightarrow>
          (case find_sep flt of
             None \<Rightarrow> False
           | Some f \<Rightarrow>
               if (sv_front flt = CHR ''+'' \<and> f = 1) \<or> take f flt = take t topic
               then isTopicMatch (drop (f + 1) flt) (drop (t + 1) topic)
               else False)
      | None \<Rightarrow>
          (case find_sep flt of
             Some f \<Rightarrow>
               if length flt \<le> f + 1 then False
               else if (sv_front flt = CHR ''+'' \<and> f = 1) \<or> take f flt = topic
               then isTopicMatch (drop (f + 1) flt) []
               else False
           | None \<Rightarrow> (sv_front flt = CHR ''+'' \<and> length flt = 1) \<or> flt = topic))"
  by pat_completeness auto
termination
  by (relation "measure (\<lambda>(flt, topic). length flt)") (auto dest: find_sep_less)

declare isTopicMatch.simps [simp del]

section \<open>Specification: levels\<close>

fun levels :: "string \<Rightarrow> string list" where
  "levels [] = [[]]"
| "levels (c # cs) =
     (if c = CHR ''/'' then [] # levels cs else (c # hd (levels cs)) # tl (levels cs))"

text \<open>A level without wildcard characters.\<close>

definition plain_level :: "string \<Rightarrow> bool" where
  "plain_level l \<longleftrightarrow> CHR ''#'' \<notin> set l \<and> CHR ''+'' \<notin> set l"

text \<open>MQTT 4.7.1: \<open>+\<close> occupies an entire level, \<open>#\<close> an entire last level.\<close>

fun filter_levels_ok :: "string list \<Rightarrow> bool" where
  "filter_levels_ok [] = True"
| "filter_levels_ok (l # ls) =
     ((l = ''+'' \<or> plain_level l \<or> (l = ''#'' \<and> ls = [])) \<and> filter_levels_ok ls)"

text \<open>MQTT 4.7.1.2 and 4.7.1.3: \<open>#\<close> matches the parent and any number of levels, \<open>+\<close> one level.\<close>

fun level_match :: "string list \<Rightarrow> string list \<Rightarrow> bool" where
  "level_match [] ts = (ts = [])"
| "level_match (f # fs) [] = (f = ''#'' \<and> fs = [])"
| "level_match (f # fs) (t # ts) =
     ((f = ''#'' \<and> fs = []) \<or> ((f = ''+'' \<or> f = t) \<and> level_match fs ts))"

text \<open>
  The whole rule: a filter that starts with a wildcard does not match a topic that starts with a
  dollar sign (section 4.7.2).
\<close>

definition dollar_exempt :: "string \<Rightarrow> string \<Rightarrow> bool" where
  "dollar_exempt flt topic \<longleftrightarrow> take 1 topic = ''$'' \<and> (take 1 flt = ''#'' \<or> take 1 flt = ''+'')"

definition mqtt_match :: "string \<Rightarrow> string \<Rightarrow> bool" where
  "mqtt_match flt topic \<longleftrightarrow> level_match (levels flt) (levels topic) \<and> \<not> dollar_exempt flt topic"

lemma levels_neq_Nil [simp]: "levels s \<noteq> []"
  by (cases s) auto

lemma levels_singleton: "CHR ''/'' \<notin> set s \<Longrightarrow> levels s = [s]"
  by (induction s) auto

lemma levels_find_sep:
  "levels s = (case find_sep s of None \<Rightarrow> [s] | Some i \<Rightarrow> take i s # levels (drop (i + 1) s))"
  by (induction s) (auto simp: find_sep_def Let_def split: option.splits if_splits)

lemma levels_eq_Nil_level: "levels s = [[]] \<longleftrightarrow> s = []"
  by (cases s) auto

section \<open>The format checks\<close>

text \<open>The state of the check is whether the current position starts a level.\<close>

fun sub_ok :: "bool \<Rightarrow> string \<Rightarrow> bool" where
  "sub_ok b [] = True"
| "sub_ok b (c # r) =
     (if c = CHR ''/'' then sub_ok True r
      else if c = CHR ''#'' then r = [] \<and> b
      else if c \<noteq> CHR ''+'' then sub_ok False r
      else (r = [] \<or> hd r = CHR ''/'') \<and> b \<and> sub_ok False r)"

lemma verifySubFilter_loop_sub_ok:
  "lastSep < int pos \<Longrightarrow> -1 \<le> lastSep \<Longrightarrow>
   fst (verifySubFilter_loop s pos lastSep) =
     sub_ok (pos = 0 \<or> (0 \<le> lastSep \<and> int pos - 1 = lastSep)) s"
  by (induction s arbitrary: pos lastSep) (auto simp: topic_chars)

lemma hd_levels_Nil: "hd (levels s) = [] \<longleftrightarrow> s = [] \<or> hd s = CHR ''/''"
  by (cases s) auto

lemma levels_empty_iff: "hd (levels s) = [] \<and> tl (levels s) = [] \<longleftrightarrow> s = []"
  by (cases s) auto

lemma sub_ok_levels:
  "sub_ok True s = filter_levels_ok (levels s) \<and>
   sub_ok False s = (plain_level (hd (levels s)) \<and> filter_levels_ok (tl (levels s)))"
proof (induction s)
  case (Cons c s)
  then show ?case
    using hd_levels_Nil [of s] levels_empty_iff [of s]
    by (auto simp: plain_level_def)
qed (simp add: plain_level_def)

section \<open>Matching on levels\<close>

lemma find_sep_Some_front:
  assumes "find_sep s = Some i"
  shows "sv_front s = CHR ''+'' \<and> i = Suc 0 \<longleftrightarrow> take i s = ''+''"
  using assms
  by (cases s; cases i)
    (auto simp: sv_front_def find_sep_def Let_def neq_Nil_conv split: if_splits)

lemma sv_front_singleton:
  "sv_front s = c \<and> length s = 1 \<longleftrightarrow> s = [c] " if "c \<noteq> CHR 0x00"
  using that by (cases s) (auto simp: sv_front_def)

lemma match_empty_topic: "isTopicMatch flt [] \<longleftrightarrow> flt = ''#'' \<or> flt = []"
  using sv_front_singleton [of "CHR ''#''" flt] by (simp add: isTopicMatch.simps conj_commute)

lemma levels_single_iff: "levels s = [l] \<longleftrightarrow> find_sep s = None \<and> s = l"
  by (subst levels_find_sep) (auto split: option.splits)

lemma levels_hash_iff: "levels s = [''#''] \<longleftrightarrow> s = ''#''"
  by (auto simp: levels_single_iff find_sep_def)

lemma level_match_Nil_right: "level_match fs [] \<longleftrightarrow> fs = [] \<or> fs = [''#'']"
  by (cases fs) auto

text \<open>The unfolded equation of the matcher, with its tests on the first level.\<close>

lemma isTopicMatch_eq:
  "isTopicMatch flt topic =
     (if flt = ''#'' then True
      else if topic = [] then flt = []
      else case (find_sep topic, find_sep flt) of
        (Some t, None) \<Rightarrow> False
      | (Some t, Some f) \<Rightarrow>
          (take f flt = ''+'' \<or> take f flt = take t topic) \<and>
          isTopicMatch (drop (f + 1) flt) (drop (t + 1) topic)
      | (None, Some f) \<Rightarrow>
          (take f flt = ''+'' \<or> take f flt = topic) \<and> drop (f + 1) flt = ''#''
      | (None, None) \<Rightarrow> flt = ''+'' \<or> flt = topic)"
proof -
  have h: "length flt = 1 \<and> sv_front flt = CHR ''#'' \<longleftrightarrow> flt = ''#''"
    "sv_front flt = CHR ''+'' \<and> length flt = 1 \<longleftrightarrow> flt = ''+''"
    using sv_front_singleton [of "CHR ''#''" flt] sv_front_singleton [of "CHR ''+''" flt] by auto
  show ?thesis
  proof (cases "find_sep flt")
    case None
    then show ?thesis by (subst isTopicMatch.simps, unfold h) (simp split: option.split)
  next
    case (Some f)
    have "drop (f + 1) flt = ''#'' \<Longrightarrow> f + 1 < length flt" by (rule ccontr) simp
    with Some find_sep_Some_front [OF Some] show ?thesis
      by (subst isTopicMatch.simps, unfold h) (auto simp: match_empty_topic split: option.split)
  qed
qed

text \<open>Both directions of the comparison recurse on the rest of the filter.\<close>

lemma isTopicMatch_sound:
  "isTopicMatch flt topic \<Longrightarrow> level_match (levels flt) (levels topic)"
proof (induction "length flt" arbitrary: flt topic rule: less_induct)
  case less
  note IH = less.hyps
  show ?case
  proof (cases "flt = ''#''")
    case True
    then show ?thesis by (cases "levels topic") simp_all
  next
    case False
    with less.prems show ?thesis
      by (auto simp: isTopicMatch_eq [of flt topic] levels_find_sep [of flt]
          levels_find_sep [of topic] level_match_Nil_right levels_hash_iff
          intro!: IH dest: find_sep_less split: option.splits if_splits)
  qed
qed

lemma isTopicMatch_complete:
  "level_match (levels flt) (levels topic) \<Longrightarrow> last (levels topic) \<noteq> [] \<Longrightarrow> isTopicMatch flt topic"
proof (induction "length flt" arbitrary: flt topic rule: less_induct)
  case less
  note IH = less.hyps
  have "topic \<noteq> []" using less.prems(2) by auto
  with less.prems show ?case
    using IH
    by (auto simp: isTopicMatch_eq [of flt topic] levels_find_sep [of flt]
        levels_find_sep [of topic] level_match_Nil_right levels_hash_iff
        dest: find_sep_less split: option.splits if_splits)
qed

lemma verifyPubTopic_loop_plain: "fst (verifyPubTopic_loop s) \<longleftrightarrow> plain_level s"
  by (induction s) (auto simp: plain_level_def topic_chars)

lemma verifyPubTopic_loop_log: "snd (verifyPubTopic_loop s) = None \<longleftrightarrow> fst (verifyPubTopic_loop s)"
  by (induction s) auto

section \<open>Properties\<close>

text \<open>
  C28. The check of subscription filters accepts exactly the filters MQTT 3.1.1 (section 4.7.1)
  allows: non-empty, every level either \<open>+\<close> or free of wildcards, with \<open>#\<close> allowed as the whole
  last level only.
\<close>

theorem verifySubFilter_correct:
  "fst (verifySubFilter True True flt) \<longleftrightarrow> flt \<noteq> [] \<and> filter_levels_ok (levels flt)"
  using verifySubFilter_loop_sub_ok [of "-1" 0 flt] sub_ok_levels [of flt]
  by (simp add: verifySubFilter_def verifySubFilterInternal_def)

text \<open>
  C29. The check of topic names accepts exactly the non-empty names without wildcard characters, which
  are the names MQTT 3.1.1 allows. For outgoing messages it is stricter than MQTT: it also refuses names that start
  with a dollar sign. A rejected name is always reported unless it is empty.
\<close>

theorem verifyPubTopic_correct:
  "(fst (verifyPubTopic True True True topic outgoing) \<longleftrightarrow>
     topic \<noteq> [] \<and> plain_level topic \<and> \<not> (outgoing \<and> hd topic = CHR ''$'')) \<and>
   (snd (verifyPubTopic True True True topic outgoing) = None \<longleftrightarrow>
     fst (verifyPubTopic True True True topic outgoing) \<or> topic = [])"
  by (auto simp: verifyPubTopic_def verifyPubTopicInternal_def verifyPubTopic_loop_plain
      verifyPubTopic_loop_log)

text \<open>
  C35. The matcher and the rules of MQTT 3.1.1: level by level, \<open>+\<close> stands for one level and a final \<open>#\<close> for
  the parent and everything below it (section 4.7.1), and a filter that starts with a wildcard does not match a topic that
  starts with a dollar sign (section 4.7.2). The matcher checks the first part only. Apart from the pairs of the second
  part it accepts nothing the rules do not match, and it decides the rules exactly on topics whose last level is not empty;
  in those pairs, which a server does not deliver, it still follows the levels.
\<close>

theorem isTopicMatch_decides_mqtt_match:
  "(isTopicMatch flt topic \<and> \<not> dollar_exempt flt topic \<longrightarrow> mqtt_match flt topic) \<and>
   (last (levels topic) \<noteq> [] \<and> \<not> dollar_exempt flt topic \<longrightarrow> (isTopicMatch flt topic \<longleftrightarrow> mqtt_match flt topic)) \<and>
   (isTopicMatch flt topic \<longrightarrow> level_match (levels flt) (levels topic))"
  using isTopicMatch_sound isTopicMatch_complete unfolding mqtt_match_def by blast

theorem isTopicMatch_decides_mqtt_match_witness:
  "last (levels ''a/b/c'') \<noteq> [] \<and> mqtt_match ''a/+/c'' ''a/b/c'' \<and> isTopicMatch ''a/+/c'' ''a/b/c''"
proof -
  have l: "last (levels ''a/b/c'') \<noteq> []" "\<not> dollar_exempt ''a/+/c'' ''a/b/c''" "mqtt_match ''a/+/c'' ''a/b/c''"
    by (simp_all add: dollar_exempt_def mqtt_match_def)
  with isTopicMatch_decides_mqtt_match [of "''a/+/c''" "''a/b/c''"] show ?thesis by simp
qed

text \<open>The matcher does not know the rule on dollar signs.\<close>

lemma isTopicMatch_dollar: "isTopicMatch ''#'' ''$SYS/x'' \<and> \<not> mqtt_match ''#'' ''$SYS/x''"
  by (simp add: isTopicMatch_eq mqtt_match_def dollar_exempt_def)

text \<open>
  The matcher refuses topics with an empty last level that MQTT matches: \<open>sport/+\<close> matches
  \<open>sport/\<close> by the standard (section 4.7.1.3), and \<open>sport/+/#\<close> matches it through the parent rule, but
  both are rejected, so such a message counts as a protocol error.
\<close>

theorem isTopicMatch_incomplete_on_empty_level:
  "level_match (levels ''sport/+'') (levels ''sport/'') \<and> \<not> isTopicMatch ''sport/+'' ''sport/'' \<and>
   level_match (levels ''sport/+/#'') (levels ''sport/'') \<and> \<not> isTopicMatch ''sport/+/#'' ''sport/''"
  by (simp add: isTopicMatch_eq find_sep_def eval_nat_numeral)

end
