(* ===== verification/Timer_Mgr.thy ===== *)
theory Timer_Mgr
  imports Mqtt_Prelude "HOL-Library.Multiset"
begin

text \<open>
  The timer manager, \<open>TimerMgr.h\<close> and \<open>TimerMgr.cpp\<close>: a vector of timer slots, each with the
  remaining time, the callback and its argument, and the flags "allocated" and "suspended". The
  model is polymorphic in the callback (\<open>'c\<close>) and its argument (\<open>'d\<close>). \<open>tick\<close> is given in two
  parts: \<open>tick_collect\<close> is its first loop, which updates the slots and gathers the expired
  callbacks; calling them is the business of the client model, where the callbacks have a meaning.
\<close>

section \<open>Model\<close>

record ('c, 'd) TimerInfo =
  m_timeoutMs :: u64
  m_timeoutCb :: "'c option"
  m_timeoutData :: "'d option"
  m_allocated :: bool
  m_suspended :: bool

definition TimerInfo_init :: "('c, 'd) TimerInfo" where
  "TimerInfo_init = \<lparr>m_timeoutMs = 0, m_timeoutCb = None, m_timeoutData = None,
     m_allocated = False, m_suspended = False\<rparr>"

record ('c, 'd) TimerMgr =
  m_timers :: "('c, 'd) TimerInfo list"
  m_allocatedTimers :: nat

definition TimerMgr_init :: "('c, 'd) TimerMgr" where
  "TimerMgr_init = \<lparr>m_timers = [], m_allocatedTimers = 0\<rparr>"

text \<open>A \<open>TimerMgr::Timer\<close> is an index into the slots; \<open>InvalidIdx\<close> marks a failed allocation.\<close>

declare TimerInfo_init_def [code_unfold] TimerMgr_init_def [code_unfold]

definition InvalidIdx :: nat where "InvalidIdx = 4294967295"

definition Timer_isValid :: "nat \<Rightarrow> bool" where
  "Timer_isValid idx \<longleftrightarrow> idx < InvalidIdx"

abbreviation upd_timer :: "nat \<Rightarrow> (('c, 'd) TimerInfo \<Rightarrow> ('c, 'd) TimerInfo) \<Rightarrow>
    ('c, 'd) TimerMgr \<Rightarrow> ('c, 'd) TimerMgr" where
  "upd_timer idx f tm \<equiv> tm\<lparr>m_timers := (m_timers tm)[idx := f (m_timers tm ! idx)]\<rparr>"

definition createTimer :: "nat \<Rightarrow> ('c, 'd) TimerMgr \<Rightarrow> nat \<times> ('c, 'd) TimerMgr" where
  "createTimer idx tm =
     (idx, (upd_timer idx (\<lambda>info. info\<lparr>m_allocated := True\<rparr>) tm)
             \<lparr>m_allocatedTimers := m_allocatedTimers tm + 1\<rparr>)"

definition allocTimer :: "nat \<Rightarrow> ('c, 'd) TimerMgr \<Rightarrow> nat \<times> ('c, 'd) TimerMgr" where
  "allocTimer lim tm =
     (let free = find_index (\<lambda>info. \<not> m_allocated info) (m_timers tm) in
      if m_allocatedTimers tm < length (m_timers tm) \<and> free < length (m_timers tm)
        then createTimer free tm
      else if vec_full lim (m_timers tm) then (InvalidIdx, tm)
      else createTimer (length (m_timers tm)) (tm\<lparr>m_timers := m_timers tm @ [TimerInfo_init]\<rparr>))"

text \<open>The bounds checks of the private operations (\<open>m_timers.size() <= idx\<close>) make them no-ops.\<close>

definition freeTimer :: "nat \<Rightarrow> ('c, 'd) TimerMgr \<Rightarrow> ('c, 'd) TimerMgr" where
  "freeTimer idx tm =
     (if length (m_timers tm) \<le> idx then tm
      else (upd_timer idx (\<lambda>_. TimerInfo_init) tm)\<lparr>m_allocatedTimers := m_allocatedTimers tm - 1\<rparr>)"

definition timerWait :: "nat \<Rightarrow> u64 \<Rightarrow> 'c \<Rightarrow> 'd \<Rightarrow> ('c, 'd) TimerMgr \<Rightarrow> ('c, 'd) TimerMgr" where
  "timerWait idx timeoutMs cb d tm =
     (if length (m_timers tm) \<le> idx then tm
      else upd_timer idx
        (\<lambda>info. info\<lparr>m_timeoutMs := timeoutMs, m_timeoutCb := Some cb, m_timeoutData := Some d\<rparr>) tm)"

definition cancel_info :: "('c, 'd) TimerInfo \<Rightarrow> ('c, 'd) TimerInfo" where
  "cancel_info info = info\<lparr>m_timeoutMs := 0, m_timeoutCb := None, m_timeoutData := None\<rparr>"

definition timerCancel :: "nat \<Rightarrow> ('c, 'd) TimerMgr \<Rightarrow> ('c, 'd) TimerMgr" where
  "timerCancel idx tm =
     (if length (m_timers tm) \<le> idx then tm else upd_timer idx cancel_info tm)"

definition timerIsActive :: "nat \<Rightarrow> ('c, 'd) TimerMgr \<Rightarrow> bool" where
  "timerIsActive idx tm \<longleftrightarrow>
     idx < length (m_timers tm) \<and> m_timeoutCb (m_timers tm ! idx) \<noteq> None"

definition timerSetSuspended :: "nat \<Rightarrow> bool \<Rightarrow> ('c, 'd) TimerMgr \<Rightarrow> ('c, 'd) TimerMgr" where
  "timerSetSuspended idx suspended tm =
     (if length (m_timers tm) \<le> idx then tm
      else upd_timer idx (\<lambda>info. info\<lparr>m_suspended := suspended\<rparr>) tm)"

definition timerIsSuspended :: "nat \<Rightarrow> ('c, 'd) TimerMgr \<Rightarrow> bool" where
  "timerIsSuspended idx tm \<longleftrightarrow>
     idx < length (m_timers tm) \<and> m_suspended (m_timers tm ! idx)"

text \<open>The methods of \<open>TimerMgr::Timer\<close> that add a check of their own.\<close>

definition Timer_setSuspended :: "nat \<Rightarrow> bool \<Rightarrow> ('c, 'd) TimerMgr \<Rightarrow> ('c, 'd) TimerMgr" where
  "Timer_setSuspended idx suspended tm =
     (if timerIsActive idx tm then timerSetSuspended idx suspended tm else tm)"

definition Timer_isSuspended :: "nat \<Rightarrow> ('c, 'd) TimerMgr \<Rightarrow> bool" where
  "Timer_isSuspended idx tm \<longleftrightarrow> timerIsActive idx tm \<and> timerIsSuspended idx tm"

definition Timer_destroy :: "nat \<Rightarrow> ('c, 'd) TimerMgr \<Rightarrow> ('c, 'd) TimerMgr" where
  "Timer_destroy idx tm = (if Timer_isValid idx then freeTimer idx tm else tm)"

text \<open>A slot the loops of \<open>tick\<close> and \<open>getMinWait\<close> do not skip.\<close>

definition running :: "('c, 'd) TimerInfo \<Rightarrow> bool" where
  "running info \<longleftrightarrow> m_allocated info \<and> m_timeoutCb info \<noteq> None \<and> \<not> m_suspended info"

fun tick_loop :: "u32 \<Rightarrow> ('c, 'd) TimerInfo list \<Rightarrow> ('c \<times> 'd option) list \<times> ('c, 'd) TimerInfo list"
where
  "tick_loop ms [] = ([], [])"
| "tick_loop ms (info # rest) =
     (let (cbList, rest') = tick_loop ms rest in
      if \<not> running info then (cbList, info # rest')
      else if m_timeoutMs info \<le> ucast ms
        then ((the (m_timeoutCb info), m_timeoutData info) # cbList, cancel_info info # rest')
      else (cbList, info\<lparr>m_timeoutMs := m_timeoutMs info - ucast ms\<rparr> # rest'))"

definition tick_collect :: "u32 \<Rightarrow> ('c, 'd) TimerMgr \<Rightarrow> ('c \<times> 'd option) list \<times> ('c, 'd) TimerMgr" where
  "tick_collect ms tm =
     (let (cbList, timers) = tick_loop ms (m_timers tm) in (cbList, tm\<lparr>m_timers := timers\<rparr>))"

fun minWait_loop :: "u64 \<Rightarrow> ('c, 'd) TimerInfo list \<Rightarrow> u64" where
  "minWait_loop result [] = result"
| "minWait_loop result (info # rest) =
     minWait_loop (if running info then min result (m_timeoutMs info) else result) rest"

definition getMinWait :: "('c, 'd) TimerMgr \<Rightarrow> u32" where
  "getMinWait tm =
     (if m_allocatedTimers tm = 0 then 0
      else let result = minWait_loop 18446744073709551615 (m_timers tm) in
        if result = 18446744073709551615 then 0 else ucast (min result 4294967295))"

definition allocCount :: "('c, 'd) TimerMgr \<Rightarrow> nat" where
  "allocCount tm = length (filter m_allocated (m_timers tm))"

section \<open>Well-formedness\<close>

text \<open>
  The counter agrees with the slots, a slot that is not allocated is in its initial state, and a
  slot without a callback has no time left on it (the assertion in \<open>timerIsActive\<close>).
\<close>

definition info_wf :: "('c, 'd) TimerInfo \<Rightarrow> bool" where
  "info_wf info \<longleftrightarrow> (\<not> m_allocated info \<longrightarrow> info = TimerInfo_init) \<and>
     (m_timeoutCb info = None \<longrightarrow> m_timeoutMs info = 0)"

definition timers_wf :: "('c, 'd) TimerMgr \<Rightarrow> bool" where
  "timers_wf tm \<longleftrightarrow> m_allocatedTimers tm = allocCount tm \<and> (\<forall>info \<in> set (m_timers tm). info_wf info)"

definition allocated_idx :: "('c, 'd) TimerMgr \<Rightarrow> nat set" where
  "allocated_idx tm = {i. i < length (m_timers tm) \<and> m_allocated (m_timers tm ! i)}"

lemma info_wf_init [simp]: "info_wf TimerInfo_init"
  by (simp add: info_wf_def TimerInfo_init_def)

lemma timers_wf_init [simp]: "timers_wf TimerMgr_init"
  by (simp add: timers_wf_def TimerMgr_init_def allocCount_def)

lemma filter_length_update:
  assumes "i < length xs"
  shows "length (filter P (xs[i := x])) + (if P (xs ! i) then 1 else 0) =
     length (filter P xs) + (if P x then 1 else 0)"
  using assms
proof (induction xs arbitrary: i)
  case (Cons y ys)
  then show ?case by (cases i) auto
qed simp

lemma set_list_update_all: "\<forall>x\<in>set xs. P x \<Longrightarrow> P y \<Longrightarrow> \<forall>x\<in>set (xs[i := y]). P x"
  using set_update_subset_insert [of xs i y] by blast

lemma timers_wf_upd:
  assumes "timers_wf tm" "i < length (m_timers tm)"
    "m_allocated (f (m_timers tm ! i)) = m_allocated (m_timers tm ! i)" "info_wf (f (m_timers tm ! i))"
  shows "timers_wf (upd_timer i f tm)"
  using assms filter_length_update [of i "m_timers tm" m_allocated "f (m_timers tm ! i)"]
    set_list_update_all [of "m_timers tm" info_wf "f (m_timers tm ! i)" i]
  by (auto simp: timers_wf_def allocCount_def split: if_splits)

lemma info_wf_nth: "timers_wf tm \<Longrightarrow> i < length (m_timers tm) \<Longrightarrow> info_wf (m_timers tm ! i)"
  by (simp add: timers_wf_def)

lemma timers_wf_cancel [timer_simps]: "timers_wf tm \<Longrightarrow> timers_wf (timerCancel i tm)"
  unfolding timerCancel_def using info_wf_nth [of tm i]
  by (auto intro!: timers_wf_upd simp: info_wf_def cancel_info_def TimerInfo_init_def)

lemma timers_wf_wait [timer_simps]:
  assumes "timers_wf tm" "i \<in> allocated_idx tm"
  shows "timers_wf (timerWait i t c d tm)"
  unfolding timerWait_def
  using assms by (auto intro!: timers_wf_upd simp: info_wf_def allocated_idx_def)

lemma timers_wf_suspend [timer_simps]:
  assumes "timers_wf tm" "i \<in> allocated_idx tm"
  shows "timers_wf (timerSetSuspended i b tm)" "timers_wf (Timer_setSuspended i b tm)"
proof -
  show *: "timers_wf (timerSetSuspended i b tm)"
    unfolding timerSetSuspended_def using assms info_wf_nth [of tm i]
    by (auto intro!: timers_wf_upd simp: info_wf_def allocated_idx_def)
  show "timers_wf (Timer_setSuspended i b tm)"
    using * assms(1) by (simp add: Timer_setSuspended_def)
qed

lemma allocated_idx_keep [timer_simps]:
  "allocated_idx (timerCancel i tm) = allocated_idx tm"
  "allocated_idx (timerWait i t c d tm) = allocated_idx tm"
  "allocated_idx (timerSetSuspended i b tm) = allocated_idx tm"
  "allocated_idx (Timer_setSuspended i b tm) = allocated_idx tm"
  by (auto simp: timerCancel_def timerWait_def timerSetSuspended_def Timer_setSuspended_def
      allocated_idx_def cancel_info_def nth_list_update)

section \<open>Allocation\<close>

lemma allocCount_less_iff:
  "allocCount tm < length (m_timers tm) \<longleftrightarrow> (\<exists>info \<in> set (m_timers tm). \<not> m_allocated info)"
proof
  assume "allocCount tm < length (m_timers tm)"
  then show "\<exists>info \<in> set (m_timers tm). \<not> m_allocated info"
    by (rule contrapos_pp) (simp add: allocCount_def filter_id_conv)
qed (auto simp: allocCount_def intro: length_filter_less)

text \<open>
  The counter test and the search agree on a well-formed manager, so the branch the source marks
  "should not happen" is dead and the allocation is a first-fit one.
\<close>

lemma allocTimer_eq:
  assumes "timers_wf tm"
  shows "allocTimer lim tm =
     (let free = find_index (\<lambda>info. \<not> m_allocated info) (m_timers tm) in
      if free < length (m_timers tm) then createTimer free tm
      else if vec_full lim (m_timers tm) then (InvalidIdx, tm)
      else createTimer (length (m_timers tm)) (tm\<lparr>m_timers := m_timers tm @ [TimerInfo_init]\<rparr>))"
proof -
  have "allocCount tm < length (m_timers tm) \<longleftrightarrow>
      find_index (\<lambda>info. \<not> m_allocated info) (m_timers tm) < length (m_timers tm)"
    by (simp add: allocCount_less_iff find_index_less_iff)
  then show ?thesis using assms by (auto simp: allocTimer_def timers_wf_def Let_def)
qed

lemma createTimer_wf:
  assumes "timers_wf tm" "i < length (m_timers tm)" "\<not> m_allocated (m_timers tm ! i)"
    "createTimer i tm = (j, tm')"
  shows "j = i" "timers_wf tm'" "allocated_idx tm' = insert i (allocated_idx tm)"
    "m_timers tm' ! i = TimerInfo_init\<lparr>m_allocated := True\<rparr>"
    "\<forall>k. k \<noteq> i \<longrightarrow> m_timers tm' ! k = m_timers tm ! k" "length (m_timers tm') = length (m_timers tm)"
proof -
  have init: "m_timers tm ! i = TimerInfo_init"
    using info_wf_nth [OF assms(1,2)] assms(3) by (simp add: info_wf_def)
  show "j = i" "allocated_idx tm' = insert i (allocated_idx tm)"
    "m_timers tm' ! i = TimerInfo_init\<lparr>m_allocated := True\<rparr>"
    "\<forall>k. k \<noteq> i \<longrightarrow> m_timers tm' ! k = m_timers tm ! k" "length (m_timers tm') = length (m_timers tm)"
    using assms(2-4) init by (auto simp: createTimer_def allocated_idx_def nth_list_update)
  let ?new = "TimerInfo_init\<lparr>m_allocated := True\<rparr> :: ('a, 'b) TimerInfo"
  have "length (filter m_allocated ((m_timers tm)[i := ?new])) =
      Suc (length (filter m_allocated (m_timers tm)))"
    using filter_length_update [OF assms(2), of m_allocated ?new] assms(3) by simp
  moreover have "info_wf ?new" by (simp add: info_wf_def TimerInfo_init_def)
  ultimately show "timers_wf tm'"
    using assms set_list_update_all [of "m_timers tm" info_wf ?new i]
    by (auto simp: createTimer_def timers_wf_def allocCount_def init)
qed

definition timer_alloc_rel :: "nat \<Rightarrow> ('c, 'd) TimerMgr \<Rightarrow> nat \<Rightarrow> ('c, 'd) TimerMgr \<Rightarrow> bool" where
  "timer_alloc_rel lim tm i tm' \<longleftrightarrow> allocTimer lim tm = (i, tm') \<and> Timer_isValid i"

lemma allocTimer_cases:
  assumes "timers_wf tm" "allocTimer lim tm = (i, tm')"
  obtains (full) "vec_full lim (m_timers tm)" "\<forall>info \<in> set (m_timers tm). m_allocated info"
      "i = InvalidIdx" "tm' = tm"
  | (fresh) "i \<notin> allocated_idx tm" "i < length (m_timers tm')" "timers_wf tm'"
      "allocated_idx tm' = insert i (allocated_idx tm)"
      "m_timers tm' ! i = TimerInfo_init\<lparr>m_allocated := True\<rparr>"
      "\<forall>k < length (m_timers tm). k \<noteq> i \<longrightarrow> m_timers tm' ! k = m_timers tm ! k"
      "i \<le> length (m_timers tm)"
      "length (m_timers tm') = length (m_timers tm) \<or>
       i = length (m_timers tm) \<and> length (m_timers tm') = Suc i"
proof -
  let ?f = "find_index (\<lambda>info. \<not> m_allocated info) (m_timers tm)"
  let ?tm = "tm\<lparr>m_timers := m_timers tm @ [TimerInfo_init]\<rparr>"
  consider (slot) "?f < length (m_timers tm)" | (none) "\<not> ?f < length (m_timers tm)" by blast
  then show thesis
  proof cases
    case slot
    then have c: "createTimer ?f tm = (i, tm')"
      using assms by (simp add: allocTimer_eq Let_def)
    note w = createTimer_wf [OF assms(1) slot find_index_sat [OF slot] c]
    show thesis
      by (rule fresh) (use w slot find_index_sat [OF slot] in \<open>simp_all add: allocated_idx_def\<close>)
  next
    case none
    then have all: "\<forall>info \<in> set (m_timers tm). m_allocated info"
      by (simp add: find_index_less_iff)
    show thesis
    proof (cases "vec_full lim (m_timers tm)")
      case True
      with none all assms show thesis by (intro full) (auto simp: allocTimer_eq Let_def)
    next
      case False
      with none have c: "createTimer (length (m_timers tm)) ?tm = (i, tm')"
        using assms by (simp add: allocTimer_eq Let_def)
      have "timers_wf ?tm"
        using assms(1) by (auto simp: timers_wf_def allocCount_def TimerInfo_init_def info_wf_def)
      from createTimer_wf [OF this _ _ c] show thesis
        by (intro fresh)
          (auto simp: TimerInfo_init_def allocated_idx_def nth_append less_Suc_eq)
    qed
  qed
qed

lemma freeTimer_wf:
  assumes "timers_wf tm" "i \<in> allocated_idx tm"
  shows "timers_wf (freeTimer i tm)" "allocated_idx (freeTimer i tm) = allocated_idx tm - {i}"
    "k \<noteq> i \<Longrightarrow> m_timers (freeTimer i tm) ! k = m_timers tm ! k"
proof -
  have i: "i < length (m_timers tm)" "m_allocated (m_timers tm ! i)"
    using assms(2) by (simp_all add: allocated_idx_def)
  have "Suc (length (filter m_allocated ((m_timers tm)[i := TimerInfo_init]))) =
      length (filter m_allocated (m_timers tm))"
    using filter_length_update [OF i(1), of m_allocated TimerInfo_init] i(2)
    by (simp add: TimerInfo_init_def)
  with assms(1) i(1) show "timers_wf (freeTimer i tm)"
    using set_list_update_all [of "m_timers tm" info_wf TimerInfo_init i]
    by (auto simp: freeTimer_def timers_wf_def allocCount_def)
  show "allocated_idx (freeTimer i tm) = allocated_idx tm - {i}"
    using i(1) by (auto simp: freeTimer_def allocated_idx_def nth_list_update TimerInfo_init_def)
  show "k \<noteq> i \<Longrightarrow> m_timers (freeTimer i tm) ! k = m_timers tm ! k"
    by (simp add: freeTimer_def)
qed

interpretation slots: resource_pool allocated_idx "timer_alloc_rel lim" freeTimer timers_wf for lim
proof unfold_locales
  fix tm i tm'
  assume tm: "timers_wf (tm :: ('a, 'b) TimerMgr)" "timer_alloc_rel lim tm i tm'"
  then have a: "allocTimer lim tm = (i, tm')" "i \<noteq> InvalidIdx"
    by (auto simp: timer_alloc_rel_def Timer_isValid_def)
  from allocTimer_cases [OF tm(1) a(1)] a(2)
  have "i \<notin> allocated_idx tm \<and> allocated_idx tm' = insert i (allocated_idx tm) \<and> timers_wf tm'"
    by metis
  then show "i \<notin> allocated_idx tm" "allocated_idx tm' = insert i (allocated_idx tm)" "timers_wf tm'"
    by blast+
qed (auto simp: freeTimer_wf)

section \<open>The passage of time\<close>

definition expired :: "u32 \<Rightarrow> ('c, 'd) TimerInfo \<Rightarrow> bool" where
  "expired ms info \<longleftrightarrow> running info \<and> m_timeoutMs info \<le> ucast ms"

definition tick_info :: "u32 \<Rightarrow> ('c, 'd) TimerInfo \<Rightarrow> ('c, 'd) TimerInfo" where
  "tick_info ms info =
     (if \<not> running info then info
      else if m_timeoutMs info \<le> ucast ms then cancel_info info
      else info\<lparr>m_timeoutMs := m_timeoutMs info - ucast ms\<rparr>)"

definition callback :: "('c, 'd) TimerInfo \<Rightarrow> 'c \<times> 'd option" where
  "callback info = (the (m_timeoutCb info), m_timeoutData info)"

lemma tick_loop_eq:
  "tick_loop ms infos = (map callback (filter (expired ms) infos), map (tick_info ms) infos)"
  by (induction infos) (auto simp: expired_def tick_info_def callback_def Let_def split: prod.splits)

lemma tick_collect_eq:
  "tick_collect ms tm =
     (map callback (filter (expired ms) (m_timers tm)), tm\<lparr>m_timers := map (tick_info ms) (m_timers tm)\<rparr>)"
  by (simp add: tick_collect_def tick_loop_eq)

lemma minWait_loop_le_start: "minWait_loop r infos \<le> r"
proof (induction infos arbitrary: r)
  case (Cons i infos)
  show ?case using Cons [of r] Cons [of "min r (m_timeoutMs i)"] by auto
qed simp

lemma minWait_loop_le:
  "info \<in> set infos \<Longrightarrow> running info \<Longrightarrow> minWait_loop r infos \<le> m_timeoutMs info"
proof (induction infos arbitrary: r)
  case (Cons i infos)
  show ?case
    using Cons minWait_loop_le_start [of "min r (m_timeoutMs i)" infos] by auto
qed simp

lemma minWait_loop_in:
  "minWait_loop r infos = r \<or> (\<exists>info \<in> set infos. running info \<and> minWait_loop r infos = m_timeoutMs info)"
proof (induction infos arbitrary: r)
  case (Cons i infos)
  show ?case
    using Cons [of r] Cons [of "min r (m_timeoutMs i)"] by (auto simp: min_def)
qed simp

lemma tick_info_wf: "info_wf info \<Longrightarrow> info_wf (tick_info ms info)"
  by (auto simp: tick_info_def info_wf_def running_def cancel_info_def)

lemma tick_info_allocated [simp]: "m_allocated (tick_info ms info) = m_allocated info"
  by (simp add: tick_info_def cancel_info_def)

lemma tick_collect_wf [timer_simps]: "timers_wf tm \<Longrightarrow> timers_wf (snd (tick_collect ms tm))"
  by (auto simp: tick_collect_eq timers_wf_def allocCount_def filter_map comp_def tick_info_wf)

text \<open>Time adds up: two ticks act on a slot like one tick of the whole duration.\<close>

lemma tick_info_add:
  assumes "unat a + unat b < 2 ^ 32"
  shows "tick_info b (tick_info a info) = tick_info (a + b) info"
    "expired (a + b) info \<longleftrightarrow> expired a info \<or> expired b (tick_info a info)"
    "\<not> (expired a info \<and> expired b (tick_info a info))"
proof -
  let ?t = "m_timeoutMs info"
  note ab = ucast_add_32_64 [OF assms]
  have un: "unat (ucast a + ucast b :: u64) = unat a + unat b"
    using assms by (simp add: unat_word_ariths)
  have le: "?t \<le> ucast a \<Longrightarrow> ?t \<le> ucast a + ucast b"
    by (simp add: word_le_nat_alt un)
  have sub: "\<not> ?t \<le> ucast a \<Longrightarrow> ?t - ucast a \<le> ucast b \<longleftrightarrow> ?t \<le> ucast a + ucast b"
    by (auto simp: word_le_nat_alt un unat_sub)
  have "?t - ucast a - ucast b = ?t - (ucast a + ucast b)" by simp
  then show "tick_info b (tick_info a info) = tick_info (a + b) info"
    using le sub by (auto simp: tick_info_def running_def cancel_info_def ab)
  show "expired (a + b) info \<longleftrightarrow> expired a info \<or> expired b (tick_info a info)"
    using le sub by (auto simp: expired_def tick_info_def running_def cancel_info_def ab)
  show "\<not> (expired a info \<and> expired b (tick_info a info))"
    by (auto simp: expired_def tick_info_def running_def cancel_info_def)
qed

lemma unat_getMinWait:
  assumes "m_allocatedTimers tm \<noteq> 0" "minWait_loop 18446744073709551615 (m_timers tm) \<noteq> 18446744073709551615"
  shows "unat (getMinWait tm) = min (unat (minWait_loop 18446744073709551615 (m_timers tm))) 4294967295"
proof -
  let ?r = "minWait_loop 18446744073709551615 (m_timers tm)"
  have "unat (min ?r 4294967295) = min (unat ?r) 4294967295"
    by (simp add: min_def word_le_nat_alt)
  moreover have "unat (min ?r 4294967295) < 2 ^ 32"
    by (simp add: calculation)
  then have "unat (ucast (min ?r 4294967295) :: u32) = unat (min ?r 4294967295)"
    by (simp add: unsigned_ucast_eq take_bit_nat_eq_self)
  ultimately show ?thesis using assms by (simp add: getMinWait_def Let_def)
qed

lemma getMinWait_nonzeroD:
  assumes "getMinWait tm \<noteq> 0"
  shows "m_allocatedTimers tm \<noteq> 0" "minWait_loop 18446744073709551615 (m_timers tm) \<noteq> 18446744073709551615"
  using assms by (auto simp: getMinWait_def Let_def split: if_splits)

section \<open>Properties\<close>

text \<open>
  C36. Timer allocation is first-fit and exclusive. On a well-formed manager it fails, leaving the
  manager alone, only when the configured number of slots is exhausted; otherwise it returns a slot
  no other timer holds, idle and not suspended, and touches no other slot, and the manager stays
  well-formed.
\<close>

theorem allocTimer_exclusive:
  assumes "timers_wf tm" "allocTimer lim tm = (i, tm')"
  shows "(i = InvalidIdx \<and> tm' = tm \<and> vec_full lim (m_timers tm) \<and> allocCount tm = length (m_timers tm)) \<or>
     (i \<notin> allocated_idx tm \<and> allocated_idx tm' = insert i (allocated_idx tm) \<and> timers_wf tm' \<and>
      m_timers tm' ! i = TimerInfo_init\<lparr>m_allocated := True\<rparr> \<and>
      (\<forall>k < length (m_timers tm). k \<noteq> i \<longrightarrow> m_timers tm' ! k = m_timers tm ! k))"
  using assms(1,2)
proof (cases rule: allocTimer_cases)
  case full
  then have "allocCount tm = length (m_timers tm)" by (simp add: allocCount_def filter_id_conv)
  with full show ?thesis by blast
qed blast

definition demo_timers :: "(nat, nat) TimerMgr" where
  "demo_timers = \<lparr>m_timers =
     [\<lparr>m_timeoutMs = 500, m_timeoutCb = Some 7, m_timeoutData = Some 1, m_allocated = True, m_suspended = False\<rparr>,
      \<lparr>m_timeoutMs = 0, m_timeoutCb = None, m_timeoutData = None, m_allocated = False, m_suspended = False\<rparr>,
      \<lparr>m_timeoutMs = 200, m_timeoutCb = Some 8, m_timeoutData = Some 2, m_allocated = True, m_suspended = False\<rparr>],
     m_allocatedTimers = 2\<rparr>"

lemma demo_timers_wf: "timers_wf demo_timers"
  by (simp add: timers_wf_def demo_timers_def allocCount_def info_wf_def TimerInfo_init_def)

theorem allocTimer_exclusive_witness:
  "1 \<notin> allocated_idx demo_timers \<and> 1 \<in> allocated_idx (snd (allocTimer 0 demo_timers))"
proof -
  have "allocTimer 0 demo_timers = (1, snd (allocTimer 0 demo_timers))"
    by (simp add: allocTimer_def createTimer_def demo_timers_def Let_def)
  from allocTimer_exclusive [OF demo_timers_wf this] show ?thesis
    by (simp add: InvalidIdx_def)
qed

text \<open>
  C37. The wait time the manager asks for is the time to the next expiry: no timer fires in a
  shorter tick, and a tick of exactly that length fires at least one (unless the value was
  clipped to the largest \<open>unsigned\<close>). A client that ticks as it was asked to therefore neither
  misses an expiry nor is woken without one.
\<close>

theorem getMinWait_is_next_expiry:
  "(ms < getMinWait tm \<longrightarrow> fst (tick_collect ms tm) = []) \<and>
   (getMinWait tm \<noteq> 0 \<and> getMinWait tm \<noteq> 4294967295 \<longrightarrow> fst (tick_collect (getMinWait tm) tm) \<noteq> [])"
proof (cases "getMinWait tm = 0")
  case False
  let ?r = "minWait_loop 18446744073709551615 (m_timers tm)"
  note nz = getMinWait_nonzeroD [OF False]
  note u = unat_getMinWait [OF nz]
  have "\<not> expired ms info" if "ms < getMinWait tm" "info \<in> set (m_timers tm)" for info
    using minWait_loop_le [OF that(2), of 18446744073709551615] that(1) u
    by (auto simp: expired_def word_le_nat_alt word_less_nat_alt)
  moreover have "\<exists>info \<in> set (m_timers tm). expired (getMinWait tm) info"
    if m: "getMinWait tm \<noteq> 4294967295"
  proof -
    obtain info where i: "info \<in> set (m_timers tm)" "running info" "?r = m_timeoutMs info"
      using minWait_loop_in [of 18446744073709551615 "m_timers tm"] nz(2) by blast
    have "unat (getMinWait tm) \<noteq> unat (4294967295 :: u32)" using m by (simp add: word_unat_eq_iff)
    then have "unat ?r = unat (getMinWait tm)" using u by (simp add: min_def split: if_splits)
    then show ?thesis using i by (auto simp: expired_def word_le_nat_alt)
  qed
  ultimately show ?thesis by (auto simp: tick_collect_eq filter_empty_conv)
qed auto

theorem getMinWait_is_next_expiry_witness:
  "getMinWait demo_timers = 200 \<and> fst (tick_collect 199 demo_timers) = [] \<and>
   fst (tick_collect 200 demo_timers) \<noteq> []"
proof -
  have g: "getMinWait demo_timers = 200"
    by (simp add: getMinWait_def demo_timers_def running_def Let_def min_def)
  from getMinWait_is_next_expiry [of 199 demo_timers] show ?thesis unfolding g by simp
qed

text \<open>
  C38. Time is additive: as long as the milliseconds fit into an \<open>unsigned\<close>, reporting an elapsed
  time in two portions leaves the slots exactly as reporting it at once does, and fires the same
  callbacks, each once.
\<close>

theorem tick_additive:
  assumes "unat a + unat b < 2 ^ 32"
  shows "snd (tick_collect b (snd (tick_collect a tm))) = snd (tick_collect (a + b) tm) \<and>
     mset (fst (tick_collect a tm)) + mset (fst (tick_collect b (snd (tick_collect a tm)))) =
       mset (fst (tick_collect (a + b) tm))"
proof
  note add = tick_info_add [OF assms]
  show "snd (tick_collect b (snd (tick_collect a tm))) = snd (tick_collect (a + b) tm)"
    by (simp add: tick_collect_eq add(1))
  have cb: "expired b (tick_info a i) \<Longrightarrow> callback (tick_info a i) = callback i" for i
    by (auto simp: tick_info_def expired_def callback_def running_def cancel_info_def split: if_splits)
  have "mset (map callback (filter (expired a) xs)) +
      mset (map callback (filter (expired b) (map (tick_info a) xs))) =
      mset (map callback (filter (expired (a + b)) xs))" for xs
    by (induction xs) (use add(2,3) cb in auto)
  then show "mset (fst (tick_collect a tm)) + mset (fst (tick_collect b (snd (tick_collect a tm)))) =
      mset (fst (tick_collect (a + b) tm))"
    by (simp add: tick_collect_eq)
qed

theorem tick_additive_witness:
  "fst (tick_collect 200 demo_timers) = [(8, Some 2)] \<and> fst (tick_collect 500 demo_timers) = [(7, Some 1), (8, Some 2)] \<and>
   mset (fst (tick_collect 300 (snd (tick_collect 200 demo_timers)))) = {#(7, Some 1)#}"
proof -
  have t: "fst (tick_collect 200 demo_timers) = [(8, Some 2)]"
    "fst (tick_collect 500 demo_timers) = [(7, Some 1), (8, Some 2)]"
    by (simp_all add: tick_collect_eq demo_timers_def expired_def running_def callback_def)
  have "unat (200 :: u32) + unat (300 :: u32) < 2 ^ 32" by simp
  from tick_additive [OF this, of demo_timers] t show ?thesis by simp
qed

end
