(* ===== verification/Ext_Config.thy ===== *)
theory Ext_Config
  imports Mqtt_Prelude
begin

text \<open>
  The compile-time configuration. \<open>Config.h\<close> is generated by the build from
  \<open>templ/Config.h.templ\<close>, so its constants are the fields of a record the model takes as an
  argument; \<open>ExtConfig.h\<close> derives from them the capacities of the operation lists, the timer
  slots and the packet identifier pool. A capacity of 0 selects dynamic memory. The constants are
  \<open>unsigned\<close>: sums wrap around at 32 bits.
\<close>

section \<open>Model\<close>

record Config =
  HasDynMemAlloc :: bool
  MaxOutputPacketSize :: nat
  ReceiveMaxLimit :: nat
  SendMaxLimit :: nat
  SubscribeOpsLimit :: nat
  UnsubscribeOpsLimit :: nat
  HasErrorLog :: bool
  HasTopicFormatVerification :: bool
  HasSubTopicVerification :: bool
  SubFiltersLimit :: nat
  MaxQos :: nat

definition wrap32 :: "nat \<Rightarrow> nat" where
  "wrap32 n = n mod 2 ^ 32"

definition ConnectOpsLimit :: "('e) Config_scheme \<Rightarrow> nat" where
  "ConnectOpsLimit E = (if HasDynMemAlloc E then 0 else 1)"

definition KeepAliveOpsLimit :: "('e) Config_scheme \<Rightarrow> nat" where
  "KeepAliveOpsLimit E = (if HasDynMemAlloc E then 0 else 1)"

definition DisconnectOpsLimit :: "('e) Config_scheme \<Rightarrow> nat" where
  "DisconnectOpsLimit E = (if HasDynMemAlloc E then 0 else 1)"

definition RecvOpsLimit :: "('e) Config_scheme \<Rightarrow> nat" where
  "RecvOpsLimit E =
     (if MaxQos E < 2 then 1 else if ReceiveMaxLimit E = 0 then 0 else wrap32 (ReceiveMaxLimit E + 1))"

definition SendOpsLimit :: "('e) Config_scheme \<Rightarrow> nat" where
  "SendOpsLimit E = (if SendMaxLimit E = 0 then 0 else wrap32 (SendMaxLimit E + 1))"

definition HasOpsLimit :: "('e) Config_scheme \<Rightarrow> bool" where
  "HasOpsLimit E \<longleftrightarrow>
     ConnectOpsLimit E > 0 \<and> KeepAliveOpsLimit E > 0 \<and> DisconnectOpsLimit E > 0 \<and>
     SubscribeOpsLimit E > 0 \<and> UnsubscribeOpsLimit E > 0 \<and> RecvOpsLimit E > 0 \<and> SendOpsLimit E > 0"

text \<open>The timers of one operation of each type (\<open>ConnectOpTimers\<close> to \<open>SendOpTimers\<close>).\<close>

definition MaxTimersLimit :: "('e) Config_scheme \<Rightarrow> nat" where
  "MaxTimersLimit E =
     wrap32 (ConnectOpsLimit E * 1 + KeepAliveOpsLimit E * 3 + DisconnectOpsLimit E * 0 +
       SubscribeOpsLimit E * 1 + UnsubscribeOpsLimit E * 1 + RecvOpsLimit E * 1 + SendOpsLimit E * 1)"

definition TimersLimit :: "('e) Config_scheme \<Rightarrow> nat" where
  "TimersLimit E = (if HasOpsLimit E then MaxTimersLimit E else 0)"

definition MaxOpsLimit :: "('e) Config_scheme \<Rightarrow> nat" where
  "MaxOpsLimit E =
     wrap32 (ConnectOpsLimit E + KeepAliveOpsLimit E + DisconnectOpsLimit E + SubscribeOpsLimit E +
       UnsubscribeOpsLimit E + RecvOpsLimit E + SendOpsLimit E)"

definition OpsLimit :: "('e) Config_scheme \<Rightarrow> nat" where
  "OpsLimit E = (if HasOpsLimit E then MaxOpsLimit E else 0)"

definition PacketIdsLimit :: "('e) Config_scheme \<Rightarrow> nat" where
  "PacketIdsLimit E =
     (if HasDynMemAlloc E then 0
      else wrap32 (SubscribeOpsLimit E + UnsubscribeOpsLimit E + SendOpsLimit E))"

section \<open>The static assertions\<close>

text \<open>The assertions of \<open>Config.h.templ\<close> that every build satisfies.\<close>

definition Config_asserts :: "('e) Config_scheme \<Rightarrow> bool" where
  "Config_asserts E \<longleftrightarrow>
     (HasDynMemAlloc E \<or> MaxOutputPacketSize E > 0) \<and>
     (HasDynMemAlloc E \<or> ReceiveMaxLimit E > 0 \<or> MaxQos E < 2) \<and>
     (HasDynMemAlloc E \<or> SendMaxLimit E > 0) \<and>
     (HasDynMemAlloc E \<or> SubscribeOpsLimit E > 0) \<and>
     (HasDynMemAlloc E \<or> UnsubscribeOpsLimit E > 0) \<and>
     (HasDynMemAlloc E \<or> \<not> HasSubTopicVerification E \<or> SubFiltersLimit E > 0) \<and>
     MaxQos E \<le> 2"

text \<open>The assertions at the end of \<open>ExtConfig\<close>.\<close>

definition ExtConfig_asserts :: "('e) Config_scheme \<Rightarrow> bool" where
  "ExtConfig_asserts E \<longleftrightarrow>
     (HasDynMemAlloc E \<or> TimersLimit E > 0) \<and> (HasDynMemAlloc E \<or> ConnectOpsLimit E > 0) \<and>
     (HasDynMemAlloc E \<or> KeepAliveOpsLimit E > 0) \<and> (HasDynMemAlloc E \<or> RecvOpsLimit E > 0) \<and>
     (HasDynMemAlloc E \<or> SendOpsLimit E > 0) \<and> (HasDynMemAlloc E \<or> OpsLimit E > 0) \<and>
     (HasDynMemAlloc E \<or> PacketIdsLimit E > 0)"

text \<open>A build whose sums do not wrap around; \<open>InvalidIdx\<close> is not a timer slot either.\<close>

definition no_wrap :: "('e) Config_scheme \<Rightarrow> bool" where
  "no_wrap E \<longleftrightarrow> ReceiveMaxLimit E + SendMaxLimit E + SubscribeOpsLimit E + UnsubscribeOpsLimit E + 6 < 2 ^ 32 - 1"

lemma static_limits:
  assumes "Config_asserts E" "\<not> HasDynMemAlloc E" "no_wrap E"
  shows "ConnectOpsLimit E = 1" "KeepAliveOpsLimit E = 1" "DisconnectOpsLimit E = 1"
    "0 < SubscribeOpsLimit E" "0 < UnsubscribeOpsLimit E" "0 < RecvOpsLimit E" "0 < SendOpsLimit E"
    "TimersLimit E = ConnectOpsLimit E + 3 * KeepAliveOpsLimit E + SubscribeOpsLimit E + UnsubscribeOpsLimit E +
       RecvOpsLimit E + SendOpsLimit E"
    "OpsLimit E = ConnectOpsLimit E + KeepAliveOpsLimit E + DisconnectOpsLimit E + SubscribeOpsLimit E +
       UnsubscribeOpsLimit E + RecvOpsLimit E + SendOpsLimit E"
    "TimersLimit E < 2 ^ 32 - 1"
proof -
  have r: "RecvOpsLimit E = (if MaxQos E < 2 then 1 else ReceiveMaxLimit E + 1)" "SendOpsLimit E = SendMaxLimit E + 1"
    using assms by (auto simp: Config_asserts_def no_wrap_def RecvOpsLimit_def SendOpsLimit_def wrap32_def)
  show l: "ConnectOpsLimit E = 1" "KeepAliveOpsLimit E = 1" "DisconnectOpsLimit E = 1" "0 < SubscribeOpsLimit E"
    "0 < UnsubscribeOpsLimit E" "0 < RecvOpsLimit E" "0 < SendOpsLimit E"
    using assms(1,2) r by (auto simp: Config_asserts_def ConnectOpsLimit_def KeepAliveOpsLimit_def DisconnectOpsLimit_def)
  then have h: "HasOpsLimit E" by (simp add: HasOpsLimit_def)
  show "TimersLimit E = ConnectOpsLimit E + 3 * KeepAliveOpsLimit E + SubscribeOpsLimit E + UnsubscribeOpsLimit E +
      RecvOpsLimit E + SendOpsLimit E" "TimersLimit E < 2 ^ 32 - 1"
    "OpsLimit E = ConnectOpsLimit E + KeepAliveOpsLimit E + DisconnectOpsLimit E + SubscribeOpsLimit E +
       UnsubscribeOpsLimit E + RecvOpsLimit E + SendOpsLimit E"
    using assms(3) r h
    by (auto simp: no_wrap_def TimersLimit_def MaxTimersLimit_def OpsLimit_def MaxOpsLimit_def wrap32_def l)
qed

end
