(* ===== verification/Client_Types.thy ===== *)
theory Client_Types
  imports Packet_Ids Topic_Filters Timer_Mgr Ext_Config
begin

text \<open>
  The data of the client: the enumerations and structures of \<open>include/cc_mqtt311_client/common.h\<close>,
  the protocol messages as far as the client reads and writes their fields, the operation objects
  (\<open>op/*Op.h\<close>), the state structures (\<open>ClientState.h\<close>, \<open>ConfigState.h\<close>, \<open>SessionState.h\<close>,
  \<open>ReuseState.h\<close>) and \<open>ClientImpl\<close> itself.

  An operation object is a record in the list that owns it; its identity is a number that is never
  reused, so a pointer is the object's type and number, and following a pointer whose object is
  gone is visible. The callbacks of the application are events appended to \<open>out\<close>, in the order
  they are invoked; the model covers applications that do not call back into the client from a
  callback. Undefined behaviour of the source is recorded in \<open>fault\<close>.

  The message codec is not part of the repository (it is the cc.mqtt311.generated and COMMS
  libraries): its operations are the fields of \<open>env\<close> and every definition that needs them takes
  the \<open>env\<close> as an argument.
\<close>

section \<open>Enumerations of the interface\<close>

datatype ErrorCode =
    EC_Success | EC_InternalError | EC_NotIntitialized | EC_Busy | EC_NotConnected
  | EC_AlreadyConnected | EC_BadParam | EC_InsufficientConfig | EC_OutOfMemory | EC_BufferOverflow
  | EC_NotSupported | EC_RetryLater | EC_Disconnecting | EC_NetworkDisconnected | EC_PreparationLocked

datatype AsyncOpStatus =
    ST_Complete | ST_InternalError | ST_Timeout | ST_ProtocolError | ST_Aborted
  | ST_BrokerDisconnected | ST_OutOfMemory | ST_BadParam

datatype PublishOrdering = PO_SameQos | PO_Full | PO_ValuesLimit

datatype BrokerDisconnectReason = BDR_NoBrokerResponse | BDR_InternalError | BDR_ProtocolError

text \<open>\<open>CC_Mqtt311QoS\<close> and the QoS field of a message: the numeric value.\<close>

abbreviation (input) AtMostOnceDelivery :: nat where "AtMostOnceDelivery \<equiv> 0"
abbreviation (input) AtLeastOnceDelivery :: nat where "AtLeastOnceDelivery \<equiv> 1"
abbreviation (input) ExactlyOnceDelivery :: nat where "ExactlyOnceDelivery \<equiv> 2"

record ConnectConfig =
  cc_clientId :: "string option"
  cc_username :: "string option"
  cc_password :: "bytes option"
  cc_passwordLen :: nat
  cc_keepAlive :: nat
  cc_cleanSession :: bool

record ConnectWillConfig =
  wc_topic :: "string option"
  wc_data :: "bytes option"
  wc_dataLen :: nat
  wc_qos :: nat
  wc_retain :: bool

record ConnectResponse =
  cr_returnCode :: nat
  cr_sessionPresent :: bool

record SubscribeTopicConfig =
  stc_topic :: "string option"
  stc_maxQos :: nat

record UnsubscribeTopicConfig =
  utc_topic :: "string option"

record PublishConfig =
  pc_topic :: "string option"
  pc_data :: "bytes option"
  pc_dataLen :: nat
  pc_qos :: nat
  pc_retain :: bool

record MessageInfo =
  mi_topic :: string
  mi_data :: bytes
  mi_qos :: nat
  mi_retained :: bool

section \<open>Messages\<close>

record ConnectMsg =
  cm_clientId :: string
  cm_userNameFlag :: bool
  cm_userName :: string
  cm_passwordFlag :: bool
  cm_password :: bytes
  cm_cleanSession :: bool
  cm_willFlag :: bool
  cm_willQos :: nat
  cm_willRetain :: bool
  cm_willTopic :: string
  cm_willMessage :: bytes
  cm_keepAlive :: nat

record PublishMsg =
  pm_dup :: bool
  pm_qos :: nat
  pm_retain :: bool
  pm_topic :: string
  pm_hasPacketId :: bool
  pm_packetId :: u16
  pm_payload :: bytes

record SubscribeMsg =
  sm_packetId :: u16
  sm_list :: "(string \<times> nat) list"

record UnsubscribeMsg =
  um_packetId :: u16
  um_list :: "string list"

text \<open>
  For an incoming \<open>PUBREL\<close> the flag is the result of \<open>doValid()\<close>; for an incoming \<open>CONNACK\<close> the
  fields are the "session present" bit and the return code.
\<close>

datatype prot_msg =
    MConnect ConnectMsg
  | MConnack bool nat
  | MPublish PublishMsg
  | MPuback u16
  | MPubrec u16
  | MPubrel u16 bool
  | MPubcomp u16
  | MSubscribe SubscribeMsg
  | MSuback u16 "nat list"
  | MUnsubscribe UnsubscribeMsg
  | MUnsuback u16
  | MPingreq
  | MPingresp
  | MDisconnect

datatype read_status = RS_Success | RS_NotEnoughData | RS_Error

datatype frame_result = FR_NotEnoughData | FR_Error | FR_Msg prot_msg nat

section \<open>What the client takes from the message codec\<close>

text \<open>
  \<open>frame_length\<close>, \<open>frame_write\<close> and \<open>frame_read\<close> are \<open>ProtFrame::length\<close>, \<open>write\<close> and \<open>read\<close>
  (a message read with the number of consumed bytes), \<open>size_read\<close> is the status of reading the size
  field alone, \<open>idAndFlags_len\<close> the length of the field before it. \<open>publish_refresh\<close> and
  \<open>connect_refresh\<close> are \<open>doRefresh()\<close>. The \<open>*_init\<close> values are default-constructed messages, the
  \<open>*_limit\<close> values the capacities of their list fields (0: dynamic), \<open>KeepAlive_max\<close> is the
  largest value of the keep-alive field, and the remaining ones are the enumerators of the return
  code fields.
\<close>

record env = Config +
  frame_length :: "prot_msg \<Rightarrow> nat"
  frame_write :: "prot_msg \<Rightarrow> bytes option"
  frame_read :: "bytes \<Rightarrow> frame_result"
  size_read :: "bytes \<Rightarrow> read_status"
  idAndFlags_len :: nat
  publish_refresh :: "PublishMsg \<Rightarrow> PublishMsg"
  connect_refresh :: "ConnectMsg \<Rightarrow> ConnectMsg"
  ConnectMsg_init :: ConnectMsg
  PublishMsg_init :: PublishMsg
  SubscribeMsg_init :: SubscribeMsg
  UnsubscribeMsg_init :: UnsubscribeMsg
  subscribe_list_limit :: nat
  unsubscribe_list_limit :: nat
  suback_list_limit :: nat
  KeepAlive_max :: nat
  Connack_ValuesLimit :: nat
  Suback_Qos2 :: nat
  Suback_Failure :: nat

section \<open>Operations\<close>

type_synonym op_id = nat

datatype op_type =
    Type_Connect | Type_KeepAlive | Type_Disconnect | Type_Subscribe | Type_Unsubscribe
  | Type_Recv | Type_Send

text \<open>An \<open>Op*\<close>: the dynamic type and the identity of the object. \<open>m_ops\<close> holds \<open>None\<close> for null.\<close>

type_synonym op_ptr = "op_type \<times> op_id"

text \<open>The static timeout callbacks of the operations.\<close>

datatype timeout_cb =
    ConnectOp_opTimeoutCb | KeepAliveOp_sendPingCb | KeepAliveOp_recvTimeoutCb
  | KeepAliveOp_pingTimeoutCb | SubscribeOp_opTimeoutCb | UnsubscribeOp_opTimeoutCb
  | RecvOp_recvTimeoutCb | SendOp_recvTimeoutCb

type_synonym timers = "(timeout_cb, op_id) TimerMgr"

text \<open>An application callback with its data pointer is named by a number.\<close>

type_synonym app_cb = nat

record ConnectOp =
  con_id :: op_id
  con_responseTimeoutMs :: u32
  con_connectMsg :: ConnectMsg
  con_timer :: nat
  con_cb :: "app_cb option"

record KeepAliveOp =
  ka_id :: op_id
  ka_pingTimer :: nat
  ka_recvTimer :: nat
  ka_respTimer :: nat

record DisconnectOp =
  dis_id :: op_id

record SubscribeOp =
  sub_id :: op_id
  sub_responseTimeoutMs :: u32
  sub_subMsg :: SubscribeMsg
  sub_timer :: nat
  sub_cb :: "app_cb option"

record UnsubscribeOp =
  unsub_id :: op_id
  unsub_responseTimeoutMs :: u32
  unsub_unsubMsg :: UnsubscribeMsg
  unsub_timer :: nat
  unsub_cb :: "app_cb option"

record RecvOp =
  rcv_id :: op_id
  rcv_responseTimer :: nat
  rcv_packetId :: u16

record SendOp =
  snd_id :: op_id
  snd_responseTimeoutMs :: u32
  snd_responseTimer :: nat
  snd_pubMsg :: PublishMsg
  snd_cb :: "app_cb option"
  snd_totalSendAttempts :: u32
  snd_sendAttempts :: u32
  snd_published :: bool
  snd_acked :: bool
  snd_paused :: bool

section \<open>The client\<close>

record ConfigState =
  m_responseTimeoutMs :: u32
  m_publishOrdering :: PublishOrdering
  m_verifyOutgoingTopic :: bool
  m_verifyIncomingTopic :: bool
  m_verifySubFilter :: bool

record ClientState =
  m_packetIds :: packet_ids
  m_initialized :: bool
  m_firstConnect :: bool
  m_networkDisconnected :: bool

record SessionState =
  m_keepAliveMs :: u32
  m_connected :: bool
  m_disconnecting :: bool

record ReuseState =
  m_subFilters :: "string list"

definition SessionState_init :: SessionState where
  "SessionState_init = \<lparr>m_keepAliveMs = 0, m_connected = False, m_disconnecting = False\<rparr>"

definition ReuseState_init :: ReuseState where
  "ReuseState_init = \<lparr>m_subFilters = []\<rparr>"

definition ClientState_init :: ClientState where
  "ClientState_init = \<lparr>m_packetIds = packet_ids_init, m_initialized = False, m_firstConnect = True,
     m_networkDisconnected = False\<rparr>"

definition ConfigState_init :: "env \<Rightarrow> ConfigState" where
  "ConfigState_init E = \<lparr>m_responseTimeoutMs = 2000, m_publishOrdering = PO_SameQos,
     m_verifyOutgoingTopic = HasTopicFormatVerification E,
     m_verifyIncomingTopic = HasTopicFormatVerification E,
     m_verifySubFilter = HasSubTopicVerification E\<rparr>"

text \<open>The invocations of application callbacks.\<close>

datatype event =
    EvSendOutputData bytes
  | EvErrorLog
  | EvNextTickProgram u32
  | EvCancelNextTickWait
  | EvBrokerDisconnectReport BrokerDisconnectReason
  | EvMessageReceivedReport MessageInfo
  | EvConnectComplete app_cb op_id AsyncOpStatus "ConnectResponse option"
  | EvSubscribeComplete app_cb op_id AsyncOpStatus "nat list option"
  | EvUnsubscribeComplete app_cb op_id AsyncOpStatus
  | EvPublishComplete app_cb op_id AsyncOpStatus

text \<open>
  Undefined behaviour: a null operation pointer is followed, a pointer to a destroyed operation is
  followed, a vector is changed under a running range-based loop, an element is appended to a full
  vector of fixed capacity. \<open>OutOfFuel\<close> is the model's own: a bounded loop ran out of steps.
\<close>

datatype fault =
    NullPointer | DanglingPointer op_ptr | IteratorInvalidated | CapacityExceeded | OutOfFuel

record client =
  has_nextTickProgramCb :: bool
  has_cancelNextTickWaitCb :: bool
  has_sendOutputDataCb :: bool
  has_brokerDisconnectReportCb :: bool
  has_messageReceivedReportCb :: bool
  has_errorLogCb :: bool
  configState :: ConfigState
  clientState :: ClientState
  sessionState :: SessionState
  reuseState :: ReuseState
  timerMgr :: timers
  m_apiEnterCount :: u32
  m_connectOps :: "ConnectOp list"
  m_keepAliveOps :: "KeepAliveOp list"
  m_disconnectOps :: "DisconnectOp list"
  m_subscribeOps :: "SubscribeOp list"
  m_unsubscribeOps :: "UnsubscribeOp list"
  m_recvOps :: "RecvOp list"
  m_sendOps :: "SendOp list"
  m_ops :: "op_ptr option list"
  m_opsDeleted :: bool
  m_preparationLocked :: bool
  next_id :: op_id
  out :: "event list"
  fault :: "fault option"

definition ClientImpl_init :: "env \<Rightarrow> client" where
  "ClientImpl_init E = \<lparr>has_nextTickProgramCb = False, has_cancelNextTickWaitCb = False,
     has_sendOutputDataCb = False, has_brokerDisconnectReportCb = False,
     has_messageReceivedReportCb = False, has_errorLogCb = False,
     configState = ConfigState_init E, clientState = ClientState_init,
     sessionState = SessionState_init, reuseState = ReuseState_init,
     timerMgr = TimerMgr_init, m_apiEnterCount = 0, m_connectOps = [], m_keepAliveOps = [],
     m_disconnectOps = [], m_subscribeOps = [], m_unsubscribeOps = [], m_recvOps = [],
     m_sendOps = [], m_ops = [], m_opsDeleted = False, m_preparationLocked = False, next_id = 0,
     out = [], fault = None\<rparr>"

end
