(* ===== verification/Client_Core.thy ===== *)
theory Client_Core
  imports Client_Types
begin

text \<open>
  The part of \<open>ClientImpl\<close> every operation uses (\<open>ClientImpl.cpp\<close>: logging, \<open>sendMessage\<close>,
  \<open>opComplete\<close> with its type-specific parts, \<open>resumeSendOpsSince\<close>, the ordering queries) and the
  life of an outgoing publish (\<open>op/SendOp.cpp\<close>), which it is mutually recursive with: completing a
  publish resumes the postponed ones, and resuming one can complete it at once.

  \<open>COMMS_ASSERT\<close> does nothing in a release build, and the model follows the release build.
\<close>

section \<open>Access to the operation objects\<close>

definition emit :: "event \<Rightarrow> client \<Rightarrow> client" where
  "emit e st = st\<lparr>out := out st @ [e]\<rparr>"

text \<open>The first fault is kept: what follows undefined behaviour has no meaning.\<close>

definition set_fault :: "fault \<Rightarrow> client \<Rightarrow> client" where
  "set_fault f st = (if fault st = None then st\<lparr>fault := Some f\<rparr> else st)"

definition errorLog :: "env \<Rightarrow> client \<Rightarrow> client" where
  "errorLog E st = (if HasErrorLog E \<and> has_errorLogCb st then emit EvErrorLog st else st)"

definition on_timers :: "(timers \<Rightarrow> timers) \<Rightarrow> client \<Rightarrow> client" where
  "on_timers f st = st\<lparr>timerMgr := f (timerMgr st)\<rparr>"

definition find_by :: "('a \<Rightarrow> op_id) \<Rightarrow> op_id \<Rightarrow> 'a list \<Rightarrow> 'a option" where
  "find_by key i xs = List.find (\<lambda>x. key x = i) xs"

definition upd_by :: "('a \<Rightarrow> op_id) \<Rightarrow> op_id \<Rightarrow> ('a \<Rightarrow> 'a) \<Rightarrow> 'a list \<Rightarrow> 'a list" where
  "upd_by key i f xs = map (\<lambda>x. if key x = i then f x else x) xs"

text \<open>\<open>eraseFromList\<close>: the index of the erased operation, the erased one and the rest.\<close>

definition eraseFromList :: "('a \<Rightarrow> op_id) \<Rightarrow> op_id \<Rightarrow> 'a list \<Rightarrow> nat \<times> 'a list" where
  "eraseFromList key i xs =
     (let idx = find_index (\<lambda>x. key x = i) xs
      in (idx, if idx < length xs then erase_at idx xs else xs))"

definition upd_send :: "op_id \<Rightarrow> (SendOp \<Rightarrow> SendOp) \<Rightarrow> client \<Rightarrow> client" where
  "upd_send i f st = st\<lparr>m_sendOps := upd_by snd_id i f (m_sendOps st)\<rparr>"

text \<open>
  Following a pointer to an operation of the list \<open>xs\<close>, for a member function that returns
  nothing and for one that returns a value (\<open>r\<close> stands for the value after the fault).
\<close>

definition follow ::
  "op_type \<Rightarrow> ('a \<Rightarrow> op_id) \<Rightarrow> 'a list \<Rightarrow> op_id \<Rightarrow> ('a \<Rightarrow> client \<Rightarrow> client) \<Rightarrow> client \<Rightarrow> client"
where
  "follow t key xs i f st =
     (case find_by key i xs of
        None \<Rightarrow> set_fault (DanglingPointer (t, i)) st
      | Some op \<Rightarrow> f op st)"

definition follow_ret ::
  "op_type \<Rightarrow> ('a \<Rightarrow> op_id) \<Rightarrow> 'a list \<Rightarrow> op_id \<Rightarrow> 'r \<Rightarrow> ('a \<Rightarrow> client \<Rightarrow> 'r \<times> client) \<Rightarrow>
     client \<Rightarrow> 'r \<times> client"
where
  "follow_ret t key xs i r f st =
     (case find_by key i xs of
        None \<Rightarrow> (r, set_fault (DanglingPointer (t, i)) st)
      | Some op \<Rightarrow> f op st)"

definition on_send :: "op_id \<Rightarrow> (SendOp \<Rightarrow> client \<Rightarrow> client) \<Rightarrow> client \<Rightarrow> client" where
  "on_send i f st = follow Type_Send snd_id (m_sendOps st) i f st"

definition on_send_ret ::
  "op_id \<Rightarrow> 'r \<Rightarrow> (SendOp \<Rightarrow> client \<Rightarrow> 'r \<times> client) \<Rightarrow> client \<Rightarrow> 'r \<times> client" where
  "on_send_ret i r f st = follow_ret Type_Send snd_id (m_sendOps st) i r f st"

section \<open>Sending\<close>

definition KeepAliveOp_restartPingTimer :: "KeepAliveOp \<Rightarrow> client \<Rightarrow> client" where
  "KeepAliveOp_restartPingTimer op st =
     (if m_keepAliveMs (sessionState st) = 0 then st
      else on_timers (timerWait (ka_pingTimer op) (ucast (m_keepAliveMs (sessionState st)))
             KeepAliveOp_sendPingCb (ka_id op)) st)"

definition KeepAliveOp_messageSent :: "KeepAliveOp \<Rightarrow> client \<Rightarrow> client" where
  "KeepAliveOp_messageSent op st = KeepAliveOp_restartPingTimer op st"

definition sendMessage :: "env \<Rightarrow> prot_msg \<Rightarrow> client \<Rightarrow> ErrorCode \<times> client" where
  "sendMessage E msg st =
     (let len = frame_length E msg in
      if MaxOutputPacketSize E \<noteq> 0 \<and> MaxOutputPacketSize E < len
        then (EC_BufferOverflow, errorLog E st)
      else case frame_write E msg of
        None \<Rightarrow> (EC_InternalError, errorLog E st)
      | Some buf \<Rightarrow>
          if \<not> has_sendOutputDataCb st then (EC_Success, set_fault NullPointer st)
          else let st1 = emit (EvSendOutputData buf) st
               in (EC_Success, fold KeepAliveOp_messageSent (m_keepAliveOps st1) st1))"

section \<open>Packet identifiers of the client\<close>

definition client_releasePacketId :: "u16 \<Rightarrow> client \<Rightarrow> client" where
  "client_releasePacketId pid st =
     st\<lparr>clientState := (clientState st)
          \<lparr>m_packetIds := releasePacketId pid (m_packetIds (clientState st))\<rparr>\<rparr>"

text \<open>A search that does not end is a fault; the pool's own lemmas show that there is none.\<close>

definition client_allocPacketId :: "env \<Rightarrow> client \<Rightarrow> u16 \<times> client" where
  "client_allocPacketId E st =
     (let p = m_packetIds (clientState st) in
      case allocPacketId (PacketIdsLimit E) p of
        None \<Rightarrow> (0, set_fault OutOfFuel st)
      | Some (pid, p') \<Rightarrow>
          (pid, (if pids_full (PacketIdsLimit E) p then errorLog E else id)
                  (st\<lparr>clientState := (clientState st)\<lparr>m_packetIds := p'\<rparr>\<rparr>)))"

section \<open>Completion of an operation\<close>

text \<open>
  Erasing the owning pointer destroys the operation: its destructor releases the packet identifier
  and the timers.
\<close>

definition opComplete_Connect :: "op_id \<Rightarrow> client \<Rightarrow> client" where
  "opComplete_Connect i st =
     (case find_by con_id i (m_connectOps st) of None \<Rightarrow> st
      | Some op \<Rightarrow> on_timers (Timer_destroy (con_timer op))
          (st\<lparr>m_connectOps := snd (eraseFromList con_id i (m_connectOps st))\<rparr>))"

definition opComplete_KeepAlive :: "op_id \<Rightarrow> client \<Rightarrow> client" where
  "opComplete_KeepAlive i st =
     (case find_by ka_id i (m_keepAliveOps st) of None \<Rightarrow> st
      | Some op \<Rightarrow> on_timers (Timer_destroy (ka_pingTimer op) \<circ> Timer_destroy (ka_recvTimer op) \<circ>
            Timer_destroy (ka_respTimer op))
          (st\<lparr>m_keepAliveOps := snd (eraseFromList ka_id i (m_keepAliveOps st))\<rparr>))"

definition opComplete_Disconnect :: "op_id \<Rightarrow> client \<Rightarrow> client" where
  "opComplete_Disconnect i st =
     st\<lparr>m_disconnectOps := snd (eraseFromList dis_id i (m_disconnectOps st))\<rparr>"

definition opComplete_Subscribe :: "op_id \<Rightarrow> client \<Rightarrow> client" where
  "opComplete_Subscribe i st =
     (case find_by sub_id i (m_subscribeOps st) of None \<Rightarrow> st
      | Some op \<Rightarrow> on_timers (Timer_destroy (sub_timer op))
          (client_releasePacketId (sm_packetId (sub_subMsg op))
            (st\<lparr>m_subscribeOps := snd (eraseFromList sub_id i (m_subscribeOps st))\<rparr>)))"

definition opComplete_Unsubscribe :: "op_id \<Rightarrow> client \<Rightarrow> client" where
  "opComplete_Unsubscribe i st =
     (case find_by unsub_id i (m_unsubscribeOps st) of None \<Rightarrow> st
      | Some op \<Rightarrow> on_timers (Timer_destroy (unsub_timer op))
          (client_releasePacketId (um_packetId (unsub_unsubMsg op))
            (st\<lparr>m_unsubscribeOps := snd (eraseFromList unsub_id i (m_unsubscribeOps st))\<rparr>)))"

definition opComplete_Recv :: "op_id \<Rightarrow> client \<Rightarrow> client" where
  "opComplete_Recv i st =
     (case find_by rcv_id i (m_recvOps st) of None \<Rightarrow> st
      | Some op \<Rightarrow> on_timers (Timer_destroy (rcv_responseTimer op))
          (st\<lparr>m_recvOps := snd (eraseFromList rcv_id i (m_recvOps st))\<rparr>))"

text \<open>The destruction of a publish operation, and then the resumption from its place on.\<close>

definition erase_Send :: "op_id \<Rightarrow> client \<Rightarrow> client" where
  "erase_Send i st =
     (case find_by snd_id i (m_sendOps st) of None \<Rightarrow> st
      | Some op \<Rightarrow> on_timers (Timer_destroy (snd_responseTimer op))
          (client_releasePacketId (pm_packetId (snd_pubMsg op))
            (st\<lparr>m_sendOps := snd (eraseFromList snd_id i (m_sendOps st))\<rparr>)))"

definition opComplete_Send :: "(nat \<Rightarrow> client \<Rightarrow> client) \<Rightarrow> op_id \<Rightarrow> client \<Rightarrow> client" where
  "opComplete_Send resume_since i st =
     (let idx = fst (eraseFromList snd_id i (m_sendOps st));
          st1 = erase_Send i st
      in if m_disconnecting (sessionState st1) then st1 else resume_since idx st1)"

definition forget_op :: "nat \<Rightarrow> client \<Rightarrow> client" where
  "forget_op idx st = st\<lparr>m_ops := (m_ops st)[idx := None], m_opsDeleted := True\<rparr>"

text \<open>
  \<open>ClientImpl::opComplete\<close>. The function that resumes postponed publishes is a parameter, since
  the resumption calls back into completion.
\<close>

definition opComplete_with :: "(nat \<Rightarrow> client \<Rightarrow> client) \<Rightarrow> op_ptr \<Rightarrow> client \<Rightarrow> client" where
  "opComplete_with resume_since ptr st =
     (let idx = find_index (\<lambda>p. p = Some ptr) (m_ops st) in
      if length (m_ops st) \<le> idx then st
      else let st1 = forget_op idx st in
        case fst ptr of
          Type_Connect \<Rightarrow> opComplete_Connect (snd ptr) st1
        | Type_KeepAlive \<Rightarrow> opComplete_KeepAlive (snd ptr) st1
        | Type_Disconnect \<Rightarrow> opComplete_Disconnect (snd ptr) st1
        | Type_Subscribe \<Rightarrow> opComplete_Subscribe (snd ptr) st1
        | Type_Unsubscribe \<Rightarrow> opComplete_Unsubscribe (snd ptr) st1
        | Type_Recv \<Rightarrow> opComplete_Recv (snd ptr) st1
        | Type_Send \<Rightarrow> opComplete_Send resume_since (snd ptr) st1)"

section \<open>Publish ordering\<close>

definition hasPausedSendsBefore :: "op_id \<Rightarrow> client \<Rightarrow> bool" where
  "hasPausedSendsBefore i st =
     (let ops = m_sendOps st;
          r = find_index (\<lambda>op. snd_id op = i) (rev ops)
      in if length ops \<le> r then False
         else let idx = length ops - 1 - r
              in if idx = 0 then False else snd_paused (ops ! (idx - 1)))"

fun hasHigherQos_loop :: "op_id \<Rightarrow> nat \<Rightarrow> SendOp list \<Rightarrow> bool" where
  "hasHigherQos_loop i qos [] = False"
| "hasHigherQos_loop i qos (op # ops) =
     (if snd_id op = i then False
      else if qos < pm_qos (snd_pubMsg op) then True
      else hasHigherQos_loop i qos ops)"

definition hasHigherQosSendsBefore :: "op_id \<Rightarrow> nat \<Rightarrow> client \<Rightarrow> bool" where
  "hasHigherQosSendsBefore i qos st = hasHigherQos_loop i qos (m_sendOps st)"

definition SendOp_canSend :: "SendOp \<Rightarrow> client \<Rightarrow> bool" where
  "SendOp_canSend op st =
     (if m_publishOrdering (configState st) = PO_SameQos then True
      else \<not> (hasPausedSendsBefore (snd_id op) st \<or>
              hasHigherQosSendsBefore (snd_id op) (pm_qos (snd_pubMsg op)) st))"

section \<open>Publishing, completion and resumption\<close>

definition SendOp_restartResponseTimer :: "SendOp \<Rightarrow> client \<Rightarrow> client" where
  "SendOp_restartResponseTimer op st =
     on_timers (timerWait (snd_responseTimer op) (ucast (m_responseTimeoutMs (configState st)))
       SendOp_recvTimeoutCb (snd_id op)) st"

definition SendOp_completeWithCb_with ::
  "(nat \<Rightarrow> client \<Rightarrow> client) \<Rightarrow> op_id \<Rightarrow> AsyncOpStatus \<Rightarrow> client \<Rightarrow> client" where
  "SendOp_completeWithCb_with resume_since i status =
     on_send i (\<lambda>op st.
       let st1 = opComplete_with resume_since (Type_Send, i) st in
       case snd_cb op of None \<Rightarrow> st1 | Some cb \<Rightarrow> emit (EvPublishComplete cb i status) st1)"

definition SendOp_doSendInternal_with ::
  "(nat \<Rightarrow> client \<Rightarrow> client) \<Rightarrow> env \<Rightarrow> op_id \<Rightarrow> client \<Rightarrow> ErrorCode \<times> client" where
  "SendOp_doSendInternal_with resume_since E i =
     on_send_ret i EC_InternalError (\<lambda>op st.
       let st1 = upd_send i (\<lambda>op. op\<lparr>snd_sendAttempts := 0\<rparr>) st;
           (result, st2) = sendMessage E (MPublish (snd_pubMsg op)) st1
       in if result \<noteq> EC_Success then (result, st2)
          else
            let st3 = upd_send i (\<lambda>op. op\<lparr>snd_published := True,
                                           snd_sendAttempts := snd_sendAttempts op + 1\<rparr>) st2
            in if pm_qos (snd_pubMsg op) = AtMostOnceDelivery
               then (EC_Success, SendOp_completeWithCb_with resume_since i ST_Complete st3)
               else (EC_Success, SendOp_restartResponseTimer op st3))"

definition SendOp_resume_with ::
  "(nat \<Rightarrow> client \<Rightarrow> client) \<Rightarrow> env \<Rightarrow> op_id \<Rightarrow> client \<Rightarrow> bool \<times> client" where
  "SendOp_resume_with resume_since E i =
     on_send_ret i False (\<lambda>op st.
       if \<not> snd_paused op then (False, st)
       else if \<not> SendOp_canSend op st then (False, st)
       else
         let st1 = upd_send i (\<lambda>op. op\<lparr>snd_paused := False\<rparr>) st;
             (ec, st2) = SendOp_doSendInternal_with resume_since E i st1
         in if ec = EC_Success then (True, st2)
            else
              let cbStatus = (if ec = EC_BadParam then ST_BadParam
                              else if ec = EC_BufferOverflow then ST_OutOfMemory
                              else ST_InternalError)
              in (True, SendOp_completeWithCb_with resume_since i cbStatus st2))"

text \<open>
  \<open>ClientImpl::resumeSendOpsSince\<close>. The first argument bounds the depth of the recursion;
  \<open>send_fuel\<close> below is enough of it for every state.
\<close>

fun resumeSendOpsSince_fuel :: "nat \<Rightarrow> env \<Rightarrow> nat \<Rightarrow> client \<Rightarrow> client" where
  "resumeSendOpsSince_fuel 0 E idx st = set_fault OutOfFuel st"
| "resumeSendOpsSince_fuel (Suc n) E idx st =
     (if idx < length (m_sendOps st) then
        let op = m_sendOps st ! idx in
        if \<not> snd_paused op then resumeSendOpsSince_fuel n E (idx + 1) st
        else
          let (resumed, st1) = SendOp_resume_with (resumeSendOpsSince_fuel n E) E (snd_id op) st
          in if \<not> resumed then st1 else resumeSendOpsSince_fuel n E idx st1
      else st)"

definition send_fuel :: "client \<Rightarrow> nat" where
  "send_fuel st = 2 * length (m_sendOps st) + 2"

definition resumeSendOpsSince :: "env \<Rightarrow> nat \<Rightarrow> client \<Rightarrow> client" where
  "resumeSendOpsSince E idx st = resumeSendOpsSince_fuel (send_fuel st) E idx st"

definition opComplete :: "env \<Rightarrow> op_ptr \<Rightarrow> client \<Rightarrow> client" where
  "opComplete E ptr st = opComplete_with (resumeSendOpsSince E) ptr st"

definition SendOp_completeWithCb :: "env \<Rightarrow> op_id \<Rightarrow> AsyncOpStatus \<Rightarrow> client \<Rightarrow> client" where
  "SendOp_completeWithCb E = SendOp_completeWithCb_with (resumeSendOpsSince E)"

definition SendOp_doSendInternal :: "env \<Rightarrow> op_id \<Rightarrow> client \<Rightarrow> ErrorCode \<times> client" where
  "SendOp_doSendInternal E = SendOp_doSendInternal_with (resumeSendOpsSince E) E"

definition SendOp_resume :: "env \<Rightarrow> op_id \<Rightarrow> client \<Rightarrow> bool \<times> client" where
  "SendOp_resume E = SendOp_resume_with (resumeSendOpsSince E) E"

section \<open>What the basic steps leave alone\<close>

lemma emit_frame [simp]:
  "has_nextTickProgramCb (emit e st) = has_nextTickProgramCb st"
  "has_cancelNextTickWaitCb (emit e st) = has_cancelNextTickWaitCb st"
  "has_sendOutputDataCb (emit e st) = has_sendOutputDataCb st"
  "has_brokerDisconnectReportCb (emit e st) = has_brokerDisconnectReportCb st"
  "has_messageReceivedReportCb (emit e st) = has_messageReceivedReportCb st"
  "has_errorLogCb (emit e st) = has_errorLogCb st" "configState (emit e st) = configState st"
  "clientState (emit e st) = clientState st" "sessionState (emit e st) = sessionState st"
  "reuseState (emit e st) = reuseState st" "timerMgr (emit e st) = timerMgr st"
  "m_apiEnterCount (emit e st) = m_apiEnterCount st" "m_connectOps (emit e st) = m_connectOps st"
  "m_keepAliveOps (emit e st) = m_keepAliveOps st"
  "m_disconnectOps (emit e st) = m_disconnectOps st"
  "m_subscribeOps (emit e st) = m_subscribeOps st"
  "m_unsubscribeOps (emit e st) = m_unsubscribeOps st" "m_recvOps (emit e st) = m_recvOps st"
  "m_sendOps (emit e st) = m_sendOps st" "m_ops (emit e st) = m_ops st"
  "m_opsDeleted (emit e st) = m_opsDeleted st"
  "m_preparationLocked (emit e st) = m_preparationLocked st" "next_id (emit e st) = next_id st"
  "fault (emit e st) = fault st"
  by (simp_all add: emit_def)

lemma set_fault_frame [simp]:
  "has_nextTickProgramCb (set_fault f st) = has_nextTickProgramCb st"
  "has_cancelNextTickWaitCb (set_fault f st) = has_cancelNextTickWaitCb st"
  "has_sendOutputDataCb (set_fault f st) = has_sendOutputDataCb st"
  "has_brokerDisconnectReportCb (set_fault f st) = has_brokerDisconnectReportCb st"
  "has_messageReceivedReportCb (set_fault f st) = has_messageReceivedReportCb st"
  "has_errorLogCb (set_fault f st) = has_errorLogCb st"
  "configState (set_fault f st) = configState st" "clientState (set_fault f st) = clientState st"
  "sessionState (set_fault f st) = sessionState st" "reuseState (set_fault f st) = reuseState st"
  "timerMgr (set_fault f st) = timerMgr st"
  "m_apiEnterCount (set_fault f st) = m_apiEnterCount st"
  "m_connectOps (set_fault f st) = m_connectOps st"
  "m_keepAliveOps (set_fault f st) = m_keepAliveOps st"
  "m_disconnectOps (set_fault f st) = m_disconnectOps st"
  "m_subscribeOps (set_fault f st) = m_subscribeOps st"
  "m_unsubscribeOps (set_fault f st) = m_unsubscribeOps st"
  "m_recvOps (set_fault f st) = m_recvOps st" "m_sendOps (set_fault f st) = m_sendOps st"
  "m_ops (set_fault f st) = m_ops st" "m_opsDeleted (set_fault f st) = m_opsDeleted st"
  "m_preparationLocked (set_fault f st) = m_preparationLocked st"
  "next_id (set_fault f st) = next_id st" "out (set_fault f st) = out st"
  by (simp_all add: set_fault_def)

lemma errorLog_frame [simp]:
  "has_nextTickProgramCb (errorLog E st) = has_nextTickProgramCb st"
  "has_cancelNextTickWaitCb (errorLog E st) = has_cancelNextTickWaitCb st"
  "has_sendOutputDataCb (errorLog E st) = has_sendOutputDataCb st"
  "has_brokerDisconnectReportCb (errorLog E st) = has_brokerDisconnectReportCb st"
  "has_messageReceivedReportCb (errorLog E st) = has_messageReceivedReportCb st"
  "has_errorLogCb (errorLog E st) = has_errorLogCb st"
  "configState (errorLog E st) = configState st" "clientState (errorLog E st) = clientState st"
  "sessionState (errorLog E st) = sessionState st" "reuseState (errorLog E st) = reuseState st"
  "timerMgr (errorLog E st) = timerMgr st" "m_apiEnterCount (errorLog E st) = m_apiEnterCount st"
  "m_connectOps (errorLog E st) = m_connectOps st"
  "m_keepAliveOps (errorLog E st) = m_keepAliveOps st"
  "m_disconnectOps (errorLog E st) = m_disconnectOps st"
  "m_subscribeOps (errorLog E st) = m_subscribeOps st"
  "m_unsubscribeOps (errorLog E st) = m_unsubscribeOps st"
  "m_recvOps (errorLog E st) = m_recvOps st" "m_sendOps (errorLog E st) = m_sendOps st"
  "m_ops (errorLog E st) = m_ops st" "m_opsDeleted (errorLog E st) = m_opsDeleted st"
  "m_preparationLocked (errorLog E st) = m_preparationLocked st"
  "next_id (errorLog E st) = next_id st" "fault (errorLog E st) = fault st"
  by (simp_all add: errorLog_def)

lemma on_timers_frame [simp]:
  "has_nextTickProgramCb (on_timers f st) = has_nextTickProgramCb st"
  "has_cancelNextTickWaitCb (on_timers f st) = has_cancelNextTickWaitCb st"
  "has_sendOutputDataCb (on_timers f st) = has_sendOutputDataCb st"
  "has_brokerDisconnectReportCb (on_timers f st) = has_brokerDisconnectReportCb st"
  "has_messageReceivedReportCb (on_timers f st) = has_messageReceivedReportCb st"
  "has_errorLogCb (on_timers f st) = has_errorLogCb st"
  "configState (on_timers f st) = configState st" "clientState (on_timers f st) = clientState st"
  "sessionState (on_timers f st) = sessionState st" "reuseState (on_timers f st) = reuseState st"
  "m_apiEnterCount (on_timers f st) = m_apiEnterCount st"
  "m_connectOps (on_timers f st) = m_connectOps st"
  "m_keepAliveOps (on_timers f st) = m_keepAliveOps st"
  "m_disconnectOps (on_timers f st) = m_disconnectOps st"
  "m_subscribeOps (on_timers f st) = m_subscribeOps st"
  "m_unsubscribeOps (on_timers f st) = m_unsubscribeOps st"
  "m_recvOps (on_timers f st) = m_recvOps st" "m_sendOps (on_timers f st) = m_sendOps st"
  "m_ops (on_timers f st) = m_ops st" "m_opsDeleted (on_timers f st) = m_opsDeleted st"
  "m_preparationLocked (on_timers f st) = m_preparationLocked st"
  "next_id (on_timers f st) = next_id st" "out (on_timers f st) = out st"
  "fault (on_timers f st) = fault st"
  by (simp_all add: on_timers_def)

lemma timerMgr_on_timers [simp]: "timerMgr (on_timers f st) = f (timerMgr st)"
  by (simp add: on_timers_def)

lemma restartPingTimer_frame [simp]:
  "has_nextTickProgramCb (KeepAliveOp_restartPingTimer op st) = has_nextTickProgramCb st"
  "has_cancelNextTickWaitCb (KeepAliveOp_restartPingTimer op st) = has_cancelNextTickWaitCb st"
  "has_sendOutputDataCb (KeepAliveOp_restartPingTimer op st) = has_sendOutputDataCb st"
  "has_brokerDisconnectReportCb (KeepAliveOp_restartPingTimer op st) = has_brokerDisconnectReportCb st"
  "has_messageReceivedReportCb (KeepAliveOp_restartPingTimer op st) = has_messageReceivedReportCb st"
  "has_errorLogCb (KeepAliveOp_restartPingTimer op st) = has_errorLogCb st"
  "configState (KeepAliveOp_restartPingTimer op st) = configState st"
  "clientState (KeepAliveOp_restartPingTimer op st) = clientState st"
  "sessionState (KeepAliveOp_restartPingTimer op st) = sessionState st"
  "reuseState (KeepAliveOp_restartPingTimer op st) = reuseState st"
  "m_apiEnterCount (KeepAliveOp_restartPingTimer op st) = m_apiEnterCount st"
  "m_connectOps (KeepAliveOp_restartPingTimer op st) = m_connectOps st"
  "m_keepAliveOps (KeepAliveOp_restartPingTimer op st) = m_keepAliveOps st"
  "m_disconnectOps (KeepAliveOp_restartPingTimer op st) = m_disconnectOps st"
  "m_subscribeOps (KeepAliveOp_restartPingTimer op st) = m_subscribeOps st"
  "m_unsubscribeOps (KeepAliveOp_restartPingTimer op st) = m_unsubscribeOps st"
  "m_recvOps (KeepAliveOp_restartPingTimer op st) = m_recvOps st"
  "m_sendOps (KeepAliveOp_restartPingTimer op st) = m_sendOps st"
  "m_ops (KeepAliveOp_restartPingTimer op st) = m_ops st"
  "m_opsDeleted (KeepAliveOp_restartPingTimer op st) = m_opsDeleted st"
  "m_preparationLocked (KeepAliveOp_restartPingTimer op st) = m_preparationLocked st"
  "next_id (KeepAliveOp_restartPingTimer op st) = next_id st"
  "out (KeepAliveOp_restartPingTimer op st) = out st"
  "fault (KeepAliveOp_restartPingTimer op st) = fault st"
  by (simp_all add: KeepAliveOp_restartPingTimer_def)

text \<open>The client without its timers, its output and its fault: what sending a message leaves alone.\<close>

definition core :: "client \<Rightarrow> client" where
  "core st = st\<lparr>timerMgr := TimerMgr_init, out := [], fault := None\<rparr>"

lemma core_eqD:
  assumes "core a = core b"
  shows "has_nextTickProgramCb a = has_nextTickProgramCb b"
    "has_cancelNextTickWaitCb a = has_cancelNextTickWaitCb b"
    "has_sendOutputDataCb a = has_sendOutputDataCb b"
    "has_brokerDisconnectReportCb a = has_brokerDisconnectReportCb b"
    "has_messageReceivedReportCb a = has_messageReceivedReportCb b"
    "has_errorLogCb a = has_errorLogCb b" "configState a = configState b"
    "clientState a = clientState b" "sessionState a = sessionState b"
    "reuseState a = reuseState b" "m_apiEnterCount a = m_apiEnterCount b"
    "m_connectOps a = m_connectOps b" "m_keepAliveOps a = m_keepAliveOps b"
    "m_disconnectOps a = m_disconnectOps b" "m_subscribeOps a = m_subscribeOps b"
    "m_unsubscribeOps a = m_unsubscribeOps b" "m_recvOps a = m_recvOps b"
    "m_sendOps a = m_sendOps b" "m_ops a = m_ops b" "m_opsDeleted a = m_opsDeleted b"
    "m_preparationLocked a = m_preparationLocked b" "next_id a = next_id b"
  using assms by (cases a; cases b; simp add: core_def)+

lemma core_steps [simp]:
  "core (emit e st) = core st" "core (set_fault f st) = core st" "core (errorLog E st) = core st"
  "core (on_timers g st) = core st" "core (KeepAliveOp_restartPingTimer op st) = core st"
  by (simp_all add: core_def emit_def set_fault_def errorLog_def on_timers_def
      KeepAliveOp_restartPingTimer_def)

lemma core_messageSent_loop [simp]: "core (fold KeepAliveOp_messageSent kas st) = core st"
  by (induction kas arbitrary: st) (simp_all add: KeepAliveOp_messageSent_def)

lemma core_sendMessage [simp]: "core (snd (sendMessage E msg st)) = core st"
  by (simp add: sendMessage_def Let_def split: option.split)

lemma sendMessage_simps [simp]:
  "has_nextTickProgramCb (snd (sendMessage E msg st)) = has_nextTickProgramCb st"
  "has_cancelNextTickWaitCb (snd (sendMessage E msg st)) = has_cancelNextTickWaitCb st"
  "has_sendOutputDataCb (snd (sendMessage E msg st)) = has_sendOutputDataCb st"
  "has_brokerDisconnectReportCb (snd (sendMessage E msg st)) = has_brokerDisconnectReportCb st"
  "has_messageReceivedReportCb (snd (sendMessage E msg st)) = has_messageReceivedReportCb st"
  "has_errorLogCb (snd (sendMessage E msg st)) = has_errorLogCb st"
  "configState (snd (sendMessage E msg st)) = configState st"
  "clientState (snd (sendMessage E msg st)) = clientState st"
  "sessionState (snd (sendMessage E msg st)) = sessionState st"
  "reuseState (snd (sendMessage E msg st)) = reuseState st"
  "m_apiEnterCount (snd (sendMessage E msg st)) = m_apiEnterCount st"
  "m_connectOps (snd (sendMessage E msg st)) = m_connectOps st"
  "m_keepAliveOps (snd (sendMessage E msg st)) = m_keepAliveOps st"
  "m_disconnectOps (snd (sendMessage E msg st)) = m_disconnectOps st"
  "m_subscribeOps (snd (sendMessage E msg st)) = m_subscribeOps st"
  "m_unsubscribeOps (snd (sendMessage E msg st)) = m_unsubscribeOps st"
  "m_recvOps (snd (sendMessage E msg st)) = m_recvOps st"
  "m_sendOps (snd (sendMessage E msg st)) = m_sendOps st"
  "m_ops (snd (sendMessage E msg st)) = m_ops st"
  "m_opsDeleted (snd (sendMessage E msg st)) = m_opsDeleted st"
  "m_preparationLocked (snd (sendMessage E msg st)) = m_preparationLocked st"
  "next_id (snd (sendMessage E msg st)) = next_id st"
  by (rule core_eqD [OF core_sendMessage])+

section \<open>Lists of operations\<close>

lemma find_by_SomeD: "find_by key i xs = Some x \<Longrightarrow> x \<in> set xs \<and> key x = i"
  by (auto simp: find_by_def find_Some_iff)

lemma find_by_None_iff: "find_by key i xs = None \<longleftrightarrow> i \<notin> key ` set xs"
  by (auto simp: find_by_def find_None_iff)

lemma find_by_distinct:
  assumes "distinct (map key xs)" "x \<in> set xs"
  shows "find_by key (key x) xs = Some x"
  using assms by (induction xs) (auto simp: find_by_def)

lemma find_by_upd_by:
  assumes "\<And>x. key (f x) = key x"
  shows "find_by key i (upd_by key i f xs) = map_option f (find_by key i xs)"
  using assms by (induction xs) (auto simp: find_by_def upd_by_def)

lemma map_upd_by [simp]: "(\<And>x. g (f x) = g x) \<Longrightarrow> map g (upd_by key i f xs) = map g xs"
  by (simp add: upd_by_def)

lemma length_upd_by [simp]: "length (upd_by key i f xs) = length xs"
  by (simp add: upd_by_def)

lemma find_index_distinct:
  assumes "distinct (map key xs)" "k < length xs"
  shows "find_index (\<lambda>x. key x = key (xs ! k)) xs = k"
  using assms
proof (induction xs arbitrary: k)
  case (Cons x xs)
  then show ?case by (cases k) (auto simp: nth_Cons')
qed simp

lemma eraseFromList_distinct:
  assumes "distinct (map key xs)" "k < length xs"
  shows "eraseFromList key (key (xs ! k)) xs = (k, erase_at k xs)"
  using assms by (simp add: eraseFromList_def find_index_distinct)

lemma filter_erase_at_le: "length (filter P (erase_at k xs)) \<le> length (filter P xs)"
  by (induction xs arbitrary: k; case_tac k) (auto simp: le_SucI)

lemma upd_send_simps [simp]:
  "m_sendOps (upd_send i f st) = upd_by snd_id i f (m_sendOps st)"
  "m_ops (upd_send i f st) = m_ops st" "sessionState (upd_send i f st) = sessionState st"
  "fault (upd_send i f st) = fault st" "configState (upd_send i f st) = configState st"
  by (simp_all add: upd_send_def)

end
