(* ===== verification/Client_Resume.thy ===== *)
theory Client_Resume
  imports Client_Core
begin

text \<open>
  The mutual recursion of completion and resumption (\<open>ClientImpl::opComplete\<close>,
  \<open>ClientImpl::resumeSendOpsSince\<close>, \<open>SendOp::resume\<close>, \<open>SendOp::doSendInternal\<close>) ends: the bound
  \<open>send_fuel\<close> of the model is never reached, and without it the equations are those of the source.
\<close>

section \<open>Resumption ends\<close>

text \<open>
  A resumption goes past an operation that is not postponed, or takes one off the postponed ones;
  a completion it causes takes an operation off the list. So the sum below decreases with every
  step, nested ones included, and \<open>send_fuel\<close> exceeds it.
\<close>

abbreviation send_ids :: "client \<Rightarrow> op_id list" where
  "send_ids st \<equiv> map snd_id (m_sendOps st)"

definition paused_count :: "client \<Rightarrow> nat" where
  "paused_count st = length (filter snd_paused (m_sendOps st))"

definition resume_measure :: "nat \<Rightarrow> client \<Rightarrow> nat" where
  "resume_measure idx st = (length (m_sendOps st) - idx) + paused_count st"

definition shrinks :: "client \<Rightarrow> client \<Rightarrow> bool" where
  "shrinks st st' \<longleftrightarrow> distinct (send_ids st') \<and> length (m_sendOps st') \<le> length (m_sendOps st) \<and>
     paused_count st' \<le> paused_count st \<and>
     (length (m_sendOps st') = length (m_sendOps st) \<longrightarrow> send_ids st' = send_ids st) \<and>
     (fault st' = Some OutOfFuel \<longrightarrow> fault st = Some OutOfFuel)"

lemma shrinks_trans: "shrinks a b \<Longrightarrow> shrinks b c \<Longrightarrow> shrinks a c"
  by (auto simp: shrinks_def)

lemma shrinks_refl: "distinct (send_ids st) \<Longrightarrow> shrinks st st"
  by (simp add: shrinks_def)

lemma shrinks_same:
  assumes "shrinks st st'" "m_sendOps st'' = m_sendOps st'"
    "fault st'' = Some OutOfFuel \<Longrightarrow> fault st' = Some OutOfFuel"
  shows "shrinks st st''"
  using assms by (simp add: shrinks_def paused_count_def)

lemma fault_sendMessage: "fault (snd (sendMessage E msg st)) = Some OutOfFuel \<Longrightarrow>
    fault st = Some OutOfFuel"
proof -
  have ka: "fault (fold KeepAliveOp_messageSent kas s) = fault s" for kas s
    by (induction kas arbitrary: s) (simp_all add: KeepAliveOp_messageSent_def)
  show "fault (snd (sendMessage E msg st)) = Some OutOfFuel \<Longrightarrow> fault st = Some OutOfFuel"
    by (auto simp: sendMessage_def Let_def ka set_fault_def split: option.splits if_splits)
qed

lemma erase_Send_simps:
  "sessionState (erase_Send i st) = sessionState st" "fault (erase_Send i st) = fault st"
  by (simp_all add: erase_Send_def client_releasePacketId_def split: option.split)

lemma m_sendOps_erase_Send:
  assumes "distinct (send_ids st)" "k < length (m_sendOps st)"
  shows "m_sendOps (erase_Send (snd_id (m_sendOps st ! k)) st) = erase_at k (m_sendOps st)"
  using find_by_distinct [OF assms(1), of "m_sendOps st ! k"] assms
  by (simp add: erase_Send_def client_releasePacketId_def eraseFromList_distinct)

text \<open>What the resumption called back by a completion has to do.\<close>

definition resumes_below :: "(nat \<Rightarrow> client \<Rightarrow> client) \<Rightarrow> nat \<Rightarrow> nat \<Rightarrow> bool" where
  "resumes_below rs k b \<longleftrightarrow>
     (\<forall>st. distinct (send_ids st) \<longrightarrow> resume_measure k st < b \<longrightarrow> shrinks st (rs k st))"

definition agree_below ::
  "(nat \<Rightarrow> client \<Rightarrow> client) \<Rightarrow> (nat \<Rightarrow> client \<Rightarrow> client) \<Rightarrow> nat \<Rightarrow> nat \<Rightarrow> bool" where
  "agree_below rs rs' k b \<longleftrightarrow>
     (\<forall>st. distinct (send_ids st) \<longrightarrow> resume_measure k st < b \<longrightarrow> rs k st = rs' k st)"

lemma opComplete_with_Send:
  "opComplete_with rs (Type_Send, i) st =
     (let idx = find_index (\<lambda>p. p = Some (Type_Send, i)) (m_ops st) in
      if length (m_ops st) \<le> idx then st
      else let st1 = forget_op idx st; k = fst (eraseFromList snd_id i (m_sendOps st));
               st2 = erase_Send i st1
           in if m_disconnecting (sessionState st) then st2 else rs k st2)"
  by (simp add: opComplete_with_def opComplete_Send_def Let_def erase_Send_simps forget_op_def)

lemma complete_measure:
  assumes "distinct (send_ids st)" "k < length (m_sendOps st)"
    "st2 = erase_Send (snd_id (m_sendOps st ! k)) (forget_op j st)"
  shows "shrinks st st2" "resume_measure k st2 < resume_measure k st"
proof -
  have ops: "m_sendOps st2 = erase_at k (m_sendOps st)"
    using m_sendOps_erase_Send [of "forget_op j st" k] assms by (simp add: forget_op_def)
  moreover have "fault st2 = fault st" using assms(3) by (simp add: erase_Send_simps forget_op_def)
  ultimately show "shrinks st st2"
    using assms(1,2) filter_erase_at_le [of snd_paused k "m_sendOps st"]
    by (auto simp: shrinks_def paused_count_def distinct_erase_at length_erase_at)
  then have "paused_count st2 \<le> paused_count st" by (simp add: shrinks_def)
  moreover have "length (m_sendOps st2) = length (m_sendOps st) - 1"
    using ops assms(2) by (simp add: length_erase_at)
  ultimately show "resume_measure k st2 < resume_measure k st"
    using assms(2) unfolding resume_measure_def by linarith
qed

lemma opComplete_Send_shrinks:
  assumes "distinct (send_ids st)" "k < length (m_sendOps st)" "resumes_below rs k (resume_measure k st)"
  shows "shrinks st (opComplete_with rs (Type_Send, snd_id (m_sendOps st ! k)) st)"
proof -
  let ?st2 = "erase_Send (snd_id (m_sendOps st ! k))
    (forget_op (find_index (\<lambda>p. p = Some (Type_Send, snd_id (m_sendOps st ! k))) (m_ops st)) st)"
  have m: "shrinks st ?st2" "resume_measure k ?st2 < resume_measure k st"
    using complete_measure [OF assms(1,2) refl] by blast+
  moreover have "distinct (send_ids ?st2)" using m(1) by (simp add: shrinks_def)
  ultimately have "shrinks st (rs k ?st2)"
    using assms(3) shrinks_trans unfolding resumes_below_def by blast
  with m(1) show ?thesis
    using assms(1,2)
    by (simp add: opComplete_with_Send Let_def eraseFromList_distinct shrinks_refl)
qed

lemma opComplete_Send_agree:
  assumes "distinct (send_ids st)" "k < length (m_sendOps st)" "agree_below rs rs' k (resume_measure k st)"
  shows "opComplete_with rs (Type_Send, snd_id (m_sendOps st ! k)) st =
    opComplete_with rs' (Type_Send, snd_id (m_sendOps st ! k)) st"
proof -
  let ?st2 = "erase_Send (snd_id (m_sendOps st ! k))
    (forget_op (find_index (\<lambda>p. p = Some (Type_Send, snd_id (m_sendOps st ! k))) (m_ops st)) st)"
  have m: "shrinks st ?st2" "resume_measure k ?st2 < resume_measure k st"
    using complete_measure [OF assms(1,2) refl] by blast+
  moreover have "distinct (send_ids ?st2)" using m(1) by (simp add: shrinks_def)
  ultimately have "rs k ?st2 = rs' k ?st2"
    using assms(3) unfolding agree_below_def by blast
  then show ?thesis
    using assms(1,2) by (simp add: opComplete_with_Send Let_def eraseFromList_distinct)
qed

lemma on_send_found:
  assumes "distinct (send_ids st)" "k < length (m_sendOps st)"
  shows "on_send (snd_id (m_sendOps st ! k)) f st = f (m_sendOps st ! k) st"
    "on_send_ret (snd_id (m_sendOps st ! k)) r g st = g (m_sendOps st ! k) st"
  using find_by_distinct [OF assms(1), of "m_sendOps st ! k"] assms(2)
  by (simp_all add: on_send_def on_send_ret_def follow_def follow_ret_def)

lemma completeWithCb_shrinks:
  assumes "distinct (send_ids st)" "k < length (m_sendOps st)" "resumes_below rs k (resume_measure k st)"
  shows "shrinks st (SendOp_completeWithCb_with rs (snd_id (m_sendOps st ! k)) status st)"
  using opComplete_Send_shrinks [OF assms] assms(1,2)
  by (auto simp: SendOp_completeWithCb_with_def on_send_found Let_def intro: shrinks_same
      split: option.split)

lemma completeWithCb_agree:
  assumes "distinct (send_ids st)" "k < length (m_sendOps st)" "agree_below rs rs' k (resume_measure k st)"
  shows "SendOp_completeWithCb_with rs (snd_id (m_sendOps st ! k)) status st =
    SendOp_completeWithCb_with rs' (snd_id (m_sendOps st ! k)) status st"
  using opComplete_Send_agree [OF assms] assms(1,2)
  by (simp add: SendOp_completeWithCb_with_def on_send_found Let_def split: option.split)

text \<open>Changes that keep the identities and the postponed operations of the list.\<close>

definition same_sends :: "client \<Rightarrow> client \<Rightarrow> bool" where
  "same_sends st st' \<longleftrightarrow> send_ids st' = send_ids st \<and>
     map snd_paused (m_sendOps st') = map snd_paused (m_sendOps st) \<and>
     (fault st' = Some OutOfFuel \<longrightarrow> fault st = Some OutOfFuel)"

lemma same_sendsD:
  assumes "same_sends st st'"
  shows "length (m_sendOps st') = length (m_sendOps st)" "paused_count st' = paused_count st"
    "resume_measure k st' = resume_measure k st"
    "k < length (m_sendOps st) \<Longrightarrow> snd_id (m_sendOps st' ! k) = snd_id (m_sendOps st ! k)"
proof -
  have ids: "send_ids st' = send_ids st" and ps: "map snd_paused (m_sendOps st') = map snd_paused (m_sendOps st)"
    using assms by (simp_all add: same_sends_def)
  show len: "length (m_sendOps st') = length (m_sendOps st)" using arg_cong [OF ids, of length] by simp
  have "length (filter snd_paused xs) = length (filter (\<lambda>b. b) (map snd_paused xs))" for xs
    by (induction xs) auto
  then show pc: "paused_count st' = paused_count st" unfolding paused_count_def using ps by metis
  show "resume_measure k st' = resume_measure k st" using len pc by (simp add: resume_measure_def)
  show "k < length (m_sendOps st) \<Longrightarrow> snd_id (m_sendOps st' ! k) = snd_id (m_sendOps st ! k)"
    using ids len by (metis nth_map)
qed

lemma same_sends_shrinks:
  assumes "distinct (send_ids st)" "same_sends st st'" "shrinks st' st''" shows "shrinks st st''"
  using assms same_sendsD [OF assms(2)] by (auto simp: shrinks_def same_sends_def)

lemma same_sends_sendMessage:
  assumes "same_sends st st'" shows "same_sends st (snd (sendMessage E msg st'))"
  using assms fault_sendMessage [of E msg st'] by (auto simp: same_sends_def)

text \<open>
  The state of \<open>doSendInternal\<close> before a publish completes or its timer starts; it does not depend
  on the resumption.
\<close>

definition sent_state :: "env \<Rightarrow> op_id \<Rightarrow> SendOp \<Rightarrow> client \<Rightarrow> client" where
  "sent_state E i op st =
     upd_send i (\<lambda>op. op\<lparr>snd_published := True, snd_sendAttempts := snd_sendAttempts op + 1\<rparr>)
       (snd (sendMessage E (MPublish (snd_pubMsg op)) (upd_send i (\<lambda>op. op\<lparr>snd_sendAttempts := 0\<rparr>) st)))"

lemma doSendInternal_with_eq:
  assumes "distinct (send_ids st)" "k < length (m_sendOps st)" "op = m_sendOps st ! k" "i = snd_id op"
    "(result, st2) = sendMessage E (MPublish (snd_pubMsg op)) (upd_send i (\<lambda>op. op\<lparr>snd_sendAttempts := 0\<rparr>) st)"
  shows "SendOp_doSendInternal_with rs E i st =
    (if result \<noteq> EC_Success then (result, st2)
     else (EC_Success, if pm_qos (snd_pubMsg op) = AtMostOnceDelivery
            then SendOp_completeWithCb_with rs i ST_Complete (sent_state E i op st)
            else SendOp_restartResponseTimer op (sent_state E i op st)))"
  using assms(1,2) assms(5) [symmetric]
  by (simp add: SendOp_doSendInternal_with_def on_send_found assms(3,4) Let_def sent_state_def)

lemma same_sends_sent:
  "same_sends st (upd_send i (\<lambda>op. op\<lparr>snd_sendAttempts := 0\<rparr>) st)"
  "same_sends st (snd (sendMessage E m (upd_send i (\<lambda>op. op\<lparr>snd_sendAttempts := 0\<rparr>) st)))"
  "same_sends st (sent_state E i op st)"
proof -
  show 1: "same_sends st (upd_send i (\<lambda>op. op\<lparr>snd_sendAttempts := 0\<rparr>) st)"
    by (simp add: same_sends_def)
  show "same_sends st (snd (sendMessage E m (upd_send i (\<lambda>op. op\<lparr>snd_sendAttempts := 0\<rparr>) st)))" for m
    using 1 by (rule same_sends_sendMessage)
  from this [of "MPublish (snd_pubMsg op)"] show "same_sends st (sent_state E i op st)"
    by (simp add: same_sends_def sent_state_def)
qed

lemma complete_sent:
  assumes "distinct (send_ids st)" "k < length (m_sendOps st)" "i = snd_id (m_sendOps st ! k)"
    "same_sends st st'"
  shows "resumes_below rs k (resume_measure k st) \<Longrightarrow>
      shrinks st (SendOp_completeWithCb_with rs i status st')"
    "agree_below rs rs' k (resume_measure k st) \<Longrightarrow>
      SendOp_completeWithCb_with rs i status st' = SendOp_completeWithCb_with rs' i status st'"
proof -
  have d: "distinct (send_ids st')" using assms(1,4) by (simp add: same_sends_def)
  note s = same_sendsD [OF assms(4)]
  have i: "i = snd_id (m_sendOps st' ! k)" and k: "k < length (m_sendOps st')"
    using assms(2,3) s by simp_all
  show "resumes_below rs k (resume_measure k st) \<Longrightarrow>
      shrinks st (SendOp_completeWithCb_with rs i status st')"
    using completeWithCb_shrinks [OF d k, of rs] same_sends_shrinks [OF assms(1,4)] i s(3) by simp
  show "agree_below rs rs' k (resume_measure k st) \<Longrightarrow>
      SendOp_completeWithCb_with rs i status st' = SendOp_completeWithCb_with rs' i status st'"
    using completeWithCb_agree [OF d k, of rs rs'] i s(3) by simp
qed

lemma doSendInternal_with_shrinks:
  assumes "distinct (send_ids st)" "k < length (m_sendOps st)" "i = snd_id (m_sendOps st ! k)"
    "resumes_below rs k (resume_measure k st)" "SendOp_doSendInternal_with rs E i st = (ec, st')"
  shows "shrinks st st'" "ec \<noteq> EC_Success \<Longrightarrow> same_sends st st'"
proof -
  let ?op = "m_sendOps st ! k"
  obtain result st2 where m: "(result, st2) = sendMessage E (MPublish (snd_pubMsg ?op))
      (upd_send i (\<lambda>op. op\<lparr>snd_sendAttempts := 0\<rparr>) st)" by (metis surj_pair)
  note eq = doSendInternal_with_eq [OF assms(1,2) refl assms(3) m, of rs]
  have 2: "same_sends st st2" using same_sends_sent(2) m by (metis snd_conv)
  have 3: "same_sends st (SendOp_restartResponseTimer ?op (sent_state E i ?op st))"
    using same_sends_sent(3) [of st E i ?op] by (simp add: same_sends_def SendOp_restartResponseTimer_def)
  note c = complete_sent(1) [OF assms(1,2,3) same_sends_sent(3) assms(4)]
  have sh: "same_sends st s \<Longrightarrow> shrinks st s" for s
    using same_sends_shrinks [OF assms(1)] shrinks_refl assms(1) by (simp add: same_sends_def)
  show "shrinks st st'" using assms(5) eq c sh [OF 2] sh [OF 3] by (auto split: if_splits)
  show "ec \<noteq> EC_Success \<Longrightarrow> same_sends st st'" using assms(5) eq 2 by (auto split: if_splits)
qed

lemma doSendInternal_with_agree:
  assumes "distinct (send_ids st)" "k < length (m_sendOps st)" "i = snd_id (m_sendOps st ! k)"
    "agree_below rs rs' k (resume_measure k st)"
  shows "SendOp_doSendInternal_with rs E i st = SendOp_doSendInternal_with rs' E i st"
proof -
  obtain result st2 where m: "(result, st2) = sendMessage E (MPublish (snd_pubMsg (m_sendOps st ! k)))
      (upd_send i (\<lambda>op. op\<lparr>snd_sendAttempts := 0\<rparr>) st)" by (metis surj_pair)
  show ?thesis
    using complete_sent(2) [OF assms(1,2,3) same_sends_sent(3) assms(4)]
    by (simp add: doSendInternal_with_eq [OF assms(1,2) refl assms(3) m])
qed

lemma unpause:
  assumes "distinct (send_ids st)" "k < length (m_sendOps st)" "snd_paused (m_sendOps st ! k)"
    "st1 = upd_send (snd_id (m_sendOps st ! k)) (\<lambda>op. op\<lparr>snd_paused := False\<rparr>) st"
  shows "send_ids st1 = send_ids st" "length (m_sendOps st1) = length (m_sendOps st)"
    "snd_id (m_sendOps st1 ! k) = snd_id (m_sendOps st ! k)" "fault st1 = fault st"
    "paused_count st1 < paused_count st"
proof -
  show ids: "send_ids st1 = send_ids st" "length (m_sendOps st1) = length (m_sendOps st)"
    "fault st1 = fault st" by (simp_all add: assms(4))
  from ids assms(2) show "snd_id (m_sendOps st1 ! k) = snd_id (m_sendOps st ! k)"
    by (metis nth_map)
  have "length (filter snd_paused (upd_by snd_id (snd_id (xs ! k)) (\<lambda>op. op\<lparr>snd_paused := False\<rparr>) xs)) <
      length (filter snd_paused xs)" if "k < length xs" "snd_paused (xs ! k)" for xs
    using that
  proof (induction xs arbitrary: k)
    case (Cons x xs)
    have le: "length (filter snd_paused (upd_by snd_id i (\<lambda>op. op\<lparr>snd_paused := False\<rparr>) xs)) \<le>
        length (filter snd_paused xs)" for i
      by (induction xs) (auto simp: upd_by_def)
    show ?case
    proof (cases k)
      case 0
      with Cons.prems le [of "snd_id x"] show ?thesis by (auto simp: upd_by_def)
    next
      case (Suc j)
      with Cons.prems Cons.IH [of j] show ?thesis by (auto simp: upd_by_def)
    qed
  qed simp
  with assms show "paused_count st1 < paused_count st" by (simp add: paused_count_def)
qed

lemma resume_with_shrinks:
  assumes "distinct (send_ids st)" "k < length (m_sendOps st)" "i = snd_id (m_sendOps st ! k)"
    "snd_paused (m_sendOps st ! k)" "resumes_below rs k (resume_measure k st)"
    "SendOp_resume_with rs E i st = (r, st')"
  shows "shrinks st st'" "r \<Longrightarrow> paused_count st' < paused_count st"
proof -
  define st1 where "st1 = upd_send i (\<lambda>op. op\<lparr>snd_paused := False\<rparr>) st"
  note u = unpause [OF assms(1,2,4), of st1, folded assms(3), OF st1_def]
  have pre: "distinct (send_ids st1)" "k < length (m_sendOps st1)" "i = snd_id (m_sendOps st1 ! k)"
    using assms(1,2,3) u by simp_all
  have lt: "resume_measure k st1 < resume_measure k st"
    using u by (simp add: resume_measure_def)
  then have below: "resumes_below rs k (resume_measure k st1)"
    using assms(5) by (auto simp: resumes_below_def)
  obtain ec st2 where d: "SendOp_doSendInternal_with rs E i st1 = (ec, st2)" by (metis surj_pair)
  note ds = doSendInternal_with_shrinks [OF pre below d]
  have c: "shrinks st1 (SendOp_completeWithCb_with rs i s st2)" if "ec \<noteq> EC_Success" for s
    using complete_sent(1) [OF pre ds(2) [OF that] below] .
  have res: "r = (SendOp_canSend (m_sendOps st ! k) st)"
    "SendOp_canSend (m_sendOps st ! k) st \<Longrightarrow> shrinks st1 st'" "\<not> r \<Longrightarrow> st' = st"
    using assms(6) ds(1) c d assms(1,2,4)
    by (auto simp: SendOp_resume_with_def on_send_found assms(3) st1_def Let_def split: if_splits)
  have sh: "shrinks st1 s \<Longrightarrow> shrinks st s \<and> paused_count s < paused_count st" for s
    using u by (auto simp: shrinks_def)
  show "shrinks st st'" using res sh [of st'] shrinks_refl [OF assms(1)] by auto
  show "r \<Longrightarrow> paused_count st' < paused_count st" using res sh [of st'] by auto
qed

lemma resume_with_agree:
  assumes "distinct (send_ids st)" "k < length (m_sendOps st)" "i = snd_id (m_sendOps st ! k)"
    "snd_paused (m_sendOps st ! k)" "resumes_below rs k (resume_measure k st)"
    "agree_below rs rs' k (resume_measure k st)"
  shows "SendOp_resume_with rs E i st = SendOp_resume_with rs' E i st"
proof -
  define st1 where "st1 = upd_send i (\<lambda>op. op\<lparr>snd_paused := False\<rparr>) st"
  note u = unpause [OF assms(1,2,4), of st1, folded assms(3), OF st1_def]
  have pre: "distinct (send_ids st1)" "k < length (m_sendOps st1)" "i = snd_id (m_sendOps st1 ! k)"
    using assms(1,2,3) u by simp_all
  have lt: "resume_measure k st1 < resume_measure k st"
    using u by (simp add: resume_measure_def)
  then have below: "resumes_below rs k (resume_measure k st1)" and agr: "agree_below rs rs' k (resume_measure k st1)"
    using assms(5,6) by (auto simp: resumes_below_def agree_below_def)
  obtain ec st2 where d: "SendOp_doSendInternal_with rs E i st1 = (ec, st2)" by (metis surj_pair)
  have d': "SendOp_doSendInternal_with rs' E i st1 = (ec, st2)"
    using d doSendInternal_with_agree [OF pre agr] by simp
  have c: "SendOp_completeWithCb_with rs i s st2 = SendOp_completeWithCb_with rs' i s st2"
    if "ec \<noteq> EC_Success" for s
    using complete_sent(2) [OF pre doSendInternal_with_shrinks(2) [OF pre below d that] agr] .
  show ?thesis
    using d d' c assms(1,2,4)
    by (simp add: SendOp_resume_with_def on_send_found assms(3) st1_def Let_def)
qed

lemma resume_fuel_enough:
  assumes "distinct (send_ids st)" "resume_measure idx st < n"
  shows "shrinks st (resumeSendOpsSince_fuel n E idx st) \<and>
    (\<forall>m \<ge> n. resumeSendOpsSince_fuel m E idx st = resumeSendOpsSince_fuel n E idx st)"
  using assms
proof (induction n arbitrary: idx st)
  case (Suc n)
  let ?rs = "resumeSendOpsSince_fuel n E" and ?ops = "m_sendOps st"
  have below: "resumes_below ?rs k n" and agr: "agree_below (resumeSendOpsSince_fuel m E) ?rs k n" if "n \<le> m" for k m
    unfolding resumes_below_def agree_below_def using Suc.IH that by blast+
  consider (over) "\<not> idx < length ?ops"
    | (skip) "idx < length ?ops" "\<not> snd_paused (?ops ! idx)"
    | (postponed) "idx < length ?ops" "snd_paused (?ops ! idx)" by blast
  then show ?case
  proof cases
    case over
    then show ?thesis using Suc.prems shrinks_refl by (auto dest!: Suc_le_D)
  next
    case skip
    then have "resume_measure (idx + 1) st < n" using Suc.prems by (simp add: resume_measure_def)
    note IH = Suc.IH [OF Suc.prems(1) this]
    have step: "resumeSendOpsSince_fuel (Suc m) E idx st = resumeSendOpsSince_fuel m E (idx + 1) st" for m
      using skip by simp
    show ?thesis
    proof (intro conjI allI impI)
      show "shrinks st (resumeSendOpsSince_fuel (Suc n) E idx st)" unfolding step using IH by blast
      fix m assume "Suc n \<le> m"
      then obtain j where "m = Suc j" "n \<le> j" by (metis Suc_le_D Suc_le_mono)
      then show "resumeSendOpsSince_fuel m E idx st = resumeSendOpsSince_fuel (Suc n) E idx st"
        unfolding \<open>m = Suc j\<close> step using IH by blast
    qed
  next
    case postponed
    let ?i = "snd_id (?ops ! idx)"
    have rb: "resumes_below ?rs idx (resume_measure idx st)"
      and ag: "agree_below ?rs (resumeSendOpsSince_fuel m E) idx (resume_measure idx st)" if "n \<le> m" for m
      using below [OF order_refl, of idx] agr [OF that, of idx] Suc.prems(2)
      unfolding resumes_below_def agree_below_def by (auto dest: order_less_le_trans)
    obtain r st1 where r: "SendOp_resume_with ?rs E ?i st = (r, st1)" by (metis surj_pair)
    have r': "SendOp_resume_with (resumeSendOpsSince_fuel m E) E ?i st = (r, st1)" if "n \<le> m" for m
      using resume_with_agree [OF Suc.prems(1) postponed(1) refl postponed(2) rb [OF that] ag [OF that]] r by simp
    note s = resume_with_shrinks [OF Suc.prems(1) postponed(1) refl postponed(2) rb [OF order_refl] r]
    have d: "distinct (send_ids st1)" using s(1) by (simp add: shrinks_def)
    have lt: "resume_measure idx st1 < n" if r
    proof -
      have "length (m_sendOps st1) \<le> length ?ops" using s(1) by (simp add: shrinks_def)
      then show ?thesis using s(2) [OF that] Suc.prems(2) unfolding resume_measure_def by linarith
    qed
    have "shrinks st (?rs idx st1)" if r
      using Suc.IH [OF d lt [OF that]] shrinks_trans [OF s(1)] by blast
    moreover have "resumeSendOpsSince_fuel m E idx st1 = ?rs idx st1" if "n \<le> m" r for m
      using Suc.IH [OF d lt [OF that(2)]] that(1) by blast
    moreover have step: "resumeSendOpsSince_fuel (Suc m) E idx st =
        (if r then resumeSendOpsSince_fuel m E idx st1 else st1)" if "n \<le> m" for m
      unfolding resumeSendOpsSince_fuel.simps(2) using postponed r' [OF that] by (simp add: Let_def)
    ultimately have "shrinks st (resumeSendOpsSince_fuel (Suc n) E idx st)"
      "n \<le> j \<Longrightarrow> resumeSendOpsSince_fuel (Suc j) E idx st = resumeSendOpsSince_fuel (Suc n) E idx st" for j
      using s(1) step [OF order_refl] step [of j] by presburger+
    then show ?thesis by (metis Suc_le_D Suc_le_mono)
  qed
qed simp

text \<open>The resumption of the model is the one with any larger bound, and it never runs out.\<close>

lemma resume_measure_fuel: "resume_measure idx st < send_fuel st"
  using length_filter_le [of snd_paused "m_sendOps st"]
  unfolding resume_measure_def paused_count_def send_fuel_def by linarith

lemma resumeSendOpsSince_shrinks: "distinct (send_ids st) \<Longrightarrow> shrinks st (resumeSendOpsSince E idx st)"
  unfolding resumeSendOpsSince_def using resume_fuel_enough [OF _ resume_measure_fuel] by blast

lemma resumes_below_resumeSendOpsSince: "resumes_below (resumeSendOpsSince E) k b"
  by (simp add: resumes_below_def resumeSendOpsSince_shrinks)

lemma resume_fuel_any:
  assumes "distinct (send_ids st)" "resume_measure idx st < n"
  shows "resumeSendOpsSince_fuel n E idx st = resumeSendOpsSince E idx st"
proof -
  have "\<forall>m \<ge> Suc (resume_measure idx st). resumeSendOpsSince_fuel m E idx st =
      resumeSendOpsSince_fuel (Suc (resume_measure idx st)) E idx st"
    using resume_fuel_enough [OF assms(1) lessI] by blast
  then show ?thesis
    unfolding resumeSendOpsSince_def using assms(2) resume_measure_fuel [of idx st] Suc_leI by metis
qed

lemma agree_below_fuel: "agree_below (resumeSendOpsSince_fuel n E) (resumeSendOpsSince E) k n"
  unfolding agree_below_def using resume_fuel_any by blast

text \<open>
  The equation of the loop in the source, in which nothing bounds the iterations and the recursion
  through the completion of the resumed publishes.
\<close>

lemma resumeSendOpsSince_unfold:
  assumes "distinct (send_ids st)"
  shows "resumeSendOpsSince E idx st =
    (if idx < length (m_sendOps st) then
       if \<not> snd_paused (m_sendOps st ! idx) then resumeSendOpsSince E (idx + 1) st
       else let (resumed, st1) = SendOp_resume E (snd_id (m_sendOps st ! idx)) st
            in if \<not> resumed then st1 else resumeSendOpsSince E idx st1
     else st)"
proof -
  let ?n = "resume_measure idx st" and ?ops = "m_sendOps st"
  have un: "resumeSendOpsSince E idx st = resumeSendOpsSince_fuel (Suc ?n) E idx st"
    using resume_fuel_any [OF assms lessI] by (rule sym)
  consider (over) "\<not> idx < length ?ops"
    | (skip) "idx < length ?ops" "\<not> snd_paused (?ops ! idx)"
    | (postponed) "idx < length ?ops" "snd_paused (?ops ! idx)" by blast
  then show ?thesis
  proof cases
    case over
    then show ?thesis unfolding un by simp
  next
    case skip
    then have "resume_measure (idx + 1) st < ?n" by (simp add: resume_measure_def)
    from resume_fuel_any [OF assms this] show ?thesis unfolding un using skip by simp
  next
    case postponed
    let ?i = "snd_id (?ops ! idx)" and ?rs = "resumeSendOpsSince_fuel ?n E"
    have rb: "resumes_below ?rs idx ?n"
      unfolding resumes_below_def using resume_fuel_enough by blast
    have eq: "SendOp_resume_with ?rs E ?i st = SendOp_resume E ?i st"
      unfolding SendOp_resume_def
      by (rule resume_with_agree [OF assms postponed(1) refl postponed(2) rb agree_below_fuel])
    obtain r st1 where r: "SendOp_resume_with ?rs E ?i st = (r, st1)" by (metis surj_pair)
    note s = resume_with_shrinks [OF assms postponed(1) refl postponed(2) rb r]
    have "?rs idx st1 = resumeSendOpsSince E idx st1" if r
    proof (rule resume_fuel_any)
      show "distinct (send_ids st1)" using s(1) by (simp add: shrinks_def)
      have "length (m_sendOps st1) \<le> length ?ops" using s(1) by (simp add: shrinks_def)
      then show "resume_measure idx st1 < ?n"
        using s(2) [OF that] unfolding resume_measure_def by linarith
    qed
    then show ?thesis unfolding un using postponed r eq by (simp add: Let_def)
  qed
qed

end
