(* ===== verification/Client_Registry.thy ===== *)
theory Client_Registry
  imports Client_Resume
begin

text \<open>
  Which operations a client has, and what their completion takes away: the well-formedness of
  \<open>m_ops\<close> against the lists that own the operations, and a uniform description of
  \<open>ClientImpl::opComplete\<close> for all kinds of operations.
\<close>

section \<open>The registry of operations\<close>

text \<open>
  Every operation is owned by the list of its kind and known to \<open>m_ops\<close>. The functions below
  read off a state which operations there are, which timers they own (with the callback the
  operation starts the timer with) and which packet identifiers they hold.
\<close>

definition all_ptrs :: "client \<Rightarrow> op_ptr list" where
  "all_ptrs st =
     map (\<lambda>op. (Type_Connect, con_id op)) (m_connectOps st) @
     map (\<lambda>op. (Type_KeepAlive, ka_id op)) (m_keepAliveOps st) @
     map (\<lambda>op. (Type_Disconnect, dis_id op)) (m_disconnectOps st) @
     map (\<lambda>op. (Type_Subscribe, sub_id op)) (m_subscribeOps st) @
     map (\<lambda>op. (Type_Unsubscribe, unsub_id op)) (m_unsubscribeOps st) @
     map (\<lambda>op. (Type_Recv, rcv_id op)) (m_recvOps st) @
     map (\<lambda>op. (Type_Send, snd_id op)) (m_sendOps st)"

definition live_ops :: "client \<Rightarrow> op_ptr list" where
  "live_ops st = List.map_filter id (m_ops st)"

type_synonym timer_slot = "nat \<times> timeout_cb \<times> op_id"

definition ka_slots :: "KeepAliveOp \<Rightarrow> timer_slot list" where
  "ka_slots op = [(ka_respTimer op, KeepAliveOp_pingTimeoutCb, ka_id op),
     (ka_recvTimer op, KeepAliveOp_recvTimeoutCb, ka_id op),
     (ka_pingTimer op, KeepAliveOp_sendPingCb, ka_id op)]"

definition timer_slots :: "client \<Rightarrow> timer_slot list" where
  "timer_slots st =
     map (\<lambda>op. (con_timer op, ConnectOp_opTimeoutCb, con_id op)) (m_connectOps st) @
     concat (map ka_slots (m_keepAliveOps st)) @
     map (\<lambda>op. (sub_timer op, SubscribeOp_opTimeoutCb, sub_id op)) (m_subscribeOps st) @
     map (\<lambda>op. (unsub_timer op, UnsubscribeOp_opTimeoutCb, unsub_id op)) (m_unsubscribeOps st) @
     map (\<lambda>op. (rcv_responseTimer op, RecvOp_recvTimeoutCb, rcv_id op)) (m_recvOps st) @
     map (\<lambda>op. (snd_responseTimer op, SendOp_recvTimeoutCb, snd_id op)) (m_sendOps st)"

definition op_pids :: "client \<Rightarrow> u16 list" where
  "op_pids st =
     map (\<lambda>op. sm_packetId (sub_subMsg op)) (m_subscribeOps st) @
     map (\<lambda>op. um_packetId (unsub_unsubMsg op)) (m_unsubscribeOps st) @
     map (\<lambda>op. pm_packetId (snd_pubMsg op)) (m_sendOps st)"

definition ops_wf :: "client \<Rightarrow> bool" where
  "ops_wf st \<longleftrightarrow> distinct (all_ptrs st) \<and> mset (live_ops st) = mset (all_ptrs st) \<and>
     (\<forall>ptr \<in> set (all_ptrs st). snd ptr < next_id st)"

lemma set_live_ops: "ptr \<in> set (live_ops st) \<longleftrightarrow> Some ptr \<in> set (m_ops st)"
  by (force simp: live_ops_def List.map_filter_def)

lemma ops_wf_live_iff: "ops_wf st \<Longrightarrow> Some ptr \<in> set (m_ops st) \<longleftrightarrow> ptr \<in> set (all_ptrs st)"
  using mset_eq_setD [of "live_ops st" "all_ptrs st"] set_live_ops [of ptr st]
  by (auto simp: ops_wf_def)

lemma distinct_map_Pair: "distinct (map (\<lambda>x. (t, f x)) xs) \<longleftrightarrow> distinct (map f xs)"
  by (induction xs) auto

lemma ops_wf_distinct:
  assumes "ops_wf st"
  shows "distinct (map con_id (m_connectOps st))" "distinct (map ka_id (m_keepAliveOps st))"
    "distinct (map dis_id (m_disconnectOps st))" "distinct (map sub_id (m_subscribeOps st))"
    "distinct (map unsub_id (m_unsubscribeOps st))" "distinct (map rcv_id (m_recvOps st))"
    "distinct (send_ids st)"
  using assms by (auto simp: ops_wf_def all_ptrs_def distinct_map_Pair)

section \<open>Removal of an operation\<close>

text \<open>Completion without the resumption that follows the completion of a publish.\<close>

definition drop_op :: "op_ptr \<Rightarrow> client \<Rightarrow> client" where
  "drop_op ptr st = opComplete_with (\<lambda>_ s. s) ptr st"

lemma opComplete_with_eq:
  "opComplete_with rs ptr st =
     (if fst ptr = Type_Send \<and> Some ptr \<in> set (m_ops st) \<and> \<not> m_disconnecting (sessionState st)
      then rs (fst (eraseFromList snd_id (snd ptr) (m_sendOps st))) (drop_op ptr st)
      else drop_op ptr st)"
proof -
  have "length (m_ops st) \<le> find_index (\<lambda>p. p = Some ptr) (m_ops st) \<longleftrightarrow> Some ptr \<notin> set (m_ops st)"
    using find_index_less_iff [of "\<lambda>p. p = Some ptr" "m_ops st"] by (auto simp: not_less [symmetric])
  then show ?thesis
    by (auto simp: drop_op_def opComplete_with_def opComplete_Send_def Let_def erase_Send_simps
        forget_op_def split: op_type.split)
qed

lemma mset_eraseFromList:
  assumes "find_by key i xs = Some x"
  shows "mset xs = add_mset x (mset (snd (eraseFromList key i xs)))"
  using assms
proof (induction xs)
  case (Cons y ys)
  have "i \<in> key ` set ys" if "key y \<noteq> i"
    using Cons.prems that find_by_SomeD [of key i ys x] by (auto simp: find_by_def)
  then have "key y \<noteq> i \<Longrightarrow> find_index (\<lambda>x. key x = i) ys < length ys"
    by (auto simp: find_index_less_iff)
  then show ?case
    using Cons by (auto simp: eraseFromList_def Let_def find_by_def split: if_splits)
qed (simp add: find_by_def)

lemma mset_concat_map_add: "mset xs = add_mset x (mset ys) \<Longrightarrow>
    mset (concat (map f xs)) = mset (f x) + mset (concat (map f ys))"
proof -
  have "mset (concat (map f zs)) = sum_mset (image_mset (\<lambda>x. mset (f x)) (mset zs))" for zs
    by (induction zs) simp_all
  then show "mset xs = add_mset x (mset ys) \<Longrightarrow>
      mset (concat (map f xs)) = mset (f x) + mset (concat (map f ys))" by simp
qed

lemma live_forget:
  assumes "j < length (m_ops st)" "m_ops st ! j = Some p"
  shows "mset (live_ops st) = add_mset p (mset (live_ops (forget_op j st)))"
proof -
  have "mset (List.map_filter id xs) = add_mset p (mset (List.map_filter id (xs[j := None])))"
    if "j < length xs" "xs ! j = Some p" for xs
    using that
    by (induction xs arbitrary: j)
      (auto simp: List.map_filter_simps nth_Cons' split: nat.split option.split if_splits)
  then show ?thesis using assms by (simp add: live_ops_def forget_op_def)
qed

text \<open>What the removal takes away: the pointer, the timers and the packet identifier.\<close>

definition erased :: "op_ptr \<Rightarrow> timer_slot list \<Rightarrow> u16 list \<Rightarrow> client \<Rightarrow> client \<Rightarrow> bool" where
  "erased ptr S Q st st' \<longleftrightarrow> length Q \<le> 1 \<and>
     mset (all_ptrs st) = add_mset ptr (mset (all_ptrs st')) \<and>
     mset (timer_slots st) = mset S + mset (timer_slots st') \<and>
     mset (op_pids st) = mset Q + mset (op_pids st') \<and>
     timerMgr st' = fold Timer_destroy (map fst S) (timerMgr st) \<and>
     m_packetIds (clientState st') = fold releasePacketId Q (m_packetIds (clientState st)) \<and>
     next_id st' = next_id st \<and> reuseState st' = reuseState st \<and> out st' = out st \<and>
     fault st' = fault st"

definition dropped :: "op_ptr \<Rightarrow> timer_slot list \<Rightarrow> u16 list \<Rightarrow> client \<Rightarrow> client \<Rightarrow> bool" where
  "dropped ptr S Q st st' \<longleftrightarrow>
     mset (live_ops st) = add_mset ptr (mset (live_ops st')) \<and> erased ptr S Q st st'"

lemma found_in_list:
  assumes "i \<in> key ` set xs"
  obtains x where "find_by key i xs = Some x" "key x = i"
    "mset xs = add_mset x (mset (snd (eraseFromList key i xs)))"
proof -
  obtain x where x: "find_by key i xs = Some x"
    using assms by (cases "find_by key i xs") (auto simp: find_by_None_iff)
  from that [OF x] find_by_SomeD [OF x] mset_eraseFromList [OF x] show thesis by blast
qed

lemmas erased_simps = erased_def all_ptrs_def timer_slots_def op_pids_def on_timers_def
  client_releasePacketId_def live_ops_def

lemma erased_Connect:
  assumes "i \<in> con_id ` set (m_connectOps st)"
  shows "\<exists>S Q. erased (Type_Connect, i) S Q st (opComplete_Connect i st)" "live_ops (opComplete_Connect i st) = live_ops st"
proof -
  obtain op where op: "find_by con_id i (m_connectOps st) = Some op" "con_id op = i"
    "mset (m_connectOps st) = add_mset op (mset (snd (eraseFromList con_id i (m_connectOps st))))"
    using assms by (rule found_in_list)
  have "erased (Type_Connect, i) ([(con_timer op, ConnectOp_opTimeoutCb, i)]) ([]) st (opComplete_Connect i st)"
    using op(1,2) by (simp add: op(3) mset_concat_map_add [OF op(3)] opComplete_Connect_def erased_simps ka_slots_def)
  then show "\<exists>S Q. erased (Type_Connect, i) S Q st (opComplete_Connect i st)" by blast
  show "live_ops (opComplete_Connect i st) = live_ops st" using op(1) by (simp add: opComplete_Connect_def erased_simps)
qed

lemma erased_KeepAlive:
  assumes "i \<in> ka_id ` set (m_keepAliveOps st)"
  shows "\<exists>S Q. erased (Type_KeepAlive, i) S Q st (opComplete_KeepAlive i st)" "live_ops (opComplete_KeepAlive i st) = live_ops st"
proof -
  obtain op where op: "find_by ka_id i (m_keepAliveOps st) = Some op" "ka_id op = i"
    "mset (m_keepAliveOps st) = add_mset op (mset (snd (eraseFromList ka_id i (m_keepAliveOps st))))"
    using assms by (rule found_in_list)
  have "erased (Type_KeepAlive, i) (ka_slots op) ([]) st (opComplete_KeepAlive i st)"
    using op(1,2) by (simp add: op(3) mset_concat_map_add [OF op(3)] opComplete_KeepAlive_def erased_simps ka_slots_def)
  then show "\<exists>S Q. erased (Type_KeepAlive, i) S Q st (opComplete_KeepAlive i st)" by blast
  show "live_ops (opComplete_KeepAlive i st) = live_ops st" using op(1) by (simp add: opComplete_KeepAlive_def erased_simps)
qed

lemma erased_Disconnect:
  assumes "i \<in> dis_id ` set (m_disconnectOps st)"
  shows "\<exists>S Q. erased (Type_Disconnect, i) S Q st (opComplete_Disconnect i st)" "live_ops (opComplete_Disconnect i st) = live_ops st"
proof -
  obtain op where op: "find_by dis_id i (m_disconnectOps st) = Some op" "dis_id op = i"
    "mset (m_disconnectOps st) = add_mset op (mset (snd (eraseFromList dis_id i (m_disconnectOps st))))"
    using assms by (rule found_in_list)
  have "erased (Type_Disconnect, i) ([]) ([]) st (opComplete_Disconnect i st)"
    using op(1,2) by (simp add: op(3) mset_concat_map_add [OF op(3)] opComplete_Disconnect_def erased_simps ka_slots_def)
  then show "\<exists>S Q. erased (Type_Disconnect, i) S Q st (opComplete_Disconnect i st)" by blast
  show "live_ops (opComplete_Disconnect i st) = live_ops st" using op(1) by (simp add: opComplete_Disconnect_def erased_simps)
qed

lemma erased_Subscribe:
  assumes "i \<in> sub_id ` set (m_subscribeOps st)"
  shows "\<exists>S Q. erased (Type_Subscribe, i) S Q st (opComplete_Subscribe i st)" "live_ops (opComplete_Subscribe i st) = live_ops st"
proof -
  obtain op where op: "find_by sub_id i (m_subscribeOps st) = Some op" "sub_id op = i"
    "mset (m_subscribeOps st) = add_mset op (mset (snd (eraseFromList sub_id i (m_subscribeOps st))))"
    using assms by (rule found_in_list)
  have "erased (Type_Subscribe, i) ([(sub_timer op, SubscribeOp_opTimeoutCb, i)]) ([sm_packetId (sub_subMsg op)]) st (opComplete_Subscribe i st)"
    using op(1,2) by (simp add: op(3) mset_concat_map_add [OF op(3)] opComplete_Subscribe_def erased_simps ka_slots_def)
  then show "\<exists>S Q. erased (Type_Subscribe, i) S Q st (opComplete_Subscribe i st)" by blast
  show "live_ops (opComplete_Subscribe i st) = live_ops st" using op(1) by (simp add: opComplete_Subscribe_def erased_simps)
qed

lemma erased_Unsubscribe:
  assumes "i \<in> unsub_id ` set (m_unsubscribeOps st)"
  shows "\<exists>S Q. erased (Type_Unsubscribe, i) S Q st (opComplete_Unsubscribe i st)" "live_ops (opComplete_Unsubscribe i st) = live_ops st"
proof -
  obtain op where op: "find_by unsub_id i (m_unsubscribeOps st) = Some op" "unsub_id op = i"
    "mset (m_unsubscribeOps st) = add_mset op (mset (snd (eraseFromList unsub_id i (m_unsubscribeOps st))))"
    using assms by (rule found_in_list)
  have "erased (Type_Unsubscribe, i) ([(unsub_timer op, UnsubscribeOp_opTimeoutCb, i)]) ([um_packetId (unsub_unsubMsg op)]) st (opComplete_Unsubscribe i st)"
    using op(1,2) by (simp add: op(3) mset_concat_map_add [OF op(3)] opComplete_Unsubscribe_def erased_simps ka_slots_def)
  then show "\<exists>S Q. erased (Type_Unsubscribe, i) S Q st (opComplete_Unsubscribe i st)" by blast
  show "live_ops (opComplete_Unsubscribe i st) = live_ops st" using op(1) by (simp add: opComplete_Unsubscribe_def erased_simps)
qed

lemma erased_Recv:
  assumes "i \<in> rcv_id ` set (m_recvOps st)"
  shows "\<exists>S Q. erased (Type_Recv, i) S Q st (opComplete_Recv i st)" "live_ops (opComplete_Recv i st) = live_ops st"
proof -
  obtain op where op: "find_by rcv_id i (m_recvOps st) = Some op" "rcv_id op = i"
    "mset (m_recvOps st) = add_mset op (mset (snd (eraseFromList rcv_id i (m_recvOps st))))"
    using assms by (rule found_in_list)
  have "erased (Type_Recv, i) ([(rcv_responseTimer op, RecvOp_recvTimeoutCb, i)]) ([]) st (opComplete_Recv i st)"
    using op(1,2) by (simp add: op(3) mset_concat_map_add [OF op(3)] opComplete_Recv_def erased_simps ka_slots_def)
  then show "\<exists>S Q. erased (Type_Recv, i) S Q st (opComplete_Recv i st)" by blast
  show "live_ops (opComplete_Recv i st) = live_ops st" using op(1) by (simp add: opComplete_Recv_def erased_simps)
qed

lemma erased_Send:
  assumes "i \<in> snd_id ` set (m_sendOps st)"
  shows "\<exists>S Q. erased (Type_Send, i) S Q st (erase_Send i st)" "live_ops (erase_Send i st) = live_ops st"
proof -
  obtain op where op: "find_by snd_id i (m_sendOps st) = Some op" "snd_id op = i"
    "mset (m_sendOps st) = add_mset op (mset (snd (eraseFromList snd_id i (m_sendOps st))))"
    using assms by (rule found_in_list)
  have "erased (Type_Send, i) ([(snd_responseTimer op, SendOp_recvTimeoutCb, i)]) ([pm_packetId (snd_pubMsg op)]) st (erase_Send i st)"
    using op(1,2) by (simp add: op(3) mset_concat_map_add [OF op(3)] erase_Send_def erased_simps ka_slots_def)
  then show "\<exists>S Q. erased (Type_Send, i) S Q st (erase_Send i st)" by blast
  show "live_ops (erase_Send i st) = live_ops st" using op(1) by (simp add: erase_Send_def erased_simps)
qed

lemma drop_op_unlisted: "Some ptr \<notin> set (m_ops st) \<Longrightarrow> drop_op ptr st = st"
  using find_index_less_iff [of "\<lambda>p. p = Some ptr" "m_ops st"]
  by (auto simp: drop_op_def opComplete_with_def Let_def)

lemma drop_op_dropped:
  assumes "Some ptr \<in> set (m_ops st)" "ptr \<in> set (all_ptrs st)"
  shows "\<exists>S Q. dropped ptr S Q st (drop_op ptr st)"
proof -
  define j where "j = find_index (\<lambda>p. p = Some ptr) (m_ops st)"
  have j: "j < length (m_ops st)" "m_ops st ! j = Some ptr"
    using assms(1) find_index_less_iff [of "\<lambda>p. p = Some ptr" "m_ops st"]
      find_index_sat [of "\<lambda>p. p = Some ptr" "m_ops st"] by (auto simp: j_def)
  define st1 where "st1 = forget_op j st"
  obtain t i where ptr: "ptr = (t, i)" by (cases ptr)
  define erase where "erase = (case t of Type_Connect \<Rightarrow> opComplete_Connect i
    | Type_KeepAlive \<Rightarrow> opComplete_KeepAlive i | Type_Disconnect \<Rightarrow> opComplete_Disconnect i
    | Type_Subscribe \<Rightarrow> opComplete_Subscribe i | Type_Unsubscribe \<Rightarrow> opComplete_Unsubscribe i
    | Type_Recv \<Rightarrow> opComplete_Recv i | Type_Send \<Rightarrow> erase_Send i)"
  have d: "drop_op ptr st = erase st1"
    using j(1) by (simp add: drop_op_def opComplete_with_def opComplete_Send_def Let_def ptr j_def
        st1_def erase_def not_le split: op_type.split)
  have mem: "ptr \<in> set (all_ptrs st1)" using assms(2) by (simp add: all_ptrs_def st1_def forget_op_def)
  then have "\<exists>S Q. erased ptr S Q st1 (erase st1)" "live_ops (erase st1) = live_ops st1"
    by (auto simp: ptr erase_def all_ptrs_def erased_Connect erased_KeepAlive erased_Disconnect
        erased_Subscribe erased_Unsubscribe erased_Recv erased_Send split: op_type.split)
  moreover have "erased ptr S Q st1 s \<Longrightarrow> erased ptr S Q st s" for S Q s
    by (simp add: erased_def st1_def forget_op_def all_ptrs_def timer_slots_def op_pids_def)
  ultimately show ?thesis
    using live_forget [OF j, folded st1_def] unfolding dropped_def d by fastforce
qed

end
