(* ===== verification/Client_Session.thy ===== *)
theory Client_Session
  imports Client_Registry
begin

text \<open>
  The end of operations and of the session: \<open>completeOpInternal\<close> and \<open>terminateOpImpl\<close> of every
  operation, \<open>connectivityChangedImpl\<close>, \<open>ClientImpl::terminateOps\<close>, \<open>brokerDisconnected\<close>,
  \<open>cleanOps\<close> and the whole of \<open>op/KeepAliveOp.cpp\<close>, which decides that the broker is gone.
\<close>

section \<open>Following pointers\<close>

definition on_connect :: "op_id \<Rightarrow> (ConnectOp \<Rightarrow> client \<Rightarrow> client) \<Rightarrow> client \<Rightarrow> client" where
  "on_connect i f st = follow Type_Connect con_id (m_connectOps st) i f st"

definition on_keepAlive :: "op_id \<Rightarrow> (KeepAliveOp \<Rightarrow> client \<Rightarrow> client) \<Rightarrow> client \<Rightarrow> client" where
  "on_keepAlive i f st = follow Type_KeepAlive ka_id (m_keepAliveOps st) i f st"

definition on_disconnect :: "op_id \<Rightarrow> (DisconnectOp \<Rightarrow> client \<Rightarrow> client) \<Rightarrow> client \<Rightarrow> client" where
  "on_disconnect i f st = follow Type_Disconnect dis_id (m_disconnectOps st) i f st"

definition on_subscribe :: "op_id \<Rightarrow> (SubscribeOp \<Rightarrow> client \<Rightarrow> client) \<Rightarrow> client \<Rightarrow> client" where
  "on_subscribe i f st = follow Type_Subscribe sub_id (m_subscribeOps st) i f st"

definition on_unsubscribe :: "op_id \<Rightarrow> (UnsubscribeOp \<Rightarrow> client \<Rightarrow> client) \<Rightarrow> client \<Rightarrow> client" where
  "on_unsubscribe i f st = follow Type_Unsubscribe unsub_id (m_unsubscribeOps st) i f st"

definition on_recv :: "op_id \<Rightarrow> (RecvOp \<Rightarrow> client \<Rightarrow> client) \<Rightarrow> client \<Rightarrow> client" where
  "on_recv i f st = follow Type_Recv rcv_id (m_recvOps st) i f st"

section \<open>Completion with the application's callback\<close>

definition ConnectOp_completeOpInternal ::
  "env \<Rightarrow> op_id \<Rightarrow> AsyncOpStatus \<Rightarrow> ConnectResponse option \<Rightarrow> client \<Rightarrow> client" where
  "ConnectOp_completeOpInternal E i status response =
     on_connect i (\<lambda>op st.
       let st1 = opComplete E (Type_Connect, i) st in
       case con_cb op of None \<Rightarrow> st1 | Some cb \<Rightarrow> emit (EvConnectComplete cb i status response) st1)"

definition SubscribeOp_completeOpInternal ::
  "env \<Rightarrow> op_id \<Rightarrow> AsyncOpStatus \<Rightarrow> nat list option \<Rightarrow> client \<Rightarrow> client" where
  "SubscribeOp_completeOpInternal E i status response =
     on_subscribe i (\<lambda>op st.
       let st1 = opComplete E (Type_Subscribe, i) st in
       case sub_cb op of None \<Rightarrow> st1
       | Some cb \<Rightarrow> emit (EvSubscribeComplete cb i status response) st1)"

definition UnsubscribeOp_completeOpInternal ::
  "env \<Rightarrow> op_id \<Rightarrow> AsyncOpStatus \<Rightarrow> client \<Rightarrow> client" where
  "UnsubscribeOp_completeOpInternal E i status =
     on_unsubscribe i (\<lambda>op st.
       let st1 = opComplete E (Type_Unsubscribe, i) st in
       case unsub_cb op of None \<Rightarrow> st1
       | Some cb \<Rightarrow> emit (EvUnsubscribeComplete cb i status) st1)"

text \<open>\<open>Op::terminateOp\<close>: the overriding implementations, and \<open>Op::terminateOpImpl\<close> for the rest.\<close>

definition Op_terminateOpImpl :: "env \<Rightarrow> op_ptr \<Rightarrow> client \<Rightarrow> client" where
  "Op_terminateOpImpl E ptr st = opComplete E ptr st"

fun terminateOp :: "env \<Rightarrow> AsyncOpStatus \<Rightarrow> op_ptr \<Rightarrow> client \<Rightarrow> client" where
  "terminateOp E status (Type_Connect, i) st = ConnectOp_completeOpInternal E i status None st"
| "terminateOp E status (Type_KeepAlive, i) st =
     on_keepAlive i (\<lambda>op. Op_terminateOpImpl E (Type_KeepAlive, i)) st"
| "terminateOp E status (Type_Disconnect, i) st =
     on_disconnect i (\<lambda>op. Op_terminateOpImpl E (Type_Disconnect, i)) st"
| "terminateOp E status (Type_Subscribe, i) st = SubscribeOp_completeOpInternal E i status None st"
| "terminateOp E status (Type_Unsubscribe, i) st = UnsubscribeOp_completeOpInternal E i status st"
| "terminateOp E status (Type_Recv, i) st =
     on_recv i (\<lambda>op. Op_terminateOpImpl E (Type_Recv, i)) st"
| "terminateOp E status (Type_Send, i) st = SendOp_completeWithCb E i status st"

section \<open>Reaction to a change of connectivity\<close>

definition no_connectivity :: "client \<Rightarrow> bool" where
  "no_connectivity st =
     (\<not> m_connected (sessionState st) \<or> m_networkDisconnected (clientState st))"

definition SendOp_connectivityChangedImpl :: "SendOp \<Rightarrow> client \<Rightarrow> client" where
  "SendOp_connectivityChangedImpl op st =
     on_timers (Timer_setSuspended (snd_responseTimer op) (no_connectivity st)) st"

definition RecvOp_connectivityChangedImpl :: "env \<Rightarrow> RecvOp \<Rightarrow> client \<Rightarrow> client" where
  "RecvOp_connectivityChangedImpl E op st =
     (if 2 \<le> MaxQos E
      then on_timers (Timer_setSuspended (rcv_responseTimer op) (no_connectivity st)) st
      else st)"

definition ConnectOp_connectivityChangedImpl :: "env \<Rightarrow> ConnectOp \<Rightarrow> client \<Rightarrow> client" where
  "ConnectOp_connectivityChangedImpl E op st =
     (if m_networkDisconnected (clientState st)
      then ConnectOp_completeOpInternal E (con_id op) ST_BrokerDisconnected None st
      else st)"

fun connectivityChanged :: "env \<Rightarrow> op_ptr \<Rightarrow> client \<Rightarrow> client" where
  "connectivityChanged E (Type_Connect, i) st =
     on_connect i (ConnectOp_connectivityChangedImpl E) st"
| "connectivityChanged E (Type_Recv, i) st = on_recv i (RecvOp_connectivityChangedImpl E) st"
| "connectivityChanged E (Type_Send, i) st = on_send i SendOp_connectivityChangedImpl st"
| "connectivityChanged E (Type_KeepAlive, i) st = on_keepAlive i (\<lambda>op st. st) st"
| "connectivityChanged E (Type_Disconnect, i) st = on_disconnect i (\<lambda>op st. st) st"
| "connectivityChanged E (Type_Subscribe, i) st = on_subscribe i (\<lambda>op st. st) st"
| "connectivityChanged E (Type_Unsubscribe, i) st = on_unsubscribe i (\<lambda>op st. st) st"

section \<open>Loops over all operations\<close>

text \<open>
  A range-based loop over \<open>m_ops\<close>. The body gets the element the vector has at that position when
  the loop reaches it; the positions are those the vector had at the start, and a body that makes
  the vector longer or shorter invalidates the iterators of the loop.
\<close>

definition for_ops :: "(op_ptr option \<Rightarrow> client \<Rightarrow> client) \<Rightarrow> client \<Rightarrow> client" where
  "for_ops body st =
     fold (\<lambda>k s. if length (m_ops s) \<noteq> length (m_ops st) then set_fault IteratorInvalidated s
                 else body (m_ops s ! k) s)
       [0..<length (m_ops st)] st"

datatype TerminateMode = TerminateMode_KeepSendRecvOps | TerminateMode_AbortSendRecvOps

fun terminate_body ::
  "env \<Rightarrow> AsyncOpStatus \<Rightarrow> TerminateMode \<Rightarrow> op_ptr option \<Rightarrow> client \<Rightarrow> client" where
  "terminate_body E status mode None st = st"
| "terminate_body E status mode (Some ptr) st =
     (if mode = TerminateMode_KeepSendRecvOps \<and> (fst ptr = Type_Recv \<or> fst ptr = Type_Send)
      then st else terminateOp E status ptr st)"

definition terminateOps :: "env \<Rightarrow> AsyncOpStatus \<Rightarrow> TerminateMode \<Rightarrow> client \<Rightarrow> client" where
  "terminateOps E status mode = for_ops (terminate_body E status mode)"

fun connectivity_body :: "env \<Rightarrow> op_ptr option \<Rightarrow> client \<Rightarrow> client" where
  "connectivity_body E None st = st"
| "connectivity_body E (Some ptr) st = connectivityChanged E ptr st"

definition report_disconnect :: "BrokerDisconnectReason option \<Rightarrow> client \<Rightarrow> client" where
  "report_disconnect reason st =
     (case reason of None \<Rightarrow> st
      | Some r \<Rightarrow> if has_brokerDisconnectReportCb st then emit (EvBrokerDisconnectReport r) st
                  else set_fault NullPointer st)"

text \<open>
  \<open>ClientImpl::brokerDisconnected\<close>; \<open>None\<close> is the default reason \<open>ValuesLimit\<close>, which is not
  reported.
\<close>

definition session_down :: "client \<Rightarrow> client" where
  "session_down st =
     st\<lparr>clientState := (clientState st)\<lparr>m_initialized := False\<rparr>,
        sessionState := (sessionState st)\<lparr>m_connected := False, m_disconnecting := True\<rparr>\<rparr>"

definition brokerDisconnected_st ::
  "env \<Rightarrow> BrokerDisconnectReason option \<Rightarrow> AsyncOpStatus \<Rightarrow> client \<Rightarrow> client" where
  "brokerDisconnected_st E reason status st =
     report_disconnect reason
       (for_ops (connectivity_body E)
         (terminateOps E status TerminateMode_KeepSendRecvOps (session_down st)))"

definition brokerDisconnected :: "env \<Rightarrow> BrokerDisconnectReason option \<Rightarrow> client \<Rightarrow> client" where
  "brokerDisconnected E reason = brokerDisconnected_st E reason ST_BrokerDisconnected"

definition cleanOps :: "client \<Rightarrow> client" where
  "cleanOps st =
     (if \<not> m_opsDeleted st then st
      else st\<lparr>m_ops := filter (\<lambda>p. p \<noteq> None) (m_ops st), m_opsDeleted := False\<rparr>)"

definition allowNextPrepare :: "client \<Rightarrow> client" where
  "allowNextPrepare st = st\<lparr>m_preparationLocked := False\<rparr>"

text \<open>\<open>m_ops.push_back\<close>: a fixed-capacity vector must have room.\<close>

definition push_op :: "env \<Rightarrow> op_ptr \<Rightarrow> client \<Rightarrow> client" where
  "push_op E ptr st =
     (if vec_full (OpsLimit E) (m_ops st) then set_fault CapacityExceeded else id)
       (st\<lparr>m_ops := m_ops st @ [Some ptr]\<rparr>)"

definition client_allocTimer :: "env \<Rightarrow> client \<Rightarrow> nat \<times> client" where
  "client_allocTimer E st =
     (let (idx, t) = allocTimer (TimersLimit E) (timerMgr st) in (idx, st\<lparr>timerMgr := t\<rparr>))"

section \<open>Keeping the session alive\<close>

definition KeepAliveOp_restartRecvTimer :: "KeepAliveOp \<Rightarrow> client \<Rightarrow> client" where
  "KeepAliveOp_restartRecvTimer op st =
     (if m_keepAliveMs (sessionState st) = 0 then st
      else on_timers (timerWait (ka_recvTimer op) (ucast (m_keepAliveMs (sessionState st)))
             KeepAliveOp_recvTimeoutCb (ka_id op)) st)"

definition KeepAliveOp_handle_Pingresp :: "KeepAliveOp \<Rightarrow> client \<Rightarrow> client" where
  "KeepAliveOp_handle_Pingresp op st =
     KeepAliveOp_restartRecvTimer op (on_timers (timerCancel (ka_respTimer op)) st)"

definition KeepAliveOp_handle_ProtMessage :: "KeepAliveOp \<Rightarrow> client \<Rightarrow> client" where
  "KeepAliveOp_handle_ProtMessage op st = KeepAliveOp_restartRecvTimer op st"

text \<open>The dispatch of a message to a keep-alive operation (\<open>comms::GenericHandler\<close>).\<close>

definition KeepAliveOp_dispatch :: "prot_msg \<Rightarrow> KeepAliveOp \<Rightarrow> client \<Rightarrow> client" where
  "KeepAliveOp_dispatch msg op =
     (if msg = MPingresp then KeepAliveOp_handle_Pingresp op else KeepAliveOp_handle_ProtMessage op)"

definition dispatch_keepAlives :: "prot_msg \<Rightarrow> client \<Rightarrow> client" where
  "dispatch_keepAlives msg st = fold (KeepAliveOp_dispatch msg) (m_keepAliveOps st) st"

definition KeepAliveOp_sendPing :: "env \<Rightarrow> KeepAliveOp \<Rightarrow> client \<Rightarrow> client" where
  "KeepAliveOp_sendPing E op st =
     (if timerIsActive (ka_respTimer op) (timerMgr st) then st
      else let st1 = snd (sendMessage E MPingreq st)
           in on_timers (timerWait (ka_respTimer op) (ucast (m_responseTimeoutMs (configState st1)))
                KeepAliveOp_pingTimeoutCb (ka_id op)) st1)"

definition KeepAliveOp_pingTimeoutInternal :: "env \<Rightarrow> client \<Rightarrow> client" where
  "KeepAliveOp_pingTimeoutInternal E st =
     brokerDisconnected E (Some BDR_NoBrokerResponse) (errorLog E st)"

text \<open>\<open>createKeepAliveOpIfNeeded\<close> with the constructor \<open>KeepAliveOp::KeepAliveOp\<close>.\<close>

definition KeepAliveOp_new :: "env \<Rightarrow> client \<Rightarrow> KeepAliveOp \<times> client" where
  "KeepAliveOp_new E st =
     (let (t1, st1) = client_allocTimer E st;
          (t2, st2) = client_allocTimer E st1;
          (t3, st3) = client_allocTimer E st2;
          op = \<lparr>ka_id = next_id st3, ka_pingTimer = t1, ka_recvTimer = t2, ka_respTimer = t3\<rparr>
      in (op, KeepAliveOp_restartPingTimer op (st3\<lparr>next_id := next_id st3 + 1\<rparr>)))"

definition createKeepAliveOpIfNeeded :: "env \<Rightarrow> client \<Rightarrow> client" where
  "createKeepAliveOpIfNeeded E st =
     (if m_keepAliveOps st \<noteq> [] then st
      else if vec_full (KeepAliveOpsLimit E) (m_keepAliveOps st) then st
      else let (op, st1) = KeepAliveOp_new E st;
               st2 = push_op E (Type_KeepAlive, ka_id op) st1
           in st2\<lparr>m_keepAliveOps := m_keepAliveOps st2 @ [op]\<rparr>)"

end
