(* ===== verification/Send_Op.thy ===== *)
theory Send_Op
  imports Client_Session
begin

text \<open>
  Outgoing publishes: the rest of \<open>op/SendOp.cpp\<close> (configuration, retransmission, the
  acknowledgements, cancellation) and the part of \<open>ClientImpl.cpp\<close> that finds the operation an
  acknowledgement is for. \<open>SendOp::send\<close> is with the other entry points in \<open>Client_Api\<close>.
\<close>

section \<open>Configuration\<close>

definition maxStringLen :: nat where "maxStringLen = 65535"

text \<open>What a verification function logged.\<close>

definition log_opt :: "env \<Rightarrow> string option \<Rightarrow> client \<Rightarrow> client" where
  "log_opt E l st = (case l of None \<Rightarrow> st | Some _ \<Rightarrow> errorLog E st)"

definition Op_verifyPubTopic :: "env \<Rightarrow> string \<Rightarrow> bool \<Rightarrow> client \<Rightarrow> bool \<times> client" where
  "Op_verifyPubTopic E topic outgoing st =
     (let (ok, l) = verifyPubTopic (HasTopicFormatVerification E)
            (m_verifyOutgoingTopic (configState st)) (m_verifyIncomingTopic (configState st))
            topic outgoing
      in (ok, log_opt E l st))"

definition Op_verifySubFilter :: "env \<Rightarrow> string \<Rightarrow> client \<Rightarrow> bool \<times> client" where
  "Op_verifySubFilter E flt st =
     (let (ok, l) = verifySubFilter (HasTopicFormatVerification E)
            (m_verifyOutgoingTopic (configState st)) flt
      in (ok, log_opt E l st))"

text \<open>A null or empty C string.\<close>

definition no_str :: "string option \<Rightarrow> bool" where
  "no_str s = (case s of None \<Rightarrow> True | Some t \<Rightarrow> c_str t = [])"

definition c_arg :: "string option \<Rightarrow> string" where
  "c_arg s = (case s of None \<Rightarrow> [] | Some t \<Rightarrow> c_str t)"

text \<open>The bytes a pointer argument points to.\<close>

definition c_buf :: "bytes option \<Rightarrow> bytes" where
  "c_buf b = (case b of None \<Rightarrow> [] | Some d \<Rightarrow> d)"

definition upd_pub :: "op_id \<Rightarrow> (PublishMsg \<Rightarrow> PublishMsg) \<Rightarrow> client \<Rightarrow> client" where
  "upd_pub i f = upd_send i (\<lambda>op. op\<lparr>snd_pubMsg := f (snd_pubMsg op)\<rparr>)"

definition pub_payload :: "PublishConfig \<Rightarrow> bytes \<Rightarrow> bytes" where
  "pub_payload c old =
     (if 0 < pc_dataLen c then take (pc_dataLen c) (c_buf (pc_data c)) else old)"

definition SendOp_config :: "env \<Rightarrow> PublishConfig \<Rightarrow> op_id \<Rightarrow> client \<Rightarrow> ErrorCode \<times> client" where
  "SendOp_config E c i =
     on_send_ret i EC_InternalError (\<lambda>op st.
       if no_str (pc_topic c) then (EC_BadParam, errorLog E st)
       else let (ok, st1) = Op_verifyPubTopic E (c_arg (pc_topic c)) True st in
         if \<not> ok then (EC_BadParam, errorLog E st1)
         else if MaxQos E < pc_qos c then (EC_BadParam, errorLog E st1)
         else
           let payload = pub_payload c (pm_payload (snd_pubMsg op));
               st2 = upd_pub i (\<lambda>m. m\<lparr>pm_retain := pc_retain c, pm_qos := pc_qos c,
                                       pm_topic := c_arg (pc_topic c), pm_payload := payload\<rparr>) st1;
               st3 = (if 0 < pc_dataLen c \<and> pc_data c = None then set_fault NullPointer st2 else st2)
           in if maxStringLen < length payload then (EC_BadParam, errorLog E st3)
              else (EC_Success, st3))"

definition SendOp_setResendAttempts :: "env \<Rightarrow> u32 \<Rightarrow> op_id \<Rightarrow> client \<Rightarrow> ErrorCode \<times> client" where
  "SendOp_setResendAttempts E attempts i =
     on_send_ret i EC_InternalError (\<lambda>op st.
       if attempts = 0 then (EC_BadParam, errorLog E st)
       else (EC_Success, upd_send i (\<lambda>op. op\<lparr>snd_totalSendAttempts := attempts\<rparr>) st))"

definition SendOp_getResendAttempts :: "op_id \<Rightarrow> client \<Rightarrow> u32 \<times> client" where
  "SendOp_getResendAttempts i = on_send_ret i 0 (\<lambda>op st. (snd_totalSendAttempts op, st))"

section \<open>Cancellation\<close>

definition SendOp_cancel :: "env \<Rightarrow> op_id \<Rightarrow> client \<Rightarrow> ErrorCode \<times> client" where
  "SendOp_cancel E i =
     on_send_ret i EC_InternalError (\<lambda>op st.
       let st1 = (if snd_cb op = None then allowNextPrepare st else st)
       in (EC_Success, opComplete E (Type_Send, i) st1))"

section \<open>Retransmission\<close>

definition SendOp_resendDupMsg :: "env \<Rightarrow> op_id \<Rightarrow> client \<Rightarrow> client" where
  "SendOp_resendDupMsg E i =
     on_send i (\<lambda>op st.
       if snd_totalSendAttempts op \<le> snd_sendAttempts op
         then SendOp_completeWithCb E i ST_Timeout (errorLog E st)
       else
         let st1 = (if snd_acked op then st else upd_pub i (\<lambda>m. m\<lparr>pm_dup := True\<rparr>) st);
             msg = (if snd_acked op then MPubrel (pm_packetId (snd_pubMsg op)) True
                    else MPublish ((snd_pubMsg op)\<lparr>pm_dup := True\<rparr>));
             (result, st2) = sendMessage E msg st1
         in if result \<noteq> EC_Success
              then SendOp_completeWithCb E i ST_InternalError (errorLog E st2)
            else SendOp_restartResponseTimer op
                   (upd_send i (\<lambda>op. op\<lparr>snd_sendAttempts := snd_sendAttempts op + 1\<rparr>) st2))"

definition SendOp_postReconnectionResend :: "env \<Rightarrow> op_id \<Rightarrow> client \<Rightarrow> client" where
  "SendOp_postReconnectionResend E i =
     on_send i (\<lambda>op st.
       if snd_paused op then st
       else SendOp_resendDupMsg E i
              (on_timers (timerCancel (snd_responseTimer op))
                (upd_send i (\<lambda>op. op\<lparr>snd_sendAttempts := snd_sendAttempts op - 1\<rparr>) st)))"

definition SendOp_forceDupResend :: "env \<Rightarrow> op_id \<Rightarrow> client \<Rightarrow> client" where
  "SendOp_forceDupResend E i =
     on_send i (\<lambda>op st. if snd_paused op then st else SendOp_resendDupMsg E i st)"

definition SendOp_responseTimeoutInternal :: "env \<Rightarrow> op_id \<Rightarrow> client \<Rightarrow> client" where
  "SendOp_responseTimeoutInternal E i =
     on_send i (\<lambda>op st. SendOp_resendDupMsg E i (errorLog E st))"

section \<open>Acknowledgements\<close>

text \<open>
  The two scope guards of the handlers: the operation completes first, then, for a violation of the
  protocol, the session is terminated.
\<close>

definition SendOp_protocolError :: "env \<Rightarrow> op_id \<Rightarrow> client \<Rightarrow> client" where
  "SendOp_protocolError E i st =
     brokerDisconnected E (Some BDR_ProtocolError)
       (SendOp_completeWithCb E i ST_ProtocolError (errorLog E st))"

definition SendOp_handle_Puback :: "env \<Rightarrow> op_id \<Rightarrow> client \<Rightarrow> client" where
  "SendOp_handle_Puback E i =
     on_send i (\<lambda>op st.
       let st1 = on_timers (timerCancel (snd_responseTimer op)) st in
       if pm_qos (snd_pubMsg op) \<noteq> AtLeastOnceDelivery then SendOp_protocolError E i st1
       else SendOp_completeWithCb E i ST_Complete st1)"

definition SendOp_handle_Pubrec :: "env \<Rightarrow> u16 \<Rightarrow> op_id \<Rightarrow> client \<Rightarrow> client" where
  "SendOp_handle_Pubrec E pid i =
     on_send i (\<lambda>op st.
       if pm_packetId (snd_pubMsg op) \<noteq> pid then st
       else let st1 = on_timers (timerCancel (snd_responseTimer op)) st in
         if pm_qos (snd_pubMsg op) \<noteq> ExactlyOnceDelivery then SendOp_protocolError E i st1
         else if snd_acked op then SendOp_protocolError E i st1
         else
           let st2 = upd_send i (\<lambda>op. op\<lparr>snd_acked := True, snd_sendAttempts := 0\<rparr>) st1;
               (result, st3) = sendMessage E (MPubrel (pm_packetId (snd_pubMsg op)) True) st2
           in if result \<noteq> EC_Success
                then SendOp_completeWithCb E i ST_InternalError (errorLog E st3)
              else SendOp_restartResponseTimer op
                     (upd_send i (\<lambda>op. op\<lparr>snd_sendAttempts := snd_sendAttempts op + 1\<rparr>) st3))"

definition SendOp_handle_Pubcomp :: "env \<Rightarrow> u16 \<Rightarrow> op_id \<Rightarrow> client \<Rightarrow> client" where
  "SendOp_handle_Pubcomp E pid i =
     on_send i (\<lambda>op st.
       if pm_packetId (snd_pubMsg op) \<noteq> pid then st
       else let st1 = on_timers (timerCancel (snd_responseTimer op)) st in
         if pm_qos (snd_pubMsg op) \<noteq> ExactlyOnceDelivery then SendOp_protocolError E i st1
         else if \<not> snd_acked op then SendOp_protocolError E i st1
         else SendOp_completeWithCb E i ST_Complete st1)"

definition SendOp_dispatch :: "env \<Rightarrow> prot_msg \<Rightarrow> op_id \<Rightarrow> client \<Rightarrow> client" where
  "SendOp_dispatch E msg i =
     (case msg of
        MPuback pid \<Rightarrow> if 1 \<le> MaxQos E then SendOp_handle_Puback E i else id
      | MPubrec pid \<Rightarrow> if 2 \<le> MaxQos E then SendOp_handle_Pubrec E pid i else id
      | MPubcomp pid \<Rightarrow> if 2 \<le> MaxQos E then SendOp_handle_Pubcomp E pid i else id
      | _ \<Rightarrow> id)"

section \<open>The operation an acknowledgement is for\<close>

definition findSendOp :: "u16 \<Rightarrow> client \<Rightarrow> SendOp option" where
  "findSendOp pid st = List.find (\<lambda>op. pm_packetId (snd_pubMsg op) = pid) (m_sendOps st)"

fun legitAck_loop :: "op_id \<Rightarrow> bool \<Rightarrow> op_id \<Rightarrow> SendOp list \<Rightarrow> bool" where
  "legitAck_loop i pubcompAck front [] = False"
| "legitAck_loop i pubcompAck front (op # ops) =
     (if snd_id op = i then True
      else if \<not> snd_acked op then False
      else if pubcompAck \<and> i \<noteq> front then False
      else legitAck_loop i pubcompAck front ops)"

definition isLegitSendAck :: "SendOp \<Rightarrow> bool \<Rightarrow> client \<Rightarrow> bool" where
  "isLegitSendAck op pubcompAck st =
     (if \<not> snd_published op then False
      else legitAck_loop (snd_id op) pubcompAck (snd_id (hd (m_sendOps st))) (m_sendOps st))"

text \<open>
  \<open>resendAllUntil\<close>. A resend can destroy operations; the reference to the vector's element is read
  again afterwards, which is an error when the vector has become too short for it. The length of
  the vector bounds the number of iterations.
\<close>

fun resendAllUntil_fuel :: "nat \<Rightarrow> env \<Rightarrow> op_id \<Rightarrow> nat \<Rightarrow> client \<Rightarrow> client" where
  "resendAllUntil_fuel 0 E i idx st = set_fault OutOfFuel st"
| "resendAllUntil_fuel (Suc n) E i idx st =
     (if idx < length (m_sendOps st) then
        let cur = snd_id (m_sendOps st ! idx);
            st1 = SendOp_forceDupResend E cur st
        in if cur = i then st1
           else if length (m_sendOps st1) \<le> idx then set_fault IteratorInvalidated st1
           else if snd_id (m_sendOps st1 ! idx) \<noteq> cur then resendAllUntil_fuel n E i idx st1
           else resendAllUntil_fuel n E i (idx + 1) st1
      else st)"

definition resendAllUntil :: "env \<Rightarrow> op_id \<Rightarrow> client \<Rightarrow> client" where
  "resendAllUntil E i st = resendAllUntil_fuel (length (m_sendOps st) + 1) E i 0 st"

definition processPublishAckMsg ::
  "env \<Rightarrow> prot_msg \<Rightarrow> u16 \<Rightarrow> bool \<Rightarrow> client \<Rightarrow> bool \<times> client" where
  "processPublishAckMsg E msg pid pubcompAck st =
     (let st1 = dispatch_keepAlives msg st in
      case findSendOp pid st1 of
        None \<Rightarrow> (False, st1)
      | Some op \<Rightarrow>
          if isLegitSendAck op pubcompAck st1
          then (True, SendOp_dispatch E msg (snd_id op) st1)
          else (True, resendAllUntil E (snd_id op) st1))"

definition handle_ack :: "env \<Rightarrow> prot_msg \<Rightarrow> u16 \<Rightarrow> bool \<Rightarrow> client \<Rightarrow> client" where
  "handle_ack E msg pid pubcompAck st =
     (let (found, st1) = processPublishAckMsg E msg pid pubcompAck st
      in if found then st1 else errorLog E st1)"

definition ClientImpl_handle_Puback :: "env \<Rightarrow> u16 \<Rightarrow> client \<Rightarrow> client" where
  "ClientImpl_handle_Puback E pid = handle_ack E (MPuback pid) pid False"

definition ClientImpl_handle_Pubrec :: "env \<Rightarrow> u16 \<Rightarrow> client \<Rightarrow> client" where
  "ClientImpl_handle_Pubrec E pid = handle_ack E (MPubrec pid) pid False"

definition ClientImpl_handle_Pubcomp :: "env \<Rightarrow> u16 \<Rightarrow> client \<Rightarrow> client" where
  "ClientImpl_handle_Pubcomp E pid = handle_ack E (MPubcomp pid) pid True"

section \<open>Retransmission up to an operation ends\<close>

text \<open>
  A resend keeps the list of publishes or makes it shorter, so every iteration of
  \<open>resendAllUntil\<close> passes an operation or loses one.
\<close>

lemma resendDupMsg_shrinks:
  assumes "distinct (send_ids st)" "k < length (m_sendOps st)" "i = snd_id (m_sendOps st ! k)"
  shows "shrinks st (SendOp_resendDupMsg E i st)"
proof -
  let ?op = "m_sendOps st ! k"
  have done_: "shrinks st (SendOp_completeWithCb E i status st')" if "same_sends st st'" for st' status
    unfolding SendOp_completeWithCb_def
    by (rule complete_sent(1) [OF assms that resumes_below_resumeSendOpsSince])
  have keep: "shrinks st st'" if "same_sends st st'" for st'
    using same_sends_shrinks [OF assms(1) that] shrinks_refl assms(1) that by (simp add: same_sends_def)
  have s: "same_sends st st" "same_sends st (errorLog E st)" "same_sends st (upd_pub i (\<lambda>m. m\<lparr>pm_dup := True\<rparr>) st)"
    by (simp_all add: same_sends_def upd_pub_def)
  have "same_sends st (errorLog E (snd (sendMessage E msg st1)))"
    "same_sends st (SendOp_restartResponseTimer ?op
       (upd_send i (\<lambda>op. op\<lparr>snd_sendAttempts := snd_sendAttempts op + 1\<rparr>) (snd (sendMessage E msg st1))))"
    if "same_sends st st1" for msg st1
    using same_sends_sendMessage [OF that, of E msg]
    by (simp_all add: same_sends_def SendOp_restartResponseTimer_def)
  then show ?thesis
    using done_ keep s assms
    by (simp add: SendOp_resendDupMsg_def on_send_found Let_def split_def)
qed

lemma forceDupResend_shrinks:
  assumes "distinct (send_ids st)" "k < length (m_sendOps st)"
  shows "shrinks st (SendOp_forceDupResend E (snd_id (m_sendOps st ! k)) st)"
  using resendDupMsg_shrinks [OF assms refl] shrinks_refl [OF assms(1)] assms
  by (simp add: SendOp_forceDupResend_def on_send_found)

lemma resendAllUntil_fuel_enough:
  assumes "distinct (send_ids st)" "length (m_sendOps st) - idx < n"
  shows "shrinks st (resendAllUntil_fuel n E i idx st)"
  using assms
proof (induction n arbitrary: idx st)
  case (Suc n)
  show ?case
  proof (cases "idx < length (m_sendOps st)")
    case True
    define st1 where "st1 = SendOp_forceDupResend E (snd_id (m_sendOps st ! idx)) st"
    have s: "shrinks st st1" using forceDupResend_shrinks [OF Suc.prems(1) True] by (simp add: st1_def)
    then have d: "distinct (send_ids st1)" and le: "length (m_sendOps st1) \<le> length (m_sendOps st)"
      and same: "length (m_sendOps st1) = length (m_sendOps st) \<Longrightarrow> send_ids st1 = send_ids st"
      by (simp_all add: shrinks_def)
    have lost: "length (m_sendOps st1) < length (m_sendOps st)"
      if "idx < length (m_sendOps st1)" "snd_id (m_sendOps st1 ! idx) \<noteq> snd_id (m_sendOps st ! idx)"
      using le same that True by (metis le_neq_implies_less nth_map)
    have IH: "shrinks st (resendAllUntil_fuel n E i j st1)" if "length (m_sendOps st1) - j < n" for j
      using Suc.IH [OF d that] s shrinks_trans by blast
    have eq: "resendAllUntil_fuel (Suc n) E i idx st =
        (if snd_id (m_sendOps st ! idx) = i then st1
         else if length (m_sendOps st1) \<le> idx then set_fault IteratorInvalidated st1
         else if snd_id (m_sendOps st1 ! idx) \<noteq> snd_id (m_sendOps st ! idx)
           then resendAllUntil_fuel n E i idx st1
         else resendAllUntil_fuel n E i (idx + 1) st1)"
      using True by (simp add: Let_def st1_def)
    have "shrinks st (set_fault IteratorInvalidated st1)"
      by (rule shrinks_same [OF s]) (simp_all add: set_fault_def split: if_splits)
    moreover have "shrinks st (resendAllUntil_fuel n E i (idx + 1) st1)"
      using le True Suc.prems(2) by (intro IH) linarith
    moreover have "shrinks st (resendAllUntil_fuel n E i idx st1)"
      if "idx < length (m_sendOps st1)" "snd_id (m_sendOps st1 ! idx) \<noteq> snd_id (m_sendOps st ! idx)"
      using lost [OF that] that(1) Suc.prems(2) by (intro IH) linarith
    ultimately show ?thesis unfolding eq using s by (simp add: not_le)
  qed (use Suc.prems shrinks_refl in simp)
qed simp

lemma resendAllUntil_shrinks: "distinct (send_ids st) \<Longrightarrow> shrinks st (resendAllUntil E i st)"
  unfolding resendAllUntil_def by (rule resendAllUntil_fuel_enough) simp_all

end
