(* ===== verification/Recv_Op.thy ===== *)
theory Recv_Op
  imports Send_Op
begin

text \<open>
  Incoming publishes: \<open>op/RecvOp.cpp\<close> and the part of \<open>ClientImpl.cpp\<close> that creates the receiving
  operation of a \<open>PUBLISH\<close>, recognises a duplicate and routes a \<open>PUBREL\<close>.
\<close>

definition reportMsgInfo :: "MessageInfo \<Rightarrow> client \<Rightarrow> client" where
  "reportMsgInfo info st =
     (if has_messageReceivedReportCb st then emit (EvMessageReceivedReport info) st
      else set_fault NullPointer st)"

definition upd_recv :: "op_id \<Rightarrow> (RecvOp \<Rightarrow> RecvOp) \<Rightarrow> client \<Rightarrow> client" where
  "upd_recv i f st = st\<lparr>m_recvOps := upd_by rcv_id i f (m_recvOps st)\<rparr>"

section \<open>The receiving operation\<close>

definition RecvOp_restartResponseTimer :: "env \<Rightarrow> RecvOp \<Rightarrow> client \<Rightarrow> client" where
  "RecvOp_restartResponseTimer E op st =
     (if 2 \<le> MaxQos E
      then on_timers (timerWait (rcv_responseTimer op)
             (ucast (m_responseTimeoutMs (configState st))) RecvOp_recvTimeoutCb (rcv_id op)) st
      else st)"

definition RecvOp_resetTimer :: "env \<Rightarrow> RecvOp \<Rightarrow> client \<Rightarrow> client" where
  "RecvOp_resetTimer E op st =
     (if 2 \<le> MaxQos E then on_timers (timerCancel (rcv_responseTimer op)) st else st)"

definition RecvOp_postReconnectionResume :: "env \<Rightarrow> RecvOp \<Rightarrow> client \<Rightarrow> client" where
  "RecvOp_postReconnectionResume E op st =
     (if 2 \<le> MaxQos E
      then RecvOp_restartResponseTimer E op (RecvOp_connectivityChangedImpl E op st)
      else st)"

definition RecvOp_responseTimeoutInternal :: "env \<Rightarrow> op_id \<Rightarrow> client \<Rightarrow> client" where
  "RecvOp_responseTimeoutInternal E i st =
     (if 2 \<le> MaxQos E
      then on_recv i (\<lambda>op st. opComplete E (Type_Recv, i) (errorLog E st)) st
      else st)"

definition recv_protocolError :: "env \<Rightarrow> client \<Rightarrow> client" where
  "recv_protocolError E st = brokerDisconnected E (Some BDR_ProtocolError) (errorLog E st)"

definition subscribed_topic :: "string list \<Rightarrow> string \<Rightarrow> bool" where
  "subscribed_topic filters topic = list_ex (\<lambda>flt. isTopicMatch flt topic) filters"

definition publish_info :: "PublishMsg \<Rightarrow> MessageInfo" where
  "publish_info m = \<lparr>mi_topic = c_str (pm_topic m), mi_data = pm_payload m, mi_qos = pm_qos m,
     mi_retained = pm_retain m\<rparr>"

text \<open>The report and the acknowledgement of an accepted message (the last part of the handler).\<close>

definition RecvOp_accept :: "env \<Rightarrow> PublishMsg \<Rightarrow> op_id \<Rightarrow> client \<Rightarrow> client" where
  "RecvOp_accept E m i st =
     (if pm_qos m = AtMostOnceDelivery
        then opComplete E (Type_Recv, i) (reportMsgInfo (publish_info m) st)
      else if \<not> pm_hasPacketId m then brokerDisconnected E (Some BDR_ProtocolError) st
      else
        let st1 = reportMsgInfo (publish_info m) st in
        if pm_qos m = AtLeastOnceDelivery
          then opComplete E (Type_Recv, i) (snd (sendMessage E (MPuback (pm_packetId m)) st1))
        else
          let st2 = upd_recv i (\<lambda>op. op\<lparr>rcv_packetId := pm_packetId m\<rparr>) st1;
              st3 = snd (sendMessage E (MPubrec (pm_packetId m)) st2)
          in on_recv i (RecvOp_restartResponseTimer E) st3)"

text \<open>
  \<open>RecvOp::handle(PublishMsg\<and>)\<close>. The guards on \<open>Config::MaxQos\<close> before the acknowledgements hold
  there, since a higher QoS value has been refused.
\<close>

definition RecvOp_handle_Publish :: "env \<Rightarrow> PublishMsg \<Rightarrow> op_id \<Rightarrow> client \<Rightarrow> client" where
  "RecvOp_handle_Publish E m i =
     on_recv i (\<lambda>op st.
       if ExactlyOnceDelivery < pm_qos m then recv_protocolError E st
       else if MaxQos E < pm_qos m then recv_protocolError E st
       else if 2 \<le> MaxQos E \<and> pm_qos m = ExactlyOnceDelivery \<and> rcv_packetId op \<noteq> 0 \<and>
               pm_hasPacketId m
         then if pm_packetId m \<noteq> rcv_packetId op then st
              else RecvOp_restartResponseTimer E op
                     (snd (sendMessage E (MPubrec (rcv_packetId op)) st))
       else if \<not> m_connected (sessionState st) then recv_protocolError E st
       else if pm_topic m = [] then recv_protocolError E st
       else
         let (ok, st1) = Op_verifyPubTopic E (c_str (pm_topic m)) False st in
         if \<not> ok then recv_protocolError E st1
         else if HasSubTopicVerification E \<and> m_verifySubFilter (configState st1) \<and>
                 \<not> subscribed_topic (m_subFilters (reuseState st1)) (pm_topic m)
           then recv_protocolError E st1
         else RecvOp_accept E m i st1)"

definition RecvOp_handle_Pubrel :: "env \<Rightarrow> u16 \<Rightarrow> bool \<Rightarrow> op_id \<Rightarrow> client \<Rightarrow> client" where
  "RecvOp_handle_Pubrel E pid valid i =
     on_recv i (\<lambda>op st.
       if pid \<noteq> rcv_packetId op then st
       else let st1 = on_timers (timerCancel (rcv_responseTimer op)) st in
         if \<not> valid then recv_protocolError E st1
         else opComplete E (Type_Recv, i)
                (snd (sendMessage E (MPubcomp (rcv_packetId op)) st1)))"

definition RecvOp_dispatch :: "env \<Rightarrow> prot_msg \<Rightarrow> op_id \<Rightarrow> client \<Rightarrow> client" where
  "RecvOp_dispatch E msg i =
     (case msg of
        MPublish m \<Rightarrow> RecvOp_handle_Publish E m i
      | MPubrel pid valid \<Rightarrow> if 2 \<le> MaxQos E then RecvOp_handle_Pubrel E pid valid i else id
      | _ \<Rightarrow> id)"

section \<open>Routing\<close>

definition RecvOp_new :: "env \<Rightarrow> client \<Rightarrow> RecvOp \<times> client" where
  "RecvOp_new E st =
     (let (t, st1) = client_allocTimer E st
      in (\<lparr>rcv_id = next_id st1, rcv_responseTimer = t, rcv_packetId = 0\<rparr>,
          st1\<lparr>next_id := next_id st1 + 1\<rparr>))"

definition createRecvOp :: "env \<Rightarrow> PublishMsg \<Rightarrow> client \<Rightarrow> client" where
  "createRecvOp E m st =
     (if vec_full (RecvOpsLimit E) (m_recvOps st) then errorLog E st
      else
        let (op, st1) = RecvOp_new E st;
            st2 = push_op E (Type_Recv, rcv_id op) st1;
            st3 = st2\<lparr>m_recvOps := m_recvOps st2 @ [op]\<rparr>
        in RecvOp_dispatch E (MPublish m) (rcv_id op) st3)"

definition findRecvOp :: "u16 \<Rightarrow> client \<Rightarrow> RecvOp option" where
  "findRecvOp pid st = List.find (\<lambda>op. rcv_packetId op = pid) (m_recvOps st)"

definition ClientImpl_handle_Publish :: "env \<Rightarrow> PublishMsg \<Rightarrow> client \<Rightarrow> client" where
  "ClientImpl_handle_Publish E m st =
     (if m_disconnecting (sessionState st) then st
      else let st1 = dispatch_keepAlives (MPublish m) st in
        if pm_qos m = AtMostOnceDelivery \<or> pm_qos m = AtLeastOnceDelivery then createRecvOp E m st1
        else if 2 \<le> MaxQos E then
          (case findRecvOp (pm_packetId m) st1 of
             None \<Rightarrow> createRecvOp E m st1
           | Some op \<Rightarrow>
               if \<not> pm_dup m then recv_protocolError E st1
               else snd (sendMessage E (MPubrec (pm_packetId m)) (RecvOp_resetTimer E op st1)))
        else createRecvOp E m st1)"

definition ClientImpl_handle_Pubrel :: "env \<Rightarrow> u16 \<Rightarrow> bool \<Rightarrow> client \<Rightarrow> client" where
  "ClientImpl_handle_Pubrel E pid valid st =
     (let st1 = dispatch_keepAlives (MPubrel pid valid) st in
      case findRecvOp pid st1 of
        None \<Rightarrow> errorLog E st1
      | Some op \<Rightarrow> RecvOp_dispatch E (MPubrel pid valid) (rcv_id op) st1)"

end
