(* ===== verification/Sub_Ops.thy ===== *)
theory Sub_Ops
  imports Recv_Op
begin

text \<open>
  Subscription: \<open>op/SubscribeOp.cpp\<close> and \<open>op/UnsubscribeOp.cpp\<close>. The filters the broker has
  confirmed are the sorted vector \<open>ReuseState::m_subFilters\<close>.
\<close>

definition on_subscribe_ret ::
  "op_id \<Rightarrow> 'r \<Rightarrow> (SubscribeOp \<Rightarrow> client \<Rightarrow> 'r \<times> client) \<Rightarrow> client \<Rightarrow> 'r \<times> client" where
  "on_subscribe_ret i r f st = follow_ret Type_Subscribe sub_id (m_subscribeOps st) i r f st"

definition on_unsubscribe_ret ::
  "op_id \<Rightarrow> 'r \<Rightarrow> (UnsubscribeOp \<Rightarrow> client \<Rightarrow> 'r \<times> client) \<Rightarrow> client \<Rightarrow> 'r \<times> client" where
  "on_unsubscribe_ret i r f st = follow_ret Type_Unsubscribe unsub_id (m_unsubscribeOps st) i r f st"

definition upd_subMsg :: "op_id \<Rightarrow> (SubscribeMsg \<Rightarrow> SubscribeMsg) \<Rightarrow> client \<Rightarrow> client" where
  "upd_subMsg i f st =
     st\<lparr>m_subscribeOps := upd_by sub_id i (\<lambda>op. op\<lparr>sub_subMsg := f (sub_subMsg op)\<rparr>)
                            (m_subscribeOps st)\<rparr>"

definition upd_unsubMsg :: "op_id \<Rightarrow> (UnsubscribeMsg \<Rightarrow> UnsubscribeMsg) \<Rightarrow> client \<Rightarrow> client" where
  "upd_unsubMsg i f st =
     st\<lparr>m_unsubscribeOps := upd_by unsub_id i (\<lambda>op. op\<lparr>unsub_unsubMsg := f (unsub_unsubMsg op)\<rparr>)
                              (m_unsubscribeOps st)\<rparr>"

definition set_subFilters :: "string list \<Rightarrow> client \<Rightarrow> client" where
  "set_subFilters fs st = st\<lparr>reuseState := (reuseState st)\<lparr>m_subFilters := fs\<rparr>\<rparr>"

section \<open>Subscribe\<close>

definition SubscribeOp_configTopic ::
  "env \<Rightarrow> SubscribeTopicConfig \<Rightarrow> op_id \<Rightarrow> client \<Rightarrow> ErrorCode \<times> client" where
  "SubscribeOp_configTopic E c i =
     on_subscribe_ret i EC_InternalError (\<lambda>op st.
       if no_str (stc_topic c) then (EC_BadParam, errorLog E st)
       else let (ok, st1) = Op_verifySubFilter E (c_arg (stc_topic c)) st in
         if \<not> ok then (EC_BadParam, errorLog E st1)
         else if MaxQos E < stc_maxQos c then (EC_BadParam, errorLog E st1)
         else if vec_full (subscribe_list_limit E) (sm_list (sub_subMsg op))
           then (EC_OutOfMemory, errorLog E st1)
         else if maxStringLen < length (c_arg (stc_topic c)) then (EC_BadParam, errorLog E st1)
         else (EC_Success,
               upd_subMsg i (\<lambda>m. m\<lparr>sm_list := sm_list m @ [(c_arg (stc_topic c), stc_maxQos c)]\<rparr>) st1))"

definition SubscribeOp_cancel :: "env \<Rightarrow> op_id \<Rightarrow> client \<Rightarrow> ErrorCode \<times> client" where
  "SubscribeOp_cancel E i =
     on_subscribe_ret i EC_InternalError (\<lambda>op st.
       let st1 = (if sub_cb op = None then allowNextPrepare st else st)
       in (EC_Success, opComplete E (Type_Subscribe, i) st1))"

definition SubscribeOp_opTimeoutInternal :: "env \<Rightarrow> op_id \<Rightarrow> client \<Rightarrow> client" where
  "SubscribeOp_opTimeoutInternal E i st = SubscribeOp_completeOpInternal E i ST_Timeout None st"

text \<open>
  The loop of \<open>SubscribeOp::handle\<close> over the return codes and the topics at the same positions.
  Its result is the status the scope guards see and the accumulated codes; the status \<open>Complete\<close>
  stands for a loop that ran to its end. The return codes of the interface are
  \<open>SuccessQos0\<close>, \<open>SuccessQos1\<close>, \<open>SuccessQos2\<close> (0, 1, 2) and \<open>Failure\<close> (128).
\<close>

fun suback_loop ::
  "env \<Rightarrow> bool \<Rightarrow> nat list \<Rightarrow> (string \<times> nat) list \<Rightarrow> nat list \<Rightarrow> string list \<Rightarrow>
     (AsyncOpStatus \<times> nat list) \<times> string list"
where
  "suback_loop E verify (rc # rcs) ((topic, reqQos) # topics) acc filters =
     (if vec_full (suback_list_limit E) acc then ((ST_InternalError, acc), filters)
      else if Suback_Qos2 E < rc \<and> Suback_Failure E \<noteq> rc then ((ST_ProtocolError, acc), filters)
      else if rc \<le> 2 \<and> reqQos < rc then ((ST_ProtocolError, acc), filters)
      else if \<not> rc \<le> 2 \<and> rc \<noteq> 128 then ((ST_ProtocolError, acc), filters)
      else
        let acc' = acc @ [rc] in
        if HasSubTopicVerification E \<and> verify \<and> rc \<le> 2 then
          if lb_found filters topic then suback_loop E verify rcs topics acc' filters
          else if vec_full (SubFiltersLimit E) filters then ((ST_InternalError, acc'), filters)
          else suback_loop E verify rcs topics acc' (lb_insert topic filters)
        else suback_loop E verify rcs topics acc' filters)"
| "suback_loop E verify _ _ acc filters = ((ST_Complete, acc), filters)"

text \<open>The outcome of the handler before its scope guards run.\<close>

definition suback_outcome ::
  "env \<Rightarrow> nat list \<Rightarrow> SubscribeOp \<Rightarrow> client \<Rightarrow> (AsyncOpStatus \<times> nat list) \<times> client" where
  "suback_outcome E codes op st =
     (let topics = sm_list (sub_subMsg op) in
      if length topics \<noteq> length codes then ((ST_ProtocolError, []), errorLog E st)
      else
        let (r, filters) = suback_loop E (m_verifySubFilter (configState st)) codes topics []
              (m_subFilters (reuseState st));
            st1 = set_subFilters filters st
        in (r, if fst r = ST_Complete then st1 else errorLog E st1))"

definition SubscribeOp_handle_Suback :: "env \<Rightarrow> u16 \<Rightarrow> nat list \<Rightarrow> op_id \<Rightarrow> client \<Rightarrow> client" where
  "SubscribeOp_handle_Suback E pid codes i =
     on_subscribe i (\<lambda>op st.
       if pid \<noteq> sm_packetId (sub_subMsg op) then st
       else
         let st1 = on_timers (timerCancel (sub_timer op)) st;
             ((status, acc), st2) = suback_outcome E codes op st1
         in if status = ST_Complete
            then SubscribeOp_completeOpInternal E i ST_Complete (Some acc) st2
            else brokerDisconnected E
                   (Some (if status = ST_InternalError then BDR_InternalError else BDR_ProtocolError))
                   (SubscribeOp_completeOpInternal E i status None st2))"

definition SubscribeOp_dispatch :: "env \<Rightarrow> prot_msg \<Rightarrow> op_id \<Rightarrow> client \<Rightarrow> client" where
  "SubscribeOp_dispatch E msg i =
     (case msg of MSuback pid codes \<Rightarrow> SubscribeOp_handle_Suback E pid codes i | _ \<Rightarrow> id)"

section \<open>Unsubscribe\<close>

definition UnsubscribeOp_configTopic ::
  "env \<Rightarrow> UnsubscribeTopicConfig \<Rightarrow> op_id \<Rightarrow> client \<Rightarrow> ErrorCode \<times> client" where
  "UnsubscribeOp_configTopic E c i =
     on_unsubscribe_ret i EC_InternalError (\<lambda>op st.
       if no_str (utc_topic c) then (EC_BadParam, errorLog E st)
       else let topic = c_arg (utc_topic c); (ok, st1) = Op_verifySubFilter E topic st in
         if \<not> ok then (EC_BadParam, errorLog E st1)
         else if HasSubTopicVerification E \<and> m_verifySubFilter (configState st1) \<and>
                 \<not> lb_found (m_subFilters (reuseState st1)) topic
           then (EC_BadParam, errorLog E st1)
         else if vec_full (unsubscribe_list_limit E) (um_list (unsub_unsubMsg op))
           then (EC_OutOfMemory, errorLog E st1)
         else if maxStringLen < length topic then (EC_BadParam, errorLog E st1)
         else (EC_Success, upd_unsubMsg i (\<lambda>m. m\<lparr>um_list := um_list m @ [topic]\<rparr>) st1))"

definition UnsubscribeOp_cancel :: "env \<Rightarrow> op_id \<Rightarrow> client \<Rightarrow> ErrorCode \<times> client" where
  "UnsubscribeOp_cancel E i =
     on_unsubscribe_ret i EC_InternalError (\<lambda>op st.
       let st1 = (if unsub_cb op = None then allowNextPrepare st else st)
       in (EC_Success, opComplete E (Type_Unsubscribe, i) st1))"

definition UnsubscribeOp_opTimeoutInternal :: "env \<Rightarrow> op_id \<Rightarrow> client \<Rightarrow> client" where
  "UnsubscribeOp_opTimeoutInternal E i st = UnsubscribeOp_completeOpInternal E i ST_Timeout st"

definition unsuback_filters :: "string list \<Rightarrow> string list \<Rightarrow> string list" where
  "unsuback_filters topics filters =
     fold (\<lambda>topic fs. if lb_found fs topic then lb_erase topic fs else fs) topics filters"

definition UnsubscribeOp_handle_Unsuback :: "env \<Rightarrow> u16 \<Rightarrow> op_id \<Rightarrow> client \<Rightarrow> client" where
  "UnsubscribeOp_handle_Unsuback E pid i =
     on_unsubscribe i (\<lambda>op st.
       if pid \<noteq> um_packetId (unsub_unsubMsg op) then st
       else
         let st1 = on_timers (timerCancel (unsub_timer op)) st;
             st2 = (if HasSubTopicVerification E
                    then set_subFilters (unsuback_filters (um_list (unsub_unsubMsg op))
                           (m_subFilters (reuseState st1))) st1
                    else st1)
         in UnsubscribeOp_completeOpInternal E i ST_Complete st2)"

definition UnsubscribeOp_dispatch :: "env \<Rightarrow> prot_msg \<Rightarrow> op_id \<Rightarrow> client \<Rightarrow> client" where
  "UnsubscribeOp_dispatch E msg i =
     (case msg of MUnsuback pid \<Rightarrow> UnsubscribeOp_handle_Unsuback E pid i | _ \<Rightarrow> id)"

end
