(* ===== verification/Connect_Op.thy ===== *)
theory Connect_Op
  imports Sub_Ops
begin

text \<open>
  Connection: \<open>op/ConnectOp.cpp\<close>, the cancellation of \<open>op/DisconnectOp.cpp\<close>, and
  \<open>ClientImpl::brokerConnected\<close>, which takes up or gives up the publishes of an earlier session.
\<close>

definition on_connect_ret ::
  "op_id \<Rightarrow> 'r \<Rightarrow> (ConnectOp \<Rightarrow> client \<Rightarrow> 'r \<times> client) \<Rightarrow> client \<Rightarrow> 'r \<times> client" where
  "on_connect_ret i r f st = follow_ret Type_Connect con_id (m_connectOps st) i r f st"

definition on_disconnect_ret ::
  "op_id \<Rightarrow> 'r \<Rightarrow> (DisconnectOp \<Rightarrow> client \<Rightarrow> 'r \<times> client) \<Rightarrow> client \<Rightarrow> 'r \<times> client" where
  "on_disconnect_ret i r f st = follow_ret Type_Disconnect dis_id (m_disconnectOps st) i r f st"

definition upd_connect :: "op_id \<Rightarrow> (ConnectOp \<Rightarrow> ConnectOp) \<Rightarrow> client \<Rightarrow> client" where
  "upd_connect i f st = st\<lparr>m_connectOps := upd_by con_id i f (m_connectOps st)\<rparr>"

definition DisconnectOp_cancel :: "env \<Rightarrow> op_id \<Rightarrow> client \<Rightarrow> ErrorCode \<times> client" where
  "DisconnectOp_cancel E i =
     on_disconnect_ret i EC_InternalError (\<lambda>op st.
       (EC_Success, opComplete E (Type_Disconnect, i) (allowNextPrepare st)))"

section \<open>Configuration\<close>

text \<open>
  The effect of \<open>ConnectOp::config\<close> on the message; every error path logs one message.
  \<open>clean_only\<close> is the condition that a first connection must ask for a clean session.
\<close>

definition connect_config_msg ::
  "env \<Rightarrow> bool \<Rightarrow> ConnectConfig \<Rightarrow> ConnectMsg \<Rightarrow> ErrorCode \<times> ConnectMsg" where
  "connect_config_msg E clean_only c m =
     (if 0 < cc_passwordLen c \<and> cc_password c = None then (EC_BadParam, m)
      else if 0 < cc_passwordLen c \<and> cc_username c = None then (EC_BadParam, m)
      else if \<not> cc_cleanSession c \<and> clean_only then (EC_BadParam, m)
      else if cc_keepAlive c = 0 then (EC_BadParam, m)
      else let m1 = m\<lparr>cm_clientId := c_arg (cc_clientId c)\<rparr> in
        if maxStringLen < length (cm_clientId m1) then (EC_BadParam, m1\<lparr>cm_clientId := []\<rparr>)
        else if cm_clientId m1 = [] \<and> \<not> cc_cleanSession c then (EC_BadParam, m1)
        else let m2 = m1\<lparr>cm_userNameFlag := (cc_username c \<noteq> None),
                         cm_userName := (case cc_username c of None \<Rightarrow> cm_userName m1
                                         | Some u \<Rightarrow> c_str u)\<rparr> in
          if maxStringLen < length (cm_userName m2) then (EC_BadParam, m2\<lparr>cm_userName := []\<rparr>)
          else let m3 = m2\<lparr>cm_passwordFlag := (0 < cc_passwordLen c),
                           cm_password := (if 0 < cc_passwordLen c
                             then take (cc_passwordLen c) (c_buf (cc_password c))
                             else cm_password m2)\<rparr> in
            if maxStringLen < length (cm_password m3) then (EC_BadParam, m3\<lparr>cm_password := []\<rparr>)
            else let m4 = m3\<lparr>cm_cleanSession := cc_cleanSession c\<rparr> in
              if KeepAlive_max E < cc_keepAlive c then (EC_BadParam, m4)
              else (EC_Success, m4\<lparr>cm_keepAlive := cc_keepAlive c\<rparr>))"

definition must_be_clean :: "client \<Rightarrow> bool" where
  "must_be_clean st = (m_firstConnect (clientState st) \<and> m_verifySubFilter (configState st))"

definition ConnectOp_config :: "env \<Rightarrow> ConnectConfig \<Rightarrow> op_id \<Rightarrow> client \<Rightarrow> ErrorCode \<times> client" where
  "ConnectOp_config E c i =
     on_connect_ret i EC_InternalError (\<lambda>op st.
       let (ec, m) = connect_config_msg E (must_be_clean st) c (con_connectMsg op);
           st1 = upd_connect i (\<lambda>op. op\<lparr>con_connectMsg := m\<rparr>) st
       in (ec, if ec = EC_Success then st1 else errorLog E st1))"

definition will_config_msg ::
  "env \<Rightarrow> ConnectWillConfig \<Rightarrow> ConnectMsg \<Rightarrow> ErrorCode \<times> ConnectMsg" where
  "will_config_msg E c m =
     (if 0 < wc_dataLen c \<and> wc_data c = None then (EC_BadParam, m)
      else if no_str (wc_topic c) then (EC_BadParam, m)
      else if MaxQos E < wc_qos c then (EC_BadParam, m)
      else let m1 = m\<lparr>cm_willTopic := c_arg (wc_topic c)\<rparr> in
        if maxStringLen < length (cm_willTopic m1) then (EC_BadParam, m1\<lparr>cm_willTopic := []\<rparr>)
        else let m2 = m1\<lparr>cm_willMessage := (if 0 < wc_dataLen c
                           then take (wc_dataLen c) (c_buf (wc_data c)) else cm_willMessage m1)\<rparr> in
          if maxStringLen < length (cm_willMessage m2) then (EC_BadParam, m2\<lparr>cm_willMessage := []\<rparr>)
          else (EC_Success, m2\<lparr>cm_willQos := wc_qos c, cm_willRetain := wc_retain c,
                               cm_willFlag := True\<rparr>))"

definition ConnectOp_configWill ::
  "env \<Rightarrow> ConnectWillConfig \<Rightarrow> op_id \<Rightarrow> client \<Rightarrow> ErrorCode \<times> client" where
  "ConnectOp_configWill E c i =
     on_connect_ret i EC_InternalError (\<lambda>op st.
       let (ec, m) = will_config_msg E c (con_connectMsg op);
           st1 = upd_connect i (\<lambda>op. op\<lparr>con_connectMsg := m\<rparr>) st
       in (ec, if ec = EC_Success then st1 else errorLog E st1))"

definition ConnectOp_cancel :: "env \<Rightarrow> op_id \<Rightarrow> client \<Rightarrow> ErrorCode \<times> client" where
  "ConnectOp_cancel E i =
     on_connect_ret i EC_InternalError (\<lambda>op st.
       let st1 = (if con_cb op = None then allowNextPrepare st else st)
       in (EC_Success, opComplete E (Type_Connect, i) st1))"

definition ConnectOp_opTimeoutInternal :: "env \<Rightarrow> op_id \<Rightarrow> client \<Rightarrow> client" where
  "ConnectOp_opTimeoutInternal E i st = ConnectOp_completeOpInternal E i ST_Timeout None st"

section \<open>The session is up\<close>

text \<open>A range-based loop over \<open>m_sendOps\<close>, as \<open>for_ops\<close> is for \<open>m_ops\<close>.\<close>

definition for_sends :: "(op_id \<Rightarrow> client \<Rightarrow> client) \<Rightarrow> client \<Rightarrow> client" where
  "for_sends body st =
     fold (\<lambda>k s. if length (m_sendOps s) \<noteq> length (m_sendOps st)
                 then set_fault IteratorInvalidated s
                 else body (snd_id (m_sendOps s ! k)) s)
       [0..<length (m_sendOps st)] st"

text \<open>The start of the postponed publishes at the end of the list.\<close>

definition resumeFromIdx :: "client \<Rightarrow> nat" where
  "resumeFromIdx st =
     length (m_sendOps st) - length (takeWhile snd_paused (rev (m_sendOps st)))"

definition session_resumed :: "env \<Rightarrow> client \<Rightarrow> client" where
  "session_resumed E st =
     (let st1 = for_sends (SendOp_postReconnectionResend E) st;
          st2 = fold (RecvOp_postReconnectionResume E) (m_recvOps st1) st1
      in if resumeFromIdx st2 < length (m_sendOps st2)
         then resumeSendOpsSince E (resumeFromIdx st2) st2 else st2)"

fun abort_body :: "env \<Rightarrow> op_ptr option \<Rightarrow> client \<Rightarrow> client" where
  "abort_body E None st = set_fault NullPointer st"
| "abort_body E (Some ptr) st =
     (if fst ptr \<noteq> Type_Send \<and> fst ptr \<noteq> Type_Recv then st else terminateOp E ST_Aborted ptr st)"

definition session_dropped :: "env \<Rightarrow> client \<Rightarrow> client" where
  "session_dropped E = for_ops (abort_body E)"

definition session_up :: "client \<Rightarrow> client" where
  "session_up st =
     st\<lparr>clientState := (clientState st)\<lparr>m_firstConnect := False\<rparr>,
        sessionState := (sessionState st)\<lparr>m_connected := True\<rparr>\<rparr>"

definition brokerConnected :: "env \<Rightarrow> bool \<Rightarrow> client \<Rightarrow> client" where
  "brokerConnected E sessionPresent st =
     createKeepAliveOpIfNeeded E
       ((if sessionPresent then session_resumed E else session_dropped E) (session_up st))"

section \<open>The answer of the broker\<close>

definition set_session :: "SessionState \<Rightarrow> client \<Rightarrow> client" where
  "set_session s st = st\<lparr>sessionState := s\<rparr>"

definition keepAlive_ms :: "ConnectMsg \<Rightarrow> u32" where
  "keepAlive_ms m = of_nat (cm_keepAlive m) * 1000"

definition connack_accepted :: "env \<Rightarrow> bool \<Rightarrow> ConnectMsg \<Rightarrow> client \<Rightarrow> client" where
  "connack_accepted E sp m st =
     (let st1 = (if sp then st else st\<lparr>reuseState := ReuseState_init\<rparr>);
          st2 = set_session ((sessionState st1)\<lparr>m_keepAliveMs := keepAlive_ms m\<rparr>) st1
      in brokerConnected E sp st2)"

definition ConnectOp_handle_Connack :: "env \<Rightarrow> bool \<Rightarrow> nat \<Rightarrow> op_id \<Rightarrow> client \<Rightarrow> client" where
  "ConnectOp_handle_Connack E sp rc i =
     on_connect i (\<lambda>op st.
       let st1 = on_timers (timerCancel (con_timer op)) st;
           resp = \<lparr>cr_returnCode = rc, cr_sessionPresent = sp\<rparr>
       in if Connack_ValuesLimit E \<le> rc
            then ConnectOp_completeOpInternal E i ST_ProtocolError None (errorLog E st1)
          else if sp \<and> cm_cleanSession (con_connectMsg op)
            then ConnectOp_completeOpInternal E i ST_ProtocolError None (errorLog E st1)
          else if rc \<noteq> 0
            then ConnectOp_completeOpInternal E i ST_Complete (Some resp)
                   (set_session SessionState_init st1)
          else ConnectOp_completeOpInternal E i ST_Complete (Some resp)
                 (connack_accepted E sp (con_connectMsg op) st1))"

definition ConnectOp_dispatch :: "env \<Rightarrow> prot_msg \<Rightarrow> op_id \<Rightarrow> client \<Rightarrow> client" where
  "ConnectOp_dispatch E msg i =
     (case msg of MConnack sp rc \<Rightarrow> ConnectOp_handle_Connack E sp rc i | _ \<Rightarrow> id)"

end
