(* ===== verification/Client_Api.thy ===== *)
theory Client_Api
  imports Connect_Op
begin

text \<open>
  The entry points of \<open>ClientImpl\<close> and the functions that need them: the timeouts, the guard of the
  interface (\<open>doApiEnter\<close>, \<open>doApiExit\<close>), the dispatch of messages, \<open>processData\<close>, \<open>tick\<close>, the
  \<open>*Prepare\<close> functions, the \<open>send\<close> functions of the operations and the setters.

  The argument \<open>elapsed\<close> is what the application's \<open>cancelNextTickWait\<close> callback returns, should
  it be called.
\<close>

section \<open>Timeouts\<close>

fun run_timeout :: "env \<Rightarrow> timeout_cb \<times> op_id option \<Rightarrow> client \<Rightarrow> client" where
  "run_timeout E (cb, None) st = set_fault NullPointer st"
| "run_timeout E (ConnectOp_opTimeoutCb, Some i) st = ConnectOp_opTimeoutInternal E i st"
| "run_timeout E (KeepAliveOp_sendPingCb, Some i) st = on_keepAlive i (KeepAliveOp_sendPing E) st"
| "run_timeout E (KeepAliveOp_recvTimeoutCb, Some i) st = on_keepAlive i (KeepAliveOp_sendPing E) st"
| "run_timeout E (KeepAliveOp_pingTimeoutCb, Some i) st =
     on_keepAlive i (\<lambda>op. KeepAliveOp_pingTimeoutInternal E) st"
| "run_timeout E (SubscribeOp_opTimeoutCb, Some i) st = SubscribeOp_opTimeoutInternal E i st"
| "run_timeout E (UnsubscribeOp_opTimeoutCb, Some i) st = UnsubscribeOp_opTimeoutInternal E i st"
| "run_timeout E (RecvOp_recvTimeoutCb, Some i) st = RecvOp_responseTimeoutInternal E i st"
| "run_timeout E (SendOp_recvTimeoutCb, Some i) st = SendOp_responseTimeoutInternal E i st"

text \<open>\<open>TimerMgr::tick\<close> on the client's timers: the collection, then the collected callbacks.\<close>

definition TimerMgr_tick :: "env \<Rightarrow> u32 \<Rightarrow> client \<Rightarrow> client" where
  "TimerMgr_tick E ms st =
     (let (cbs, t) = tick_collect ms (timerMgr st)
      in fold (run_timeout E) cbs (st\<lparr>timerMgr := t\<rparr>))"

section \<open>Entering and leaving the interface\<close>

definition doApiEnter :: "env \<Rightarrow> u32 \<Rightarrow> client \<Rightarrow> client" where
  "doApiEnter E elapsed st =
     (let st1 = st\<lparr>m_apiEnterCount := m_apiEnterCount st + 1\<rparr> in
      if 1 < m_apiEnterCount st1 \<or> \<not> has_cancelNextTickWaitCb st1 then st1
      else if getMinWait (timerMgr st1) = 0 then st1
      else TimerMgr_tick E elapsed (emit EvCancelNextTickWait st1))"

definition doApiExit :: "client \<Rightarrow> client" where
  "doApiExit st =
     (let st1 = st\<lparr>m_apiEnterCount := m_apiEnterCount st - 1\<rparr> in
      if 0 < m_apiEnterCount st1 then st1
      else let st2 = cleanOps st1 in
        if \<not> has_nextTickProgramCb st2 then st2
        else let wait = getMinWait (timerMgr st2) in
          if wait = 0 then st2 else emit (EvNextTickProgram wait) st2)"

definition tick :: "env \<Rightarrow> u32 \<Rightarrow> client \<Rightarrow> client" where
  "tick E ms st =
     doApiExit (TimerMgr_tick E ms (st\<lparr>m_apiEnterCount := m_apiEnterCount st + 1\<rparr>))"

definition set_networkDisconnected :: "bool \<Rightarrow> client \<Rightarrow> client" where
  "set_networkDisconnected b st =
     st\<lparr>clientState := (clientState st)\<lparr>m_networkDisconnected := b\<rparr>\<rparr>"

definition notifyNetworkDisconnected :: "env \<Rightarrow> u32 \<Rightarrow> client \<Rightarrow> client" where
  "notifyNetworkDisconnected E elapsed st =
     (let st1 = set_networkDisconnected True (doApiEnter E elapsed st) in
      doApiExit (if m_disconnecting (sessionState st1) then st1
                 else brokerDisconnected E None st1))"

definition isNetworkDisconnected :: "client \<Rightarrow> bool" where
  "isNetworkDisconnected st = m_networkDisconnected (clientState st)"

section \<open>Messages from the broker\<close>

text \<open>The dispatch of a message to one operation, by the operation's dynamic type.\<close>

fun op_dispatch :: "env \<Rightarrow> prot_msg \<Rightarrow> op_ptr \<Rightarrow> client \<Rightarrow> client" where
  "op_dispatch E msg (Type_Connect, i) st = ConnectOp_dispatch E msg i st"
| "op_dispatch E msg (Type_KeepAlive, i) st = on_keepAlive i (KeepAliveOp_dispatch msg) st"
| "op_dispatch E msg (Type_Disconnect, i) st = st"
| "op_dispatch E msg (Type_Subscribe, i) st = SubscribeOp_dispatch E msg i st"
| "op_dispatch E msg (Type_Unsubscribe, i) st = UnsubscribeOp_dispatch E msg i st"
| "op_dispatch E msg (Type_Recv, i) st = RecvOp_dispatch E msg i st"
| "op_dispatch E msg (Type_Send, i) st = SendOp_dispatch E msg i st"

text \<open>\<open>ClientImpl::handle(ProtMessage\<and>)\<close>: the positions are those the vector had at the start.\<close>

fun prot_loop :: "env \<Rightarrow> prot_msg \<Rightarrow> nat list \<Rightarrow> client \<Rightarrow> client" where
  "prot_loop E msg [] st = st"
| "prot_loop E msg (idx # idxs) st =
     (case m_ops st ! idx of
        None \<Rightarrow> prot_loop E msg idxs st
      | Some ptr \<Rightarrow>
          let st1 = op_dispatch E msg ptr st
          in if m_disconnecting (sessionState st1) then st1 else prot_loop E msg idxs st1)"

definition ClientImpl_handle_ProtMessage :: "env \<Rightarrow> prot_msg \<Rightarrow> client \<Rightarrow> client" where
  "ClientImpl_handle_ProtMessage E msg st =
     (if m_disconnecting (sessionState st) then st
      else prot_loop E msg [0..<length (m_ops st)] st)"

fun ClientImpl_dispatch :: "env \<Rightarrow> prot_msg \<Rightarrow> client \<Rightarrow> client" where
  "ClientImpl_dispatch E (MPublish m) st = ClientImpl_handle_Publish E m st"
| "ClientImpl_dispatch E (MPuback pid) st =
     (if 1 \<le> MaxQos E then ClientImpl_handle_Puback E pid st
      else ClientImpl_handle_ProtMessage E (MPuback pid) st)"
| "ClientImpl_dispatch E (MPubrec pid) st =
     (if 2 \<le> MaxQos E then ClientImpl_handle_Pubrec E pid st
      else ClientImpl_handle_ProtMessage E (MPubrec pid) st)"
| "ClientImpl_dispatch E (MPubrel pid valid) st =
     (if 2 \<le> MaxQos E then ClientImpl_handle_Pubrel E pid valid st
      else ClientImpl_handle_ProtMessage E (MPubrel pid valid) st)"
| "ClientImpl_dispatch E (MPubcomp pid) st =
     (if 2 \<le> MaxQos E then ClientImpl_handle_Pubcomp E pid st
      else ClientImpl_handle_ProtMessage E (MPubcomp pid) st)"
| "ClientImpl_dispatch E msg st = ClientImpl_handle_ProtMessage E msg st"

text \<open>
  The loop of \<open>processData\<close>: the bytes not consumed yet, and in the result whether the loop ended by
  \<open>return len\<close>. The number of bytes bounds the number of iterations.
\<close>

fun process_loop :: "nat \<Rightarrow> env \<Rightarrow> bytes \<Rightarrow> nat \<Rightarrow> client \<Rightarrow> bool \<times> nat \<times> client" where
  "process_loop 0 E data consumed st = (False, consumed, set_fault OutOfFuel st)"
| "process_loop (Suc n) E data consumed st =
     (if data = [] then (False, consumed, st)
      else if length data \<le> idAndFlags_len E then (False, consumed, st)
      else case size_read E (drop (idAndFlags_len E) data) of
        RS_NotEnoughData \<Rightarrow> (False, consumed, st)
      | RS_Error \<Rightarrow> (True, consumed + length data, st)
      | RS_Success \<Rightarrow>
          (case frame_read E data of
             FR_NotEnoughData \<Rightarrow> (False, consumed, st)
           | FR_Error \<Rightarrow> (True, consumed + length data, errorLog E st)
           | FR_Msg msg k \<Rightarrow>
               process_loop n E (drop k data) (consumed + k) (ClientImpl_dispatch E msg st)))"

definition processData :: "env \<Rightarrow> u32 \<Rightarrow> bytes \<Rightarrow> client \<Rightarrow> nat \<times> client" where
  "processData E elapsed data st =
     (let st1 = doApiEnter E elapsed st in
      if m_networkDisconnected (clientState st1) then (0, doApiExit (errorLog E st1))
      else
        let (bad, consumed, st2) = process_loop (length data + 1) E data 0 st1;
            st3 = (if bad then brokerDisconnected_st E (Some BDR_ProtocolError) ST_ProtocolError st2
                   else st2)
        in (consumed, doApiExit st3))"

section \<open>Preparation of operations\<close>

definition initInternal :: "env \<Rightarrow> u32 \<Rightarrow> client \<Rightarrow> ErrorCode \<times> client" where
  "initInternal E elapsed st =
     (let st1 = doApiEnter E elapsed st in
      if \<not> has_sendOutputDataCb st1 \<or> \<not> has_brokerDisconnectReportCb st1 \<or>
         \<not> has_messageReceivedReportCb st1
        then (EC_NotIntitialized, doApiExit (errorLog E st1))
      else if has_nextTickProgramCb st1 \<noteq> has_cancelNextTickWaitCb st1
        then (EC_NotIntitialized, doApiExit (errorLog E st1))
      else
        let st2 = terminateOps E ST_Aborted TerminateMode_KeepSendRecvOps st1;
            st3 = set_session SessionState_init st2
        in (EC_Success, doApiExit (st3\<lparr>clientState := (clientState st3)\<lparr>m_initialized := True\<rparr>\<rparr>)))"

definition lock_prepare :: "client \<Rightarrow> client" where
  "lock_prepare st = st\<lparr>m_preparationLocked := True\<rparr>"

definition fresh_id :: "client \<Rightarrow> op_id \<times> client" where
  "fresh_id st = (next_id st, st\<lparr>next_id := next_id st + 1\<rparr>)"

definition refuse :: "env \<Rightarrow> ErrorCode \<Rightarrow> client \<Rightarrow> (op_id option \<times> ErrorCode) \<times> client" where
  "refuse E ec st = ((None, ec), errorLog E st)"

definition ConnectOp_new :: "env \<Rightarrow> client \<Rightarrow> ConnectOp \<times> client" where
  "ConnectOp_new E st =
     (let (t, st1) = client_allocTimer E st; (i, st2) = fresh_id st1
      in (\<lparr>con_id = i, con_responseTimeoutMs = m_responseTimeoutMs (configState st2),
           con_connectMsg = ConnectMsg_init E, con_timer = t, con_cb = None\<rparr>, st2))"

definition connectPrepare_checked ::
  "env \<Rightarrow> client \<Rightarrow> (op_id option \<times> ErrorCode) \<times> client" where
  "connectPrepare_checked E st =
     (if m_connectOps st \<noteq> [] then refuse E EC_Busy st
      else if m_disconnecting (sessionState st) then refuse E EC_Disconnecting st
      else if m_connected (sessionState st) then refuse E EC_AlreadyConnected st
      else if vec_full (OpsLimit E) (m_ops st) then refuse E EC_RetryLater st
      else if m_preparationLocked st then refuse E EC_PreparationLocked st
      else if vec_full (ConnectOpsLimit E) (m_connectOps st) then refuse E EC_OutOfMemory st
      else let (op, st1) = ConnectOp_new E st;
               st2 = push_op E (Type_Connect, con_id op) (lock_prepare st1)
           in ((Some (con_id op), EC_Success), st2\<lparr>m_connectOps := m_connectOps st2 @ [op]\<rparr>))"

definition connectPrepare ::
  "env \<Rightarrow> u32 \<Rightarrow> client \<Rightarrow> (op_id option \<times> ErrorCode) \<times> client" where
  "connectPrepare E elapsed st =
     (let st1 = set_networkDisconnected False st in
      if m_initialized (clientState st1) then connectPrepare_checked E st1
      else if 0 < m_apiEnterCount st1 then refuse E EC_RetryLater st1
      else let (ec, st2) = initInternal E elapsed st1
           in if ec \<noteq> EC_Success then ((None, ec), st2) else connectPrepare_checked E st2)"

definition disconnectPrepare :: "env \<Rightarrow> client \<Rightarrow> (op_id option \<times> ErrorCode) \<times> client" where
  "disconnectPrepare E st =
     (if \<not> m_connected (sessionState st) then refuse E EC_NotConnected st
      else if m_disconnectOps st \<noteq> [] then refuse E EC_Busy st
      else if m_disconnecting (sessionState st) then refuse E EC_Disconnecting st
      else if m_networkDisconnected (clientState st) then refuse E EC_NetworkDisconnected st
      else if vec_full (OpsLimit E) (m_ops st) then refuse E EC_RetryLater st
      else if m_preparationLocked st then refuse E EC_PreparationLocked st
      else if vec_full (DisconnectOpsLimit E) (m_disconnectOps st) then refuse E EC_OutOfMemory st
      else let (i, st1) = fresh_id st;
               st2 = push_op E (Type_Disconnect, i) (lock_prepare st1)
           in ((Some i, EC_Success),
               st2\<lparr>m_disconnectOps := m_disconnectOps st2 @ [\<lparr>dis_id = i\<rparr>]\<rparr>))"

definition SubscribeOp_new :: "env \<Rightarrow> client \<Rightarrow> SubscribeOp \<times> client" where
  "SubscribeOp_new E st =
     (let (t, st1) = client_allocTimer E st; (i, st2) = fresh_id st1
      in (\<lparr>sub_id = i, sub_responseTimeoutMs = m_responseTimeoutMs (configState st2),
           sub_subMsg = SubscribeMsg_init E, sub_timer = t, sub_cb = None\<rparr>, st2))"

definition subscribePrepare :: "env \<Rightarrow> client \<Rightarrow> (op_id option \<times> ErrorCode) \<times> client" where
  "subscribePrepare E st =
     (if \<not> m_connected (sessionState st) then refuse E EC_NotConnected st
      else if m_disconnecting (sessionState st) then refuse E EC_Disconnecting st
      else if m_networkDisconnected (clientState st) then refuse E EC_NetworkDisconnected st
      else if vec_full (OpsLimit E) (m_ops st) then refuse E EC_RetryLater st
      else if m_preparationLocked st then refuse E EC_PreparationLocked st
      else if vec_full (SubscribeOpsLimit E) (m_subscribeOps st) then refuse E EC_OutOfMemory st
      else let (op, st1) = SubscribeOp_new E st;
               st2 = push_op E (Type_Subscribe, sub_id op) (lock_prepare st1)
           in ((Some (sub_id op), EC_Success), st2\<lparr>m_subscribeOps := m_subscribeOps st2 @ [op]\<rparr>))"

definition UnsubscribeOp_new :: "env \<Rightarrow> client \<Rightarrow> UnsubscribeOp \<times> client" where
  "UnsubscribeOp_new E st =
     (let (t, st1) = client_allocTimer E st; (i, st2) = fresh_id st1
      in (\<lparr>unsub_id = i, unsub_responseTimeoutMs = m_responseTimeoutMs (configState st2),
           unsub_unsubMsg = UnsubscribeMsg_init E, unsub_timer = t, unsub_cb = None\<rparr>, st2))"

definition unsubscribePrepare :: "env \<Rightarrow> client \<Rightarrow> (op_id option \<times> ErrorCode) \<times> client" where
  "unsubscribePrepare E st =
     (if \<not> m_connected (sessionState st) then refuse E EC_NotConnected st
      else if m_disconnecting (sessionState st) then refuse E EC_Disconnecting st
      else if m_networkDisconnected (clientState st) then refuse E EC_NetworkDisconnected st
      else if vec_full (OpsLimit E) (m_ops st) then refuse E EC_RetryLater st
      else if m_preparationLocked st then refuse E EC_PreparationLocked st
      else if vec_full (UnsubscribeOpsLimit E) (m_unsubscribeOps st)
        then refuse E EC_OutOfMemory st
      else let (op, st1) = UnsubscribeOp_new E st;
               st2 = push_op E (Type_Unsubscribe, unsub_id op) (lock_prepare st1)
           in ((Some (unsub_id op), EC_Success),
               st2\<lparr>m_unsubscribeOps := m_unsubscribeOps st2 @ [op]\<rparr>))"

definition SendOp_new :: "env \<Rightarrow> client \<Rightarrow> SendOp \<times> client" where
  "SendOp_new E st =
     (let (t, st1) = client_allocTimer E st; (i, st2) = fresh_id st1
      in (\<lparr>snd_id = i, snd_responseTimeoutMs = m_responseTimeoutMs (configState st2),
           snd_responseTimer = t, snd_pubMsg = PublishMsg_init E, snd_cb = None,
           snd_totalSendAttempts = 2, snd_sendAttempts = 0, snd_published = False,
           snd_acked = False, snd_paused = False\<rparr>, st2))"

text \<open>\<open>publishPrepare\<close> allocates the operation before it tests the lock, and destroys it again.\<close>

definition publishPrepare :: "env \<Rightarrow> client \<Rightarrow> (op_id option \<times> ErrorCode) \<times> client" where
  "publishPrepare E st =
     (if \<not> m_connected (sessionState st) then refuse E EC_NotConnected st
      else if m_disconnecting (sessionState st) then refuse E EC_Disconnecting st
      else if m_networkDisconnected (clientState st) then refuse E EC_NetworkDisconnected st
      else if vec_full (OpsLimit E) (m_ops st) then refuse E EC_RetryLater st
      else if vec_full (SendOpsLimit E) (m_sendOps st) then refuse E EC_OutOfMemory st
      else let (op, st1) = SendOp_new E st in
        if m_preparationLocked st1
          then ((None, EC_PreparationLocked),
                on_timers (Timer_destroy (snd_responseTimer op))
                  (client_releasePacketId (pm_packetId (snd_pubMsg op)) (errorLog E st1)))
        else let st2 = push_op E (Type_Send, snd_id op) (lock_prepare st1)
             in ((Some (snd_id op), EC_Success), st2\<lparr>m_sendOps := m_sendOps st2 @ [op]\<rparr>))"

section \<open>Sending of prepared operations\<close>

definition ConnectOp_restartTimer :: "ConnectOp \<Rightarrow> client \<Rightarrow> client" where
  "ConnectOp_restartTimer op st =
     on_timers (timerWait (con_timer op) (ucast (con_responseTimeoutMs op))
       ConnectOp_opTimeoutCb (con_id op)) st"

definition ConnectOp_send :: "env \<Rightarrow> u32 \<Rightarrow> app_cb option \<Rightarrow> op_id \<Rightarrow> client \<Rightarrow> ErrorCode \<times> client"
where
  "ConnectOp_send E elapsed cb i =
     on_connect_ret i EC_InternalError (\<lambda>op st.
       let st1 = allowNextPrepare st; fail = (\<lambda>ec s. (ec, opComplete E (Type_Connect, i) s)) in
       if cb = None then fail EC_BadParam (errorLog E st1)
       else if \<not> Timer_isValid (con_timer op) then fail EC_InternalError (errorLog E st1)
       else if \<not> cm_cleanSession (con_connectMsg op) \<and> must_be_clean st1
         then fail EC_InsufficientConfig (errorLog E st1)
       else
         let msg = connect_refresh E (con_connectMsg op);
             st2 = upd_connect i (\<lambda>op. op\<lparr>con_cb := cb, con_connectMsg := msg\<rparr>) st1;
             (result, st3) = sendMessage E (MConnect msg) st2
         in if result \<noteq> EC_Success then fail result st3
            else (EC_Success,
                  doApiExit (on_connect i ConnectOp_restartTimer (doApiEnter E elapsed st3))))"

definition SubscribeOp_restartTimer :: "SubscribeOp \<Rightarrow> client \<Rightarrow> client" where
  "SubscribeOp_restartTimer op st =
     on_timers (timerWait (sub_timer op) (ucast (sub_responseTimeoutMs op))
       SubscribeOp_opTimeoutCb (sub_id op)) st"

definition upd_subscribe :: "op_id \<Rightarrow> (SubscribeOp \<Rightarrow> SubscribeOp) \<Rightarrow> client \<Rightarrow> client" where
  "upd_subscribe i f st = st\<lparr>m_subscribeOps := upd_by sub_id i f (m_subscribeOps st)\<rparr>"

definition SubscribeOp_send ::
  "env \<Rightarrow> u32 \<Rightarrow> app_cb option \<Rightarrow> op_id \<Rightarrow> client \<Rightarrow> ErrorCode \<times> client" where
  "SubscribeOp_send E elapsed cb i =
     on_subscribe_ret i EC_InternalError (\<lambda>op st.
       let st1 = allowNextPrepare st; fail = (\<lambda>ec s. (ec, opComplete E (Type_Subscribe, i) s)) in
       if cb = None then fail EC_BadParam (errorLog E st1)
       else if sm_list (sub_subMsg op) = [] then fail EC_InsufficientConfig (errorLog E st1)
       else if \<not> Timer_isValid (sub_timer op) then fail EC_InternalError (errorLog E st1)
       else
         let (pid, st2) = client_allocPacketId E st1;
             msg = (sub_subMsg op)\<lparr>sm_packetId := pid\<rparr>;
             st3 = upd_subscribe i (\<lambda>op. op\<lparr>sub_cb := cb, sub_subMsg := msg\<rparr>) st2;
             (result, st4) = sendMessage E (MSubscribe msg) st3
         in if result \<noteq> EC_Success then fail result st4
            else (EC_Success,
                  doApiExit (on_subscribe i SubscribeOp_restartTimer (doApiEnter E elapsed st4))))"

definition UnsubscribeOp_restartTimer :: "UnsubscribeOp \<Rightarrow> client \<Rightarrow> client" where
  "UnsubscribeOp_restartTimer op st =
     on_timers (timerWait (unsub_timer op) (ucast (unsub_responseTimeoutMs op))
       UnsubscribeOp_opTimeoutCb (unsub_id op)) st"

definition upd_unsubscribe :: "op_id \<Rightarrow> (UnsubscribeOp \<Rightarrow> UnsubscribeOp) \<Rightarrow> client \<Rightarrow> client" where
  "upd_unsubscribe i f st = st\<lparr>m_unsubscribeOps := upd_by unsub_id i f (m_unsubscribeOps st)\<rparr>"

definition UnsubscribeOp_send ::
  "env \<Rightarrow> u32 \<Rightarrow> app_cb option \<Rightarrow> op_id \<Rightarrow> client \<Rightarrow> ErrorCode \<times> client" where
  "UnsubscribeOp_send E elapsed cb i =
     on_unsubscribe_ret i EC_InternalError (\<lambda>op st.
       let st1 = allowNextPrepare st; fail = (\<lambda>ec s. (ec, opComplete E (Type_Unsubscribe, i) s)) in
       if cb = None then fail EC_BadParam (errorLog E st1)
       else if um_list (unsub_unsubMsg op) = [] then fail EC_InsufficientConfig (errorLog E st1)
       else if \<not> Timer_isValid (unsub_timer op) then fail EC_InternalError (errorLog E st1)
       else
         let (pid, st2) = client_allocPacketId E st1;
             msg = (unsub_unsubMsg op)\<lparr>um_packetId := pid\<rparr>;
             st3 = upd_unsubscribe i (\<lambda>op. op\<lparr>unsub_cb := cb, unsub_unsubMsg := msg\<rparr>) st2;
             (result, st4) = sendMessage E (MUnsubscribe msg) st3
         in if result \<noteq> EC_Success then fail result st4
            else (EC_Success,
                  doApiExit (on_unsubscribe i UnsubscribeOp_restartTimer
                    (doApiEnter E elapsed st4))))"

text \<open>
  In \<open>DisconnectOp::send\<close> the guard is entered while the operation exists, and the operation is
  used again afterwards.
\<close>

definition DisconnectOp_send :: "env \<Rightarrow> u32 \<Rightarrow> op_id \<Rightarrow> client \<Rightarrow> ErrorCode \<times> client" where
  "DisconnectOp_send E elapsed i =
     on_disconnect_ret i EC_InternalError (\<lambda>op st.
       let st1 = doApiEnter E elapsed (allowNextPrepare st);
           st2 = on_disconnect i (\<lambda>op st.
                   let s1 = snd (sendMessage E MDisconnect st)
                   in brokerDisconnected E None (opComplete E (Type_Disconnect, i) s1)) st1
       in (EC_Success, doApiExit st2))"

text \<open>\<open>SendOp::send\<close> before the message goes out: callback, packet identifier, \<open>doRefresh\<close>.\<close>

definition SendOp_assign ::
  "env \<Rightarrow> app_cb option \<Rightarrow> SendOp \<Rightarrow> client \<Rightarrow> SendOp \<times> client" where
  "SendOp_assign E cb op st =
     (let (msg, st1) = (if AtMostOnceDelivery < pm_qos (snd_pubMsg op)
                        then let (pid, s) = client_allocPacketId E st
                             in ((snd_pubMsg op)\<lparr>pm_packetId := pid\<rparr>, s)
                        else (snd_pubMsg op, st));
          op' = op\<lparr>snd_cb := cb, snd_pubMsg := publish_refresh E msg\<rparr>
      in (op', upd_send (snd_id op) (\<lambda>_. op') st1))"

definition SendOp_send ::
  "env \<Rightarrow> u32 \<Rightarrow> app_cb option \<Rightarrow> op_id \<Rightarrow> client \<Rightarrow> ErrorCode \<times> client" where
  "SendOp_send E elapsed cb i =
     on_send_ret i EC_InternalError (\<lambda>op st.
       let st1 = allowNextPrepare st; fail = (\<lambda>ec s. (ec, opComplete E (Type_Send, i) s)) in
       if \<not> Timer_isValid (snd_responseTimer op) then fail EC_InternalError (errorLog E st1)
       else if pm_topic (snd_pubMsg op) = [] then fail EC_InsufficientConfig (errorLog E st1)
       else
         let (op', st2) = SendOp_assign E cb op st1 in
         if \<not> SendOp_canSend op' st2
           then (EC_Success, upd_send i (\<lambda>op. op\<lparr>snd_paused := True\<rparr>) st2)
         else
           let (result, st3) = SendOp_doSendInternal E i (doApiEnter E elapsed st2);
               st4 = doApiExit st3
           in if result \<noteq> EC_Success then fail result st4 else (EC_Success, st4))"

section \<open>Setters\<close>

definition setPublishOrdering :: "env \<Rightarrow> PublishOrdering \<Rightarrow> client \<Rightarrow> ErrorCode \<times> client" where
  "setPublishOrdering E val st =
     (if val = PO_ValuesLimit then (EC_BadParam, errorLog E st)
      else (EC_Success, st\<lparr>configState := (configState st)\<lparr>m_publishOrdering := val\<rparr>\<rparr>))"

definition getPublishOrdering :: "client \<Rightarrow> PublishOrdering" where
  "getPublishOrdering st = m_publishOrdering (configState st)"

definition sendsCount :: "client \<Rightarrow> nat" where
  "sendsCount st = length (m_sendOps st)"

text \<open>The argument tells whether the callback pointer is not null.\<close>

definition setNextTickProgramCallback :: "bool \<Rightarrow> client \<Rightarrow> client" where
  "setNextTickProgramCallback cb st = (if cb then st\<lparr>has_nextTickProgramCb := True\<rparr> else st)"

definition setCancelNextTickWaitCallback :: "bool \<Rightarrow> client \<Rightarrow> client" where
  "setCancelNextTickWaitCallback cb st = (if cb then st\<lparr>has_cancelNextTickWaitCb := True\<rparr> else st)"

definition setSendOutputDataCallback :: "bool \<Rightarrow> client \<Rightarrow> client" where
  "setSendOutputDataCallback cb st = (if cb then st\<lparr>has_sendOutputDataCb := True\<rparr> else st)"

definition setBrokerDisconnectReportCallback :: "bool \<Rightarrow> client \<Rightarrow> client" where
  "setBrokerDisconnectReportCallback cb st =
     (if cb then st\<lparr>has_brokerDisconnectReportCb := True\<rparr> else st)"

definition setMessageReceivedCallback :: "bool \<Rightarrow> client \<Rightarrow> client" where
  "setMessageReceivedCallback cb st =
     (if cb then st\<lparr>has_messageReceivedReportCb := True\<rparr> else st)"

definition setErrorLogCallback :: "bool \<Rightarrow> client \<Rightarrow> client" where
  "setErrorLogCallback cb st = st\<lparr>has_errorLogCb := cb\<rparr>"

text \<open>\<open>Op::setResponseTimeout\<close> on each kind of operation the interface offers it for.\<close>

definition ConnectOp_setResponseTimeout :: "u32 \<Rightarrow> op_id \<Rightarrow> client \<Rightarrow> client" where
  "ConnectOp_setResponseTimeout ms i =
     on_connect i (\<lambda>_. upd_connect i (\<lambda>op. op\<lparr>con_responseTimeoutMs := ms\<rparr>))"

definition SubscribeOp_setResponseTimeout :: "u32 \<Rightarrow> op_id \<Rightarrow> client \<Rightarrow> client" where
  "SubscribeOp_setResponseTimeout ms i =
     on_subscribe i (\<lambda>_. upd_subscribe i (\<lambda>op. op\<lparr>sub_responseTimeoutMs := ms\<rparr>))"

definition UnsubscribeOp_setResponseTimeout :: "u32 \<Rightarrow> op_id \<Rightarrow> client \<Rightarrow> client" where
  "UnsubscribeOp_setResponseTimeout ms i =
     on_unsubscribe i (\<lambda>_. upd_unsubscribe i (\<lambda>op. op\<lparr>unsub_responseTimeoutMs := ms\<rparr>))"

definition SendOp_setResponseTimeout :: "u32 \<Rightarrow> op_id \<Rightarrow> client \<Rightarrow> client" where
  "SendOp_setResponseTimeout ms i =
     on_send i (\<lambda>_. upd_send i (\<lambda>op. op\<lparr>snd_responseTimeoutMs := ms\<rparr>))"

definition ClientImpl_destroy :: "env \<Rightarrow> client \<Rightarrow> client" where
  "ClientImpl_destroy E st = terminateOps E ST_Aborted TerminateMode_AbortSendRecvOps st"

section \<open>Settings of the C interface\<close>

text \<open>The functions of \<open>templ/client.cpp.templ\<close> that write the configuration directly.\<close>

definition set_default_response_timeout :: "u32 \<Rightarrow> client \<Rightarrow> ErrorCode \<times> client" where
  "set_default_response_timeout ms st =
     (if ms = 0 then (EC_BadParam, st)
      else (EC_Success, st\<lparr>configState := (configState st)\<lparr>m_responseTimeoutMs := ms\<rparr>\<rparr>))"

definition set_verify_outgoing_topic_enabled :: "env \<Rightarrow> bool \<Rightarrow> client \<Rightarrow> ErrorCode \<times> client" where
  "set_verify_outgoing_topic_enabled E enabled st =
     (if HasTopicFormatVerification E
      then (EC_Success, st\<lparr>configState := (configState st)\<lparr>m_verifyOutgoingTopic := enabled\<rparr>\<rparr>)
      else (EC_NotSupported, st))"

definition set_verify_incoming_topic_enabled :: "env \<Rightarrow> bool \<Rightarrow> client \<Rightarrow> ErrorCode \<times> client" where
  "set_verify_incoming_topic_enabled E enabled st =
     (if HasTopicFormatVerification E
      then (EC_Success, st\<lparr>configState := (configState st)\<lparr>m_verifyIncomingTopic := enabled\<rparr>\<rparr>)
      else (EC_NotSupported, st))"

definition set_verify_incoming_msg_subscribed :: "env \<Rightarrow> bool \<Rightarrow> client \<Rightarrow> ErrorCode \<times> client" where
  "set_verify_incoming_msg_subscribed E enabled st =
     (if HasSubTopicVerification E
      then (EC_Success, st\<lparr>configState := (configState st)\<lparr>m_verifySubFilter := enabled\<rparr>\<rparr>)
      else (EC_NotSupported, st))"

section \<open>Calls of the application\<close>

text \<open>
  What an application can do with a client. The numbers in the calls on operations are the handles;
  a handle the application keeps after its operation is gone is followed all the same.
\<close>

datatype call =
    CTick u32 | CProcessData u32 bytes | CNetworkDisconnected u32
  | CConnectPrepare u32 | CConnectConfig ConnectConfig op_id | CConnectConfigWill ConnectWillConfig op_id
  | CConnectTimeout u32 op_id | CConnectSend u32 "app_cb option" op_id | CConnectCancel op_id
  | CDisconnectPrepare | CDisconnectSend u32 op_id | CDisconnectCancel op_id
  | CSubscribePrepare | CSubscribeConfig SubscribeTopicConfig op_id | CSubscribeTimeout u32 op_id
  | CSubscribeSend u32 "app_cb option" op_id | CSubscribeCancel op_id
  | CUnsubscribePrepare | CUnsubscribeConfig UnsubscribeTopicConfig op_id | CUnsubscribeTimeout u32 op_id
  | CUnsubscribeSend u32 "app_cb option" op_id | CUnsubscribeCancel op_id
  | CPublishPrepare | CPublishConfig PublishConfig op_id | CPublishTimeout u32 op_id
  | CPublishAttempts u32 op_id | CPublishSend u32 "app_cb option" op_id | CPublishCancel op_id
  | CPublishOrdering PublishOrdering | CDefaultTimeout u32
  | CVerifyOutgoing bool | CVerifyIncoming bool | CVerifySubscribed bool
  | CNextTickProgramCb bool | CCancelNextTickWaitCb bool | CSendOutputDataCb bool
  | CBrokerDisconnectCb bool | CMessageReceivedCb bool | CErrorLogCb bool

fun run_call :: "env \<Rightarrow> call \<Rightarrow> client \<Rightarrow> client" where
  "run_call E (CTick ms) st = tick E ms st"
| "run_call E (CProcessData el data) st = snd (processData E el data st)"
| "run_call E (CNetworkDisconnected el) st = notifyNetworkDisconnected E el st"
| "run_call E (CConnectPrepare el) st = snd (connectPrepare E el st)"
| "run_call E (CConnectConfig c i) st = snd (ConnectOp_config E c i st)"
| "run_call E (CConnectConfigWill c i) st = snd (ConnectOp_configWill E c i st)"
| "run_call E (CConnectTimeout ms i) st = ConnectOp_setResponseTimeout ms i st"
| "run_call E (CConnectSend el cb i) st = snd (ConnectOp_send E el cb i st)"
| "run_call E (CConnectCancel i) st = snd (ConnectOp_cancel E i st)"
| "run_call E CDisconnectPrepare st = snd (disconnectPrepare E st)"
| "run_call E (CDisconnectSend el i) st = snd (DisconnectOp_send E el i st)"
| "run_call E (CDisconnectCancel i) st = snd (DisconnectOp_cancel E i st)"
| "run_call E CSubscribePrepare st = snd (subscribePrepare E st)"
| "run_call E (CSubscribeConfig c i) st = snd (SubscribeOp_configTopic E c i st)"
| "run_call E (CSubscribeTimeout ms i) st = SubscribeOp_setResponseTimeout ms i st"
| "run_call E (CSubscribeSend el cb i) st = snd (SubscribeOp_send E el cb i st)"
| "run_call E (CSubscribeCancel i) st = snd (SubscribeOp_cancel E i st)"
| "run_call E CUnsubscribePrepare st = snd (unsubscribePrepare E st)"
| "run_call E (CUnsubscribeConfig c i) st = snd (UnsubscribeOp_configTopic E c i st)"
| "run_call E (CUnsubscribeTimeout ms i) st = UnsubscribeOp_setResponseTimeout ms i st"
| "run_call E (CUnsubscribeSend el cb i) st = snd (UnsubscribeOp_send E el cb i st)"
| "run_call E (CUnsubscribeCancel i) st = snd (UnsubscribeOp_cancel E i st)"
| "run_call E CPublishPrepare st = snd (publishPrepare E st)"
| "run_call E (CPublishConfig c i) st = snd (SendOp_config E c i st)"
| "run_call E (CPublishTimeout ms i) st = SendOp_setResponseTimeout ms i st"
| "run_call E (CPublishAttempts n i) st = snd (SendOp_setResendAttempts E n i st)"
| "run_call E (CPublishSend el cb i) st = snd (SendOp_send E el cb i st)"
| "run_call E (CPublishCancel i) st = snd (SendOp_cancel E i st)"
| "run_call E (CPublishOrdering po) st = snd (setPublishOrdering E po st)"
| "run_call E (CDefaultTimeout ms) st = snd (set_default_response_timeout ms st)"
| "run_call E (CVerifyOutgoing b) st = snd (set_verify_outgoing_topic_enabled E b st)"
| "run_call E (CVerifyIncoming b) st = snd (set_verify_incoming_topic_enabled E b st)"
| "run_call E (CVerifySubscribed b) st = snd (set_verify_incoming_msg_subscribed E b st)"
| "run_call E (CNextTickProgramCb b) st = setNextTickProgramCallback b st"
| "run_call E (CCancelNextTickWaitCb b) st = setCancelNextTickWaitCallback b st"
| "run_call E (CSendOutputDataCb b) st = setSendOutputDataCallback b st"
| "run_call E (CBrokerDisconnectCb b) st = setBrokerDisconnectReportCallback b st"
| "run_call E (CMessageReceivedCb b) st = setMessageReceivedCallback b st"
| "run_call E (CErrorLogCb b) st = setErrorLogCallback b st"

section \<open>Calls from inside callbacks\<close>

text \<open>
  An application may call the client again from inside a callback. A completion callback and the
  report of the broker's loss come last in the handling of a message: the operations that are still
  to see the message do nothing with an acknowledgement that is not theirs, and new operations do not see it.
  What the application does in the last callback of a message is therefore run when the message has been
  dispatched, before the next one is read. Not covered are calls from inside the report of a received message,
  after which the message is still to be acknowledged, and from inside the callbacks of the other
  entry points.
\<close>

fun ends_handling :: "event \<Rightarrow> bool" where
  "ends_handling (EvConnectComplete _ _ _ _) = True"
| "ends_handling (EvSubscribeComplete _ _ _ _) = True"
| "ends_handling (EvUnsubscribeComplete _ _ _) = True"
| "ends_handling (EvPublishComplete _ _ _) = True"
| "ends_handling (EvBrokerDisconnectReport _) = True"
| "ends_handling _ = False"

definition react_to :: "env \<Rightarrow> (event \<Rightarrow> call list) \<Rightarrow> client \<Rightarrow> client \<Rightarrow> client" where
  "react_to E react before st =
     (if length (out before) < length (out st) \<and> ends_handling (last (out st))
      then fold (run_call E) (react (last (out st))) st else st)"

fun process_loop_with ::
  "nat \<Rightarrow> env \<Rightarrow> (event \<Rightarrow> call list) \<Rightarrow> bytes \<Rightarrow> nat \<Rightarrow> client \<Rightarrow> bool \<times> nat \<times> client" where
  "process_loop_with 0 E react data consumed st = (False, consumed, set_fault OutOfFuel st)"
| "process_loop_with (Suc n) E react data consumed st =
     (if data = [] then (False, consumed, st)
      else if length data \<le> idAndFlags_len E then (False, consumed, st)
      else case size_read E (drop (idAndFlags_len E) data) of
        RS_NotEnoughData \<Rightarrow> (False, consumed, st)
      | RS_Error \<Rightarrow> (True, consumed + length data, st)
      | RS_Success \<Rightarrow>
          (case frame_read E data of
             FR_NotEnoughData \<Rightarrow> (False, consumed, st)
           | FR_Error \<Rightarrow> (True, consumed + length data, errorLog E st)
           | FR_Msg msg k \<Rightarrow>
               process_loop_with n E react (drop k data) (consumed + k)
                 (react_to E react st (ClientImpl_dispatch E msg st))))"

definition processData_with ::
  "env \<Rightarrow> (event \<Rightarrow> call list) \<Rightarrow> u32 \<Rightarrow> bytes \<Rightarrow> client \<Rightarrow> nat \<times> client" where
  "processData_with E react elapsed data st =
     (let st1 = doApiEnter E elapsed st in
      if m_networkDisconnected (clientState st1) then (0, doApiExit (errorLog E st1))
      else
        let (bad, consumed, st2) = process_loop_with (length data + 1) E react data 0 st1;
            st3 = (if bad then brokerDisconnected_st E (Some BDR_ProtocolError) ST_ProtocolError st2
                   else st2)
        in (consumed, doApiExit st3))"

text \<open>An application that does nothing there.\<close>

lemma process_loop_with_none:
  "process_loop_with n E (\<lambda>_. []) data c st = process_loop n E data c st"
  by (induction n arbitrary: data c st)
    (auto simp: react_to_def simp del: ClientImpl_dispatch.simps split: read_status.split frame_result.split)

lemma processData_with_none: "processData_with E (\<lambda>_. []) = processData E"
  by (intro ext) (simp only: processData_with_def processData_def process_loop_with_none)

text \<open>The states an application can bring a client to.\<close>

inductive client_reach :: "env \<Rightarrow> client \<Rightarrow> bool" for E where
  reach_init: "client_reach E (ClientImpl_init E)"
| reach_call: "client_reach E st \<Longrightarrow> client_reach E (run_call E c st)"
| reach_data: "client_reach E st \<Longrightarrow> client_reach E (snd (processData_with E react el data st))"

text \<open>A session of the application: a list of calls on a new client.\<close>

definition run_calls :: "env \<Rightarrow> call list \<Rightarrow> client" where
  "run_calls E cs = fold (run_call E) cs (ClientImpl_init E)"

lemma run_calls_reach: "client_reach E (run_calls E cs)"
proof -
  have "client_reach E st \<Longrightarrow> client_reach E (fold (run_call E) cs st)" for st
    by (induction cs arbitrary: st) (simp_all add: reach_call)
  then show ?thesis by (simp add: run_calls_def reach_init)
qed

end
