(* ===== verification/Client_Inv.thy ===== *)
theory Client_Inv
  imports Client_Api
begin

text \<open>
  The invariants of the client: the registry of operations is consistent, every timer slot and
  every packet identifier has at most one owner among the live operations, a running timer calls
  back the operation that owns it, and the confirmed filters are sorted. They are shown for a small
  set of atomic steps; \<open>Client_Steps\<close> decomposes every operation of the model into these.
\<close>

section \<open>Ownership of timers\<close>

type_synonym slots = "timer_slot list"

definition tm_own :: "timers \<Rightarrow> slots \<Rightarrow> bool" where
  "tm_own tm S \<longleftrightarrow> timers_wf tm \<and> slots.holds tm (filter Timer_isValid (map fst S)) \<and>
     (\<forall>k < length (m_timers tm). \<not> Timer_isValid k \<longrightarrow> k \<in> allocated_idx tm) \<and>
     (\<forall>k < length (m_timers tm). \<forall>cb. Timer_isValid k \<longrightarrow> m_timeoutCb (m_timers tm ! k) = Some cb \<longrightarrow>
        (\<exists>i. m_timeoutData (m_timers tm ! k) = Some i \<and> (k, cb, i) \<in> set S)) \<and>
     (\<forall>k \<in> allocated_idx tm. Timer_isValid k \<longrightarrow> k \<in> set (map fst S))"

lemma tm_own_perm:
  assumes "mset S = mset S'" "tm_own tm S"
  shows "tm_own tm S'"
proof -
  have "mset (filter Timer_isValid (map fst S)) = mset (filter Timer_isValid (map fst S'))"
    by (simp add: assms(1))
  from slots.holds_perm [OF this, of tm] mset_eq_setD [OF assms(1)] assms(2) show ?thesis
    by (simp add: tm_own_def)
qed

text \<open>A change that starts no timer and keeps the slots.\<close>

definition quiet :: "timers \<Rightarrow> timers \<Rightarrow> bool" where
  "quiet tm tm' \<longleftrightarrow> (timers_wf tm \<longrightarrow> timers_wf tm') \<and> allocated_idx tm' = allocated_idx tm \<and>
     length (m_timers tm') = length (m_timers tm) \<and>
     (\<forall>k < length (m_timers tm). m_timeoutCb (m_timers tm' ! k) = None \<or>
        m_timeoutCb (m_timers tm' ! k) = m_timeoutCb (m_timers tm ! k) \<and>
        m_timeoutData (m_timers tm' ! k) = m_timeoutData (m_timers tm ! k))"

lemma tm_own_quiet: "tm_own tm S \<Longrightarrow> quiet tm tm' \<Longrightarrow> tm_own tm' S"
  by (auto simp: tm_own_def quiet_def slots.holds_def)

lemma tm_own_wait:
  assumes "tm_own tm S" "(k, cb, i) \<in> set S"
  shows "tm_own (timerWait k d cb i tm) S"
proof -
  have "k \<in> allocated_idx tm \<or> length (m_timers tm) \<le> k"
  proof (cases "Timer_isValid k")
    case True
    have "k \<in> set (map fst S)" using assms(2) by force
    then show ?thesis using True assms(1) by (simp add: tm_own_def slots.holds_def subset_iff)
  qed (use assms(1) in \<open>auto simp: tm_own_def not_le\<close>)
  then have "timers_wf (timerWait k d cb i tm)"
    using assms(1) timers_wf_wait [of tm k d cb i] timerWait_def [of k d cb i tm]
    by (auto simp: tm_own_def)
  moreover have "allocated_idx (timerWait k d cb i tm) = allocated_idx tm"
    by (simp add: timer_simps)
  ultimately show ?thesis
    using assms by (auto simp: tm_own_def slots.holds_def timerWait_def nth_list_update)
qed


lemma quiet_cancel: "quiet tm (timerCancel k tm)"
  by (auto simp: quiet_def timer_simps)
    (auto simp: timerCancel_def cancel_info_def nth_list_update split: if_splits)

lemma quiet_suspend: "quiet tm (Timer_setSuspended k b tm)"
proof -
  have "timers_wf (Timer_setSuspended k b tm)" if "timers_wf tm"
  proof (cases "timerIsActive k tm")
    case True
    then have "k < length (m_timers tm)" "m_timeoutCb (m_timers tm ! k) \<noteq> None"
      by (auto simp: timerIsActive_def split: if_splits)
    then have "k \<in> allocated_idx tm"
      using info_wf_nth [OF that, of k] by (auto simp: info_wf_def TimerInfo_init_def allocated_idx_def)
    then show ?thesis using that by (simp add: timer_simps)
  qed (use that in \<open>simp add: Timer_setSuspended_def\<close>)
  then show ?thesis
    by (auto simp: quiet_def timer_simps)
      (auto simp: Timer_setSuspended_def timerSetSuspended_def nth_list_update split: if_splits)
qed

lemma quiet_tick: "quiet tm (snd (tick_collect ms tm))"
  by (auto simp: quiet_def timer_simps)
    (auto simp: tick_collect_eq allocated_idx_def tick_info_def cancel_info_def split: if_splits)

lemma tm_own_alloc:
  assumes "tm_own tm S" "allocTimer lim tm = (k, tm')"
  shows "tm_own tm' ((k, cb, i) # S)"
proof -
  have wf: "timers_wf tm" using assms(1) by (simp add: tm_own_def)
  from wf assms(2) show ?thesis
  proof (cases rule: allocTimer_cases)
    case full
    then show ?thesis using assms(1) by (auto simp: tm_own_def Timer_isValid_def)
  next
    case fresh
    have idx: "j < length (m_timers tm)" if "j < length (m_timers tm')" "j \<noteq> k" for j
      using fresh that by auto
    have "k \<notin> set (filter Timer_isValid (map fst S))"
      using fresh(1) assms(1) by (auto simp: tm_own_def slots.holds_def)
    then have "slots.holds tm' (filter Timer_isValid (map fst ((k, cb, i) # S)))"
      using assms(1) fresh by (auto simp: tm_own_def slots.holds_def)
    moreover have "\<forall>j < length (m_timers tm'). \<not> Timer_isValid j \<longrightarrow> j \<in> allocated_idx tm'"
      using assms(1) fresh idx by (metis insert_iff tm_own_def)
    moreover have "\<exists>i'. m_timeoutData (m_timers tm' ! j) = Some i' \<and> (j, c, i') \<in> set ((k, cb, i) # S)"
      if "j < length (m_timers tm')" "Timer_isValid j" "m_timeoutCb (m_timers tm' ! j) = Some c" for j c
    proof (cases "j = k")
      case True
      with fresh that(3) show ?thesis by (simp add: TimerInfo_init_def)
    next
      case False
      with fresh idx [OF that(1)] have "m_timers tm' ! j = m_timers tm ! j" by simp
      with idx [OF that(1) False] that assms(1) show ?thesis
        unfolding tm_own_def by (metis list.set_intros(2))
    qed
    moreover have "\<forall>j \<in> allocated_idx tm'. Timer_isValid j \<longrightarrow> j \<in> set (map fst ((k, cb, i) # S))"
      using assms(1) fresh by (auto simp: tm_own_def)
    ultimately show ?thesis using fresh(3) by (simp add: tm_own_def)
  qed
qed


lemma tm_own_destroy1:
  assumes "tm_own tm ((k, cb, i) # S)"
  shows "tm_own (Timer_destroy k tm) S"
proof (cases "Timer_isValid k")
  case False
  then show ?thesis using assms by (fastforce simp: tm_own_def Timer_destroy_def)
next
  case True
  have wf: "timers_wf tm" and h: "slots.holds tm (k # filter Timer_isValid (map fst S))"
    using assms True by (simp_all add: tm_own_def)
  then have k: "k \<in> allocated_idx tm" "k \<notin> set (filter Timer_isValid (map fst S))"
    by (simp_all add: slots.holds_def)
  note f = freeTimer_wf [OF wf k(1)]
  have len: "length (m_timers (freeTimer k tm)) = length (m_timers tm)" by (simp add: freeTimer_def)
  have idle: "m_timeoutCb (m_timers (freeTimer k tm) ! k) = None"
    using k(1) by (simp add: freeTimer_def allocated_idx_def TimerInfo_init_def)
  have "slots.holds (freeTimer k tm) (filter Timer_isValid (map fst S))"
    using h k f(2) by (auto simp: slots.holds_def)
  moreover have "\<exists>i'. m_timeoutData (m_timers (freeTimer k tm) ! j) = Some i' \<and> (j, c, i') \<in> set S"
    if "j < length (m_timers tm)" "Timer_isValid j" "m_timeoutCb (m_timers (freeTimer k tm) ! j) = Some c" for j c
  proof -
    have "j \<noteq> k" using idle that(3) by auto
    with that f(3) [of j] assms show ?thesis by (auto simp: tm_own_def)
  qed
  ultimately show ?thesis
    using assms True f(1,2) by (auto simp: Timer_destroy_def tm_own_def len)
qed

lemma tm_own_destroy:
  assumes "tm_own tm S" "mset S = mset R + mset S'"
  shows "tm_own (fold Timer_destroy (map fst R) tm) S'"
  using assms
proof (induction R arbitrary: tm S)
  case Nil
  then show ?case using tm_own_perm [of S S'] by simp
next
  case (Cons r R)
  obtain k cb i where r: "r = (k, cb, i)" by (cases r)
  have "tm_own tm ((k, cb, i) # (R @ S'))" using Cons.prems tm_own_perm [of S] by (simp add: r)
  from Cons.IH [OF tm_own_destroy1 [OF this]] show ?case by (simp add: r)
qed

fun alloc_timers :: "nat \<Rightarrow> slots \<Rightarrow> timers \<Rightarrow> timers \<Rightarrow> bool" where
  "alloc_timers lim [] tm tm' \<longleftrightarrow> tm' = tm"
| "alloc_timers lim ((k, cb, i) # S) tm tm' \<longleftrightarrow>
     (\<exists>tm1. allocTimer lim tm = (k, tm1) \<and> alloc_timers lim S tm1 tm')"

lemma tm_own_allocs:
  assumes "tm_own tm S" "alloc_timers lim N tm tm'" "mset S' = mset N + mset S"
  shows "tm_own tm' S'"
  using assms
proof (induction lim N tm tm' arbitrary: S S' rule: alloc_timers.induct)
  case (1 lim tm tm')
  then show ?case using tm_own_perm [of S S'] by simp
next
  case (2 lim k cb i N tm tm')
  then obtain tm1 where tm1: "allocTimer lim tm = (k, tm1)" "alloc_timers lim N tm1 tm'" by auto
  from "2.IH" [OF tm_own_alloc [OF "2.prems"(1) tm1(1), of cb i] tm1(2)] "2.prems"(3)
  show ?case by simp
qed

section \<open>Ownership of packet identifiers\<close>

definition pid_own :: "packet_ids \<Rightarrow> u16 list \<Rightarrow> bool" where
  "pid_own p Q \<longleftrightarrow> pids_wf p \<and> pool.holds p (filter (\<lambda>i. i \<noteq> 0) Q)"

lemma pid_own_perm: "mset Q = mset Q' \<Longrightarrow> pid_own p Q \<Longrightarrow> pid_own p Q'"
  using pool.holds_perm [of "filter (\<lambda>i. i \<noteq> 0) Q" "filter (\<lambda>i. i \<noteq> 0) Q'" p] by (simp add: pid_own_def)

lemma pid_own_zero [simp]: "pid_own p (0 # Q) = pid_own p Q"
  by (simp add: pid_own_def)

lemma pid_own_release:
  assumes "pid_own p (i # Q)" shows "pid_own (releasePacketId i p) Q"
proof (cases "i = 0")
  case False
  with assms show ?thesis
    using pool.holds_release_list [of p "filter (\<lambda>i. i \<noteq> 0) (i # Q)" "[i]" "filter (\<lambda>i. i \<noteq> 0) Q"]
    by (simp add: pid_own_def)
qed (use assms in \<open>simp add: releasePacketId_def\<close>)

text \<open>The outcome of \<open>allocPacketId\<close>; without one (there always is one) the client uses 0.\<close>

definition pid_taken :: "nat \<Rightarrow> packet_ids \<Rightarrow> u16 \<Rightarrow> packet_ids \<Rightarrow> bool" where
  "pid_taken lim p pid p' \<longleftrightarrow> allocPacketId lim p = Some (pid, p') \<or> pid = 0 \<and> p' = p"

lemma pid_own_taken:
  assumes "pid_own p (old # Q)" "pid_taken lim p pid p'"
  shows "pid_own p' (pid # Q)"
proof -
  have q: "pid_own p Q" using assms(1) by (auto simp: pid_own_def pool.holds_def split: if_splits)
  consider "pid = 0" "p' = p" | "pids_full lim p" "allocPacketId lim p = Some (pid, p')"
    | "pid_alloc_rel lim p pid p'"
    using assms(2) by (auto simp: pid_taken_def pid_alloc_rel_def)
  then show ?thesis
  proof cases
    case 3
    have "pids_wf p" using q by (simp add: pid_own_def)
    from pool.alloc_fresh [OF this 3] pool.alloc_in_use [OF this 3] pool.alloc_valid [OF this 3] q
    show ?thesis by (auto simp: pid_own_def pool.holds_def)
  qed (use q in \<open>auto simp: alloc_full\<close>)
qed


section \<open>The invariant\<close>

definition filters_wf :: "client \<Rightarrow> bool" where
  "filters_wf st \<longleftrightarrow> strict_sorted (m_subFilters (reuseState st))"

definition client_inv :: "client \<Rightarrow> bool" where
  "client_inv st \<longleftrightarrow> ops_wf st \<and> tm_own (timerMgr st) (timer_slots st) \<and>
     pid_own (m_packetIds (clientState st)) (op_pids st) \<and> filters_wf st"

lemma client_inv_init: "client_inv (ClientImpl_init E)"
  by (simp add: client_inv_def ops_wf_def tm_own_def pid_own_def filters_wf_def ClientImpl_init_def
      all_ptrs_def live_ops_def timer_slots_def op_pids_def TimerMgr_init_def timers_wf_def
      allocCount_def slots.holds_def pool.holds_def ClientState_init_def ReuseState_init_def
      packet_ids_init_def pids_wf_def allocated_idx_def List.map_filter_simps)

section \<open>Atomic steps\<close>

text \<open>
  \<open>view_eq\<close>: nothing the invariants of ownership look at has changed. \<open>extends\<close>: the output is
  only appended to and no operation is reported complete, a fault stays, no bounded loop runs out of
  steps, sorted filters stay sorted. \<open>done_of\<close> is the operation a completion callback is for.
\<close>

fun done_of :: "event \<Rightarrow> op_ptr option" where
  "done_of (EvConnectComplete cb i status response) = Some (Type_Connect, i)"
| "done_of (EvSubscribeComplete cb i status codes) = Some (Type_Subscribe, i)"
| "done_of (EvUnsubscribeComplete cb i status) = Some (Type_Unsubscribe, i)"
| "done_of (EvPublishComplete cb i status) = Some (Type_Send, i)"
| "done_of _ = None"

definition view_eq :: "client \<Rightarrow> client \<Rightarrow> bool" where
  "view_eq st st' \<longleftrightarrow> live_ops st' = live_ops st \<and> all_ptrs st' = all_ptrs st \<and>
     timer_slots st' = timer_slots st \<and> op_pids st' = op_pids st \<and> next_id st' = next_id st \<and>
     timerMgr st' = timerMgr st \<and> m_packetIds (clientState st') = m_packetIds (clientState st)"

definition extends :: "client \<Rightarrow> client \<Rightarrow> bool" where
  "extends st st' \<longleftrightarrow> (\<exists>es. out st' = out st @ es \<and> List.map_filter done_of es = []) \<and>
     (fault st \<noteq> None \<longrightarrow> fault st' = fault st) \<and>
     (fault st' = Some OutOfFuel \<longrightarrow> fault st = Some OutOfFuel) \<and>
     (filters_wf st \<longrightarrow> filters_wf st')"

lemma extends_cong:
  assumes "extends st a" "out b = out a" "fault b = fault a" "reuseState b = reuseState a"
  shows "extends st b"
  using assms(1) unfolding extends_def filters_wf_def assms(2-4) .

lemma extends_fuel: "extends st st' \<Longrightarrow> b \<or> (fault st' = Some OutOfFuel \<longrightarrow> fault st = Some OutOfFuel)"
  unfolding extends_def by blast

text \<open>
  An operation assigns itself a packet identifier; a new operation appears. A step \<open>ms_probe\<close> is an
  operation that is constructed and destroyed at once, \<open>ms_finish\<close> the completion of an operation
  with its callback: the operation is gone first, other steps may follow, then comes the callback.
  \<open>ms_fuel\<close> is a bounded loop of the model running out of steps.
\<close>

definition takes_pid :: "env \<Rightarrow> client \<Rightarrow> client \<Rightarrow> bool" where
  "takes_pid E st st' \<longleftrightarrow> live_ops st' = live_ops st \<and> all_ptrs st' = all_ptrs st \<and>
     timer_slots st' = timer_slots st \<and> next_id st' = next_id st \<and> timerMgr st' = timerMgr st \<and>
     (\<exists>old pid M. mset (op_pids st) = mset (old # M) \<and> mset (op_pids st') = mset (pid # M) \<and>
        pid_taken (PacketIdsLimit E) (m_packetIds (clientState st)) pid
          (m_packetIds (clientState st')))"

text \<open>The capacity of the list an operation of some type is in (0 for none), and whether it has room.\<close>

fun ops_cap :: "env \<Rightarrow> op_type \<Rightarrow> nat" where
  "ops_cap E Type_Connect = ConnectOpsLimit E"
| "ops_cap E Type_KeepAlive = KeepAliveOpsLimit E"
| "ops_cap E Type_Disconnect = DisconnectOpsLimit E"
| "ops_cap E Type_Subscribe = SubscribeOpsLimit E"
| "ops_cap E Type_Unsubscribe = UnsubscribeOpsLimit E"
| "ops_cap E Type_Recv = RecvOpsLimit E"
| "ops_cap E Type_Send = SendOpsLimit E"

definition count_ops :: "op_type \<Rightarrow> client \<Rightarrow> nat" where
  "count_ops t st = length (filter (\<lambda>p. fst p = t) (all_ptrs st))"

lemma count_ops_lists [simp]:
  "count_ops Type_Connect st = length (m_connectOps st)" "count_ops Type_KeepAlive st = length (m_keepAliveOps st)"
  "count_ops Type_Disconnect st = length (m_disconnectOps st)" "count_ops Type_Subscribe st = length (m_subscribeOps st)"
  "count_ops Type_Unsubscribe st = length (m_unsubscribeOps st)" "count_ops Type_Recv st = length (m_recvOps st)"
  "count_ops Type_Send st = length (m_sendOps st)"
  by (simp_all add: count_ops_def all_ptrs_def filter_map o_def)

definition has_room :: "env \<Rightarrow> op_type \<Rightarrow> client \<Rightarrow> bool" where
  "has_room E t st \<longleftrightarrow> ops_cap E t = 0 \<or> count_ops t st < ops_cap E t"

definition adds_op :: "env \<Rightarrow> client \<Rightarrow> client \<Rightarrow> bool" where
  "adds_op E st st' \<longleftrightarrow> (\<exists>t N Q. has_room E t st \<and> live_ops st' = live_ops st @ [(t, next_id st)] \<and>
     mset (all_ptrs st') = add_mset (t, next_id st) (mset (all_ptrs st)) \<and>
     next_id st' = next_id st + 1 \<and> alloc_timers (TimersLimit E) N (timerMgr st) (timerMgr st') \<and>
     mset (timer_slots st') = mset N + mset (timer_slots st) \<and>
     Q \<in> {[], [0]} \<and> mset (op_pids st') = mset Q + mset (op_pids st) \<and>
     m_packetIds (clientState st') = m_packetIds (clientState st))"

inductive mstep :: "env \<Rightarrow> client \<Rightarrow> client \<Rightarrow> bool" for E where
  ms_same: "view_eq st st' \<Longrightarrow> extends st st' \<Longrightarrow> mstep E st st'"
| ms_wait: "(k, cb, i) \<in> set (timer_slots st) \<Longrightarrow> mstep E st (on_timers (timerWait k d cb i) st)"
| ms_quiet: "quiet (timerMgr st) t \<Longrightarrow> mstep E st (st\<lparr>timerMgr := t\<rparr>)"
| ms_drop: "mstep E st (drop_op ptr st)"
| ms_pid: "takes_pid E st st' \<Longrightarrow> extends st st' \<Longrightarrow> mstep E st st'"
| ms_new: "adds_op E st st' \<Longrightarrow> extends st st' \<Longrightarrow> mstep E st st'"
| ms_probe: "allocTimer (TimersLimit E) (timerMgr st) = (k, tm) \<Longrightarrow>
    mstep E st (st\<lparr>timerMgr := Timer_destroy k tm, next_id := next_id st + 1\<rparr>)"
| ms_finish: "ptr \<in> set (all_ptrs st) \<Longrightarrow> done_of e = Some ptr \<Longrightarrow>
    (mstep E)\<^sup>*\<^sup>* (drop_op ptr st) st' \<Longrightarrow> mstep E st (emit e st')"
| ms_fuel: "mstep E st (set_fault OutOfFuel st)"
monos rtranclp_mono

lemma timers_views [simp]:
  "live_ops (st\<lparr>timerMgr := t\<rparr>) = live_ops st" "all_ptrs (st\<lparr>timerMgr := t\<rparr>) = all_ptrs st"
  "timer_slots (st\<lparr>timerMgr := t\<rparr>) = timer_slots st" "op_pids (st\<lparr>timerMgr := t\<rparr>) = op_pids st"
  "filters_wf (st\<lparr>timerMgr := t\<rparr>) = filters_wf st"
  by (simp_all add: live_ops_def all_ptrs_def timer_slots_def op_pids_def filters_wf_def)

lemma ops_wf_cong:
  assumes "live_ops st' = live_ops st" "all_ptrs st' = all_ptrs st" "next_id st' = next_id st"
  shows "ops_wf st' \<longleftrightarrow> ops_wf st"
  using assms by (simp add: ops_wf_def)

lemma client_inv_drop:
  assumes "client_inv st"
  shows "client_inv (drop_op ptr st)"
proof (cases "Some ptr \<in> set (m_ops st)")
  case True
  have wf: "ops_wf st" using assms by (simp add: client_inv_def)
  then have "ptr \<in> set (all_ptrs st)" using True ops_wf_live_iff by blast
  with True obtain S Q where d: "dropped ptr S Q st (drop_op ptr st)" using drop_op_dropped by blast
  let ?st' = "drop_op ptr st"
  have ptrs: "mset (all_ptrs st) = mset (ptr # all_ptrs ?st')" using d by (simp add: dropped_def erased_def)
  have "distinct (ptr # all_ptrs ?st')" using mset_eq_imp_distinct_iff [OF ptrs] wf by (simp add: ops_wf_def)
  moreover have "set (all_ptrs ?st') \<subseteq> set (all_ptrs st)" using mset_eq_setD [OF ptrs] by auto
  ultimately have "ops_wf ?st'"
    using wf d by (auto simp: ops_wf_def dropped_def erased_def)
  moreover have "tm_own (timerMgr ?st') (timer_slots ?st')"
    using assms d tm_own_destroy by (auto simp: client_inv_def dropped_def erased_def)
  moreover have "pid_own (m_packetIds (clientState ?st')) (op_pids ?st')"
  proof -
    have own: "pid_own (m_packetIds (clientState st)) (Q @ op_pids ?st')"
      using assms d pid_own_perm [of "op_pids st" "Q @ op_pids ?st'"]
      by (simp add: client_inv_def dropped_def erased_def)
    have "Q = [] \<or> (\<exists>q. Q = [q])" using d by (cases Q) (auto simp: dropped_def erased_def)
    then show ?thesis using own d pid_own_release by (auto simp: dropped_def erased_def)
  qed
  ultimately show ?thesis
    using assms d by (simp add: client_inv_def dropped_def erased_def filters_wf_def)
qed (simp add: drop_op_unlisted assms)

lemma client_inv_add:
  assumes "client_inv st" "adds_op E st st'" "extends st st'"
  shows "client_inv st'"
proof -
  obtain t N Q where a: "live_ops st' = live_ops st @ [(t, next_id st)]"
    "mset (all_ptrs st') = mset ((t, next_id st) # all_ptrs st)"
    "next_id st' = next_id st + 1" "alloc_timers (TimersLimit E) N (timerMgr st) (timerMgr st')"
    "mset (timer_slots st') = mset N + mset (timer_slots st)"
    "Q \<in> {[], [0]}" "mset (op_pids st') = mset (Q @ op_pids st)"
    "m_packetIds (clientState st') = m_packetIds (clientState st)"
    using assms(2) by (auto simp: adds_op_def)
  have wf: "ops_wf st" using assms(1) by (simp add: client_inv_def)
  have "distinct (all_ptrs st')"
    using mset_eq_imp_distinct_iff [OF a(2)] wf by (auto simp: ops_wf_def)
  then have "ops_wf st'"
    using wf a(1,2,3) mset_eq_setD [OF a(2)] by (auto simp: ops_wf_def less_SucI)
  moreover have "tm_own (timerMgr st') (timer_slots st')"
    using assms(1) a(4,5) tm_own_allocs by (auto simp: client_inv_def)
  moreover have "pid_own (m_packetIds (clientState st')) (op_pids st')"
    using assms(1) a(6,8) pid_own_perm [OF a(7) [symmetric]] by (auto simp: client_inv_def)
  ultimately show ?thesis using assms(1,3) by (simp add: client_inv_def extends_def)
qed

lemma view_eq_steps:
  "view_eq st (emit e st)" "view_eq st (set_fault f st)"
  by (simp_all add: view_eq_def live_ops_def all_ptrs_def timer_slots_def op_pids_def)

lemma client_inv_cong:
  "view_eq st st' \<Longrightarrow> filters_wf st \<longrightarrow> filters_wf st' \<Longrightarrow> client_inv st \<Longrightarrow> client_inv st'"
  using ops_wf_cong [of st' st] by (simp add: client_inv_def view_eq_def)

lemma client_inv_mstep:
  assumes "mstep E st st'" "client_inv st"
  shows "client_inv st'"
  using assms
proof (induction rule: mstep.induct)
  case (ms_same st st')
  then show ?case using client_inv_cong by (simp add: extends_def)
next
  case (ms_wait k cb i st d)
  then show ?case
    using tm_own_wait ops_wf_cong [of "on_timers (timerWait k d cb i) st" st]
    by (simp add: client_inv_def on_timers_def)
next
  case (ms_quiet st t)
  then show ?case
    using tm_own_quiet ops_wf_cong [of "st\<lparr>timerMgr := t\<rparr>" st] by (auto simp: client_inv_def)
next
  case (ms_drop st ptr)
  then show ?case using client_inv_drop by simp
next
  case (ms_pid st st')
  then obtain old pid M where p: "mset (op_pids st) = mset (old # M)" "mset (op_pids st') = mset (pid # M)"
    "pid_taken (PacketIdsLimit E) (m_packetIds (clientState st)) pid (m_packetIds (clientState st'))"
    by (auto simp: takes_pid_def)
  have "pid_own (m_packetIds (clientState st)) (old # M)"
    using ms_pid.prems pid_own_perm [OF p(1)] by (simp add: client_inv_def)
  from pid_own_perm [OF p(2) [symmetric] pid_own_taken [OF this p(3)]] show ?case
    using ms_pid ops_wf_cong [of st' st] by (simp add: client_inv_def takes_pid_def extends_def)
next
  case (ms_new st st')
  then show ?case using client_inv_add by blast
next
  case (ms_probe st k tm)
  have "tm_own tm ((k, ConnectOp_opTimeoutCb, 0) # timer_slots st)"
    using ms_probe.prems tm_own_alloc [OF _ ms_probe.hyps] by (simp add: client_inv_def)
  from tm_own_destroy1 [OF this] show ?case
    using ms_probe.prems
    by (auto simp: client_inv_def ops_wf_def live_ops_def all_ptrs_def timer_slots_def op_pids_def
        filters_wf_def less_SucI)
next
  case (ms_finish ptr st e st')
  have "client_inv (drop_op ptr st)" using ms_finish.prems by (rule client_inv_drop)
  with ms_finish.IH have "client_inv st'" by (induction rule: rtranclp_induct) auto
  then show ?case by (rule client_inv_cong [OF view_eq_steps(1), rotated]) (simp add: filters_wf_def)
next
  case (ms_fuel st)
  then show ?case by (intro client_inv_cong [OF view_eq_steps(2)]) (simp_all add: filters_wf_def)
qed

lemma client_inv_msteps: "(mstep E)\<^sup>*\<^sup>* st st' \<Longrightarrow> client_inv st \<Longrightarrow> client_inv st'"
  by (induction rule: rtranclp_induct) (auto intro: client_inv_mstep)


section \<open>Histories\<close>

text \<open>
  The output between two states: an operation is reported complete at most once, it existed or was
  created in between, and it is gone afterwards; a fault stays.
\<close>

definition advances :: "client \<Rightarrow> client \<Rightarrow> bool" where
  "advances a b \<longleftrightarrow>
     (\<exists>es. out b = out a @ es \<and> distinct (List.map_filter done_of es) \<and>
        (\<forall>p \<in> set (List.map_filter done_of es).
           (p \<in> set (all_ptrs a) \<or> next_id a \<le> snd p) \<and> snd p < next_id b \<and> p \<notin> set (all_ptrs b))) \<and>
     next_id a \<le> next_id b \<and> (\<forall>p \<in> set (all_ptrs b). p \<in> set (all_ptrs a) \<or> next_id a \<le> snd p) \<and>
     (fault a \<noteq> None \<longrightarrow> fault b = fault a)"

lemma advances_refl: "advances a a"
  by (simp add: advances_def List.map_filter_simps)

lemma map_filter_append [simp]: "List.map_filter f (xs @ ys) = List.map_filter f xs @ List.map_filter f ys"
  by (simp add: List.map_filter_def)

lemma advances_trans:
  assumes "advances a b" "advances b c"
  shows "advances a c"
proof -
  let ?D = "List.map_filter done_of"
  obtain es where e: "out b = out a @ es" "distinct (?D es)"
    "\<And>p. p \<in> set (?D es) \<Longrightarrow>
       (p \<in> set (all_ptrs a) \<or> next_id a \<le> snd p) \<and> snd p < next_id b \<and> p \<notin> set (all_ptrs b)"
    using assms(1) by (auto simp: advances_def)
  obtain fs where f: "out c = out b @ fs" "distinct (?D fs)"
    "\<And>p. p \<in> set (?D fs) \<Longrightarrow>
       (p \<in> set (all_ptrs b) \<or> next_id b \<le> snd p) \<and> snd p < next_id c \<and> p \<notin> set (all_ptrs c)"
    using assms(2) by (auto simp: advances_def)
  have le: "next_id a \<le> next_id b" "next_id b \<le> next_id c"
    and ptrs: "\<And>p. p \<in> set (all_ptrs b) \<Longrightarrow> p \<in> set (all_ptrs a) \<or> next_id a \<le> snd p"
      "\<And>p. p \<in> set (all_ptrs c) \<Longrightarrow> p \<in> set (all_ptrs b) \<or> next_id b \<le> snd p"
    and flt: "fault a \<noteq> None \<Longrightarrow> fault c = fault a"
    using assms by (auto simp: advances_def)
  have "distinct (?D (es @ fs))" using e f by force
  moreover have "(p \<in> set (all_ptrs a) \<or> next_id a \<le> snd p) \<and> snd p < next_id c \<and> p \<notin> set (all_ptrs c)"
    if "p \<in> set (?D (es @ fs))" for p
    using that e(3) [of p] f(3) [of p] le ptrs(1) [of p] ptrs(2) [of p] by (auto dest: le_trans)
  moreover have "out c = out a @ (es @ fs)" by (simp add: e(1) f(1))
  ultimately show ?thesis
    unfolding advances_def using le ptrs flt by (metis le_trans)
qed

lemma drop_op_frame:
  "out (drop_op ptr st) = out st" "fault (drop_op ptr st) = fault st"
  "reuseState (drop_op ptr st) = reuseState st" "next_id (drop_op ptr st) = next_id st"
  by (simp_all add: drop_op_def opComplete_with_def opComplete_Send_def opComplete_Connect_def
      opComplete_KeepAlive_def opComplete_Disconnect_def opComplete_Subscribe_def
      opComplete_Unsubscribe_def opComplete_Recv_def erase_Send_def client_releasePacketId_def
      forget_op_def Let_def split: op_type.split option.split)

lemma drop_op_ptrs:
  assumes "ops_wf st"
  shows "set (all_ptrs (drop_op ptr st)) = set (all_ptrs st) - {ptr}"
proof (cases "ptr \<in> set (all_ptrs st)")
  case True
  then obtain S Q where "dropped ptr S Q st (drop_op ptr st)"
    using ops_wf_live_iff [OF assms] drop_op_dropped by blast
  then have m: "mset (all_ptrs st) = mset (ptr # all_ptrs (drop_op ptr st))"
    by (simp add: dropped_def erased_def)
  then have "distinct (ptr # all_ptrs (drop_op ptr st))"
    using mset_eq_imp_distinct_iff assms unfolding ops_wf_def by blast
  with mset_eq_setD [OF m] show ?thesis by auto
qed (use ops_wf_live_iff [OF assms, of ptr] in \<open>simp add: drop_op_unlisted\<close>)

lemma advances_extends:
  assumes "extends a b" "set (all_ptrs b) \<subseteq> set (all_ptrs a) \<union> {p. next_id a \<le> snd p}" "next_id a \<le> next_id b"
  shows "advances a b"
proof -
  obtain es where "out b = out a @ es" "List.map_filter done_of es = []"
    using assms(1) unfolding extends_def by blast
  moreover have "fault a \<noteq> None \<longrightarrow> fault b = fault a" using assms(1) unfolding extends_def by blast
  ultimately show ?thesis using assms(2,3) unfolding advances_def by (intro conjI exI [of _ es]) auto
qed

lemma advances_frame:
  assumes "out b = out a" "set (all_ptrs b) \<subseteq> set (all_ptrs a)" "next_id a \<le> next_id b"
    "fault a \<noteq> None \<longrightarrow> fault b = fault a"
  shows "advances a b"
  using assms by (auto simp: advances_def List.map_filter_simps)

lemma advances_mstep:
  assumes "mstep E st st'" "client_inv st"
  shows "advances st st'"
  using assms
proof (induction rule: mstep.induct)
  case (ms_same st st')
  then show ?case by (intro advances_extends) (auto simp: view_eq_def)
next
  case (ms_drop st ptr)
  then show ?case
    using drop_op_ptrs by (intro advances_frame) (auto simp: drop_op_frame client_inv_def)
next
  case (ms_pid st st')
  then show ?case by (intro advances_extends) (auto simp: takes_pid_def)
next
  case (ms_new st st')
  then obtain t where t: "mset (all_ptrs st') = mset ((t, next_id st) # all_ptrs st)" "next_id st' = next_id st + 1"
    by (auto simp: adds_op_def)
  with ms_new mset_eq_setD [OF t(1)] show ?case by (intro advances_extends) auto
next
  case (ms_finish ptr st e st')
  let ?d = "drop_op ptr st"
  have wf: "ops_wf st" using ms_finish.prems by (simp add: client_inv_def)
  have "client_inv ?d" using ms_finish.prems by (rule client_inv_drop)
  with ms_finish.IH have adv: "advances ?d st'"
  proof (induction rule: rtranclp_induct)
    case (step y z)
    then have "client_inv y"
      using client_inv_msteps [of E ?d y] mono_rtranclp [of "\<lambda>x y. mstep E x y \<and> (client_inv x \<longrightarrow> advances x y)" "mstep E" ?d y]
      by blast
    with step show ?case using advances_trans by blast
  qed (rule advances_refl)
  have lt: "snd ptr < next_id st" using ms_finish.hyps(1) wf by (auto simp: ops_wf_def)
  have gone: "ptr \<notin> set (all_ptrs ?d)" using drop_op_ptrs [OF wf] by auto
  obtain es where es: "out st' = out ?d @ es" "distinct (List.map_filter done_of es)"
    "\<And>p. p \<in> set (List.map_filter done_of es) \<Longrightarrow>
       (p \<in> set (all_ptrs ?d) \<or> next_id ?d \<le> snd p) \<and> snd p < next_id st' \<and> p \<notin> set (all_ptrs st')"
    using adv by (auto simp: advances_def)
  have "ptr \<notin> set (List.map_filter done_of es)" using es(3) [of ptr] gone lt by (auto simp: drop_op_frame)
  moreover have "ptr \<notin> set (all_ptrs st')"
    using adv gone lt by (force simp: advances_def drop_op_frame)
  moreover have "all_ptrs (emit e st') = all_ptrs st'" by (simp add: all_ptrs_def)
  ultimately show ?case
    using adv es lt ms_finish.hyps drop_op_ptrs [OF wf, of ptr] unfolding advances_def
    by (intro conjI exI [of _ "es @ [e]"]) (auto simp: emit_def drop_op_frame List.map_filter_simps)
qed (auto intro!: advances_frame simp: all_ptrs_def on_timers_def set_fault_def)

lemma advances_msteps: "(mstep E)\<^sup>*\<^sup>* st st' \<Longrightarrow> client_inv st \<Longrightarrow> advances st st'"
proof (induction rule: rtranclp_induct)
  case (step y z)
  then show ?case using client_inv_msteps advances_mstep advances_trans by blast
qed (simp add: advances_refl)

text \<open>
  What a piece of the model does from a state that satisfies the invariant: a sequence of atomic
  steps, in which, unless \<open>b\<close>, no bounded loop runs out of steps.
\<close>

definition msteps :: "env \<Rightarrow> bool \<Rightarrow> client \<Rightarrow> client \<Rightarrow> bool" where
  "msteps E b s st \<longleftrightarrow> (client_inv s \<longrightarrow> (mstep E)\<^sup>*\<^sup>* s st \<and>
     (b \<or> (fault st = Some OutOfFuel \<longrightarrow> fault s = Some OutOfFuel)))"

lemma msteps_refl: "msteps E b s s"
  by (simp add: msteps_def)

lemma msteps_trans:
  assumes "msteps E b s st" "client_inv st \<Longrightarrow> msteps E b st st'"
  shows "msteps E b s st'"
  using assms client_inv_msteps [of E s st] by (auto simp: msteps_def)

lemma msteps_step:
  assumes "mstep E st st'" "b \<or> (fault st' = Some OutOfFuel \<longrightarrow> fault st = Some OutOfFuel)" "msteps E b s st"
  shows "msteps E b s st'"
  using assms by (auto simp: msteps_def)

section \<open>What is assumed of the message codec\<close>

text \<open>
  Default-constructed messages have packet identifier 0, and \<open>doRefresh\<close>, which brings the presence
  of optional fields up to date, does not change the identifier. A message that has been read took
  at least one of the bytes that were there.
\<close>

definition codec_ok :: "env \<Rightarrow> bool" where
  "codec_ok E \<longleftrightarrow> sm_packetId (SubscribeMsg_init E) = 0 \<and> um_packetId (UnsubscribeMsg_init E) = 0 \<and>
     pm_packetId (PublishMsg_init E) = 0 \<and> (\<forall>m. pm_packetId (publish_refresh E m) = pm_packetId m) \<and>
     (\<forall>data m k. frame_read E data = FR_Msg m k \<longrightarrow> 0 < k \<and> k \<le> length data)"

end
