(* ===== verification/Session_Frame.thy ===== *)
theory Session_Frame
  imports Client_Inv
begin

text \<open>
  What sending, completing, resuming and terminating operations leaves alone. A relation between
  the state before and the state after that the basic steps of these functions respect is respected
  by the functions themselves; the interpretations say which relations these are.
\<close>

section \<open>Relations respected by the work on operations\<close>

locale op_frame =
  fixes R :: "client \<Rightarrow> client \<Rightarrow> bool"
  assumes R_refl: "R a a"
    and R_trans: "R a b \<Longrightarrow> R b c \<Longrightarrow> R a c"
    and R_emit: "(\<And>info. e \<noteq> EvMessageReceivedReport info) \<Longrightarrow> R a (emit e a)"
    and R_set_fault: "R a (set_fault f a)"
    and R_timers: "R a (on_timers g a)"
    and R_upd_send: "R a (upd_send i h a)"
    and R_drop_send: "R a (drop_op (Type_Send, i) a)"
begin

lemma R_errorLog: "R a b \<Longrightarrow> R a (errorLog E b)"
  using R_emit [of EvErrorLog b] R_trans by (auto simp: errorLog_def)

lemma R_then_emit: "R a b \<Longrightarrow> (\<And>info. e \<noteq> EvMessageReceivedReport info) \<Longrightarrow> R a (emit e b)"
  using R_emit R_trans by blast

lemma R_then:
  assumes "R a b"
  shows "R a (set_fault f b)" "R a (on_timers g b)" "R a (upd_send i h b)"
  using assms R_set_fault R_timers R_upd_send R_trans by blast+

lemma R_restartPing: "R a b \<Longrightarrow> R a (KeepAliveOp_restartPingTimer ka b)"
  by (simp add: KeepAliveOp_restartPingTimer_def R_then)

lemma R_sendMessage: "R a b \<Longrightarrow> R a (snd (sendMessage E msg b))"
proof -
  have "R a b \<Longrightarrow> R a (fold KeepAliveOp_messageSent kas b)" for kas b
    by (induction kas arbitrary: b) (simp_all add: KeepAliveOp_messageSent_def R_restartPing)
  then show "R a b \<Longrightarrow> R a (snd (sendMessage E msg b))"
    by (auto simp: sendMessage_def Let_def R_errorLog R_then_emit R_then split: option.split)
qed

lemma R_on_send:
  assumes "R a b" "\<And>op. R a (f op b)" shows "R a (on_send i f b)"
  using assms by (auto simp: on_send_def follow_def R_then split: option.split)

lemma R_on_send_ret:
  assumes "R a b" "\<And>op. R a (snd (f op b))" shows "R a (snd (on_send_ret i r f b))"
  using assms by (auto simp: on_send_ret_def follow_ret_def R_then split: option.split)

definition respecting :: "(nat \<Rightarrow> client \<Rightarrow> client) \<Rightarrow> bool" where
  "respecting rs \<longleftrightarrow> (\<forall>k a b. R a b \<longrightarrow> R a (rs k b))"

lemma R_complete_send: "respecting rs \<Longrightarrow> R a b \<Longrightarrow> R a (opComplete_with rs (Type_Send, i) b)"
  using R_drop_send R_trans by (simp add: opComplete_with_eq respecting_def)

lemma R_completeWithCb_with:
  "respecting rs \<Longrightarrow> R a b \<Longrightarrow> R a (SendOp_completeWithCb_with rs i status b)"
  by (auto simp: SendOp_completeWithCb_with_def Let_def
      intro!: R_on_send R_then_emit R_complete_send split: option.split)

lemma R_doSendInternal_with:
  "respecting rs \<Longrightarrow> R a b \<Longrightarrow> R a (snd (SendOp_doSendInternal_with rs E i b))"
  by (auto simp: SendOp_doSendInternal_with_def SendOp_restartResponseTimer_def Let_def split_def
      intro!: R_on_send_ret R_completeWithCb_with R_then R_sendMessage)

lemma R_resume_with:
  "respecting rs \<Longrightarrow> R a b \<Longrightarrow> R a (snd (SendOp_resume_with rs E i b))"
  by (auto simp: SendOp_resume_with_def Let_def split_def
      intro!: R_on_send_ret R_completeWithCb_with R_doSendInternal_with R_then)

lemma respecting_resume: "respecting (resumeSendOpsSince E)"
proof -
  have "respecting (resumeSendOpsSince_fuel n E)" for n
  proof (induction n)
    case (Suc n)
    have "R a (resumeSendOpsSince_fuel (Suc n) E k b)" if "R a b" for a b k
      using that Suc R_resume_with [OF Suc that] by (auto simp: Let_def split_def respecting_def)
    then show ?case by (simp add: respecting_def)
  qed (simp add: respecting_def R_then)
  then show ?thesis by (simp add: respecting_def resumeSendOpsSince_def)
qed

lemma R_resume: "R a b \<Longrightarrow> R a (resumeSendOpsSince E k b)"
  using respecting_resume by (simp add: respecting_def)

lemma R_opComplete_send: "R a b \<Longrightarrow> R a (opComplete E (Type_Send, i) b)"
  by (simp add: opComplete_def R_complete_send respecting_resume)

lemma R_completeWithCb: "R a b \<Longrightarrow> R a (SendOp_completeWithCb E i status b)"
  by (simp add: SendOp_completeWithCb_def R_completeWithCb_with respecting_resume)

lemma R_resendDupMsg: "R a b \<Longrightarrow> R a (SendOp_resendDupMsg E i b)"
  by (auto simp: SendOp_resendDupMsg_def SendOp_restartResponseTimer_def upd_pub_def Let_def split_def
      intro!: R_on_send R_completeWithCb R_errorLog R_then R_sendMessage)

lemma R_dispatch_keepAlives: "R a b \<Longrightarrow> R a (dispatch_keepAlives msg b)"
proof -
  have "R a b \<Longrightarrow> R a (fold (KeepAliveOp_dispatch msg) kas b)" for kas
    by (induction kas arbitrary: b)
      (simp_all add: KeepAliveOp_dispatch_def KeepAliveOp_handle_Pingresp_def
        KeepAliveOp_handle_ProtMessage_def KeepAliveOp_restartRecvTimer_def R_then)
  then show "R a b \<Longrightarrow> R a (dispatch_keepAlives msg b)" by (simp add: dispatch_keepAlives_def)
qed

lemma R_follow:
  assumes "R a b" "\<And>op. R a (f op b)" shows "R a (follow t key xs i f b)"
  using assms by (auto simp: follow_def R_then split: option.split)

lemma R_for_ops:
  assumes "\<And>p b. R a b \<Longrightarrow> R a (body p b)" "R a b" shows "R a (for_ops body b)"
proof -
  have "R a (fold (\<lambda>k s. if length (m_ops s) \<noteq> n then set_fault IteratorInvalidated s
      else body (m_ops s ! k) s) ks b)" for ks n
    using assms(2) by (induction ks arbitrary: b) (simp_all add: assms(1) R_then)
  then show ?thesis by (simp add: for_ops_def)
qed

end

text \<open>The same for the end of a session, which removes operations of every kind.\<close>

locale session_frame = op_frame +
  assumes R_drop: "R a (drop_op ptr a)"
    and R_session_down: "R a (session_down a)"
begin

lemma R_opComplete: "R a b \<Longrightarrow> R a (opComplete E ptr b)"
proof -
  have "R a b \<Longrightarrow> R a (drop_op ptr b)" for b using R_drop R_trans by blast
  then show "R a b \<Longrightarrow> R a (opComplete E ptr b)"
    using respecting_resume by (simp add: opComplete_def opComplete_with_eq respecting_def)
qed

lemmas on_ops = on_connect_def on_keepAlive_def on_disconnect_def on_subscribe_def on_unsubscribe_def
  on_recv_def

lemma R_completeOpInternal:
  assumes "R a b"
  shows "R a (ConnectOp_completeOpInternal E i status resp b)"
    "R a (SubscribeOp_completeOpInternal E i status codes b)"
    "R a (UnsubscribeOp_completeOpInternal E i status b)"
  using assms by (auto simp: ConnectOp_completeOpInternal_def SubscribeOp_completeOpInternal_def
      UnsubscribeOp_completeOpInternal_def on_ops Let_def
      intro!: R_follow R_then_emit R_opComplete split: option.split)

lemma R_terminateOp: "R a b \<Longrightarrow> R a (terminateOp E status ptr b)"
  by (cases "(E, status, ptr, b)" rule: terminateOp.cases)
    (auto simp: Op_terminateOpImpl_def on_ops intro!: R_follow R_completeOpInternal R_opComplete R_completeWithCb)

lemma R_connectivityChanged: "R a b \<Longrightarrow> R a (connectivityChanged E ptr b)"
  by (cases "(E, ptr, b)" rule: connectivityChanged.cases)
    (auto simp: ConnectOp_connectivityChangedImpl_def RecvOp_connectivityChangedImpl_def
      SendOp_connectivityChangedImpl_def on_ops intro!: R_follow R_on_send R_completeOpInternal R_then)

lemma R_terminateOps: "R a b \<Longrightarrow> R a (terminateOps E status mode b)"
  unfolding terminateOps_def
proof (rule R_for_ops)
  fix p b assume "R a b"
  then show "R a (terminate_body E status mode p b)" by (cases p) (auto intro: R_terminateOp)
qed

lemma R_brokerDisconnected_st: "R a b \<Longrightarrow> R a (brokerDisconnected_st E reason status b)"
proof -
  have "R a b \<Longrightarrow> R a (for_ops (connectivity_body E) b)" for b
  proof (rule R_for_ops)
    fix p b assume "R a b"
    then show "R a (connectivity_body E p b)" by (cases p) (auto intro: R_connectivityChanged)
  qed
  moreover have "R a b \<Longrightarrow> R a (session_down b)" using R_session_down R_trans by blast
  ultimately show "R a b \<Longrightarrow> R a (brokerDisconnected_st E reason status b)"
    by (auto simp: brokerDisconnected_st_def report_disconnect_def
        intro!: R_then R_then_emit R_terminateOps split: option.split)
qed

lemma R_brokerDisconnected: "R a b \<Longrightarrow> R a (brokerDisconnected E reason b)"
  by (simp add: brokerDisconnected_def R_brokerDisconnected_st)

end

section \<open>What they respect\<close>

fun report_of :: "event \<Rightarrow> MessageInfo option" where
  "report_of (EvMessageReceivedReport info) = Some info"
| "report_of _ = None"

text \<open>The messages reported to the application.\<close>

definition reports :: "client \<Rightarrow> MessageInfo list" where
  "reports st = List.map_filter report_of (out st)"

lemma report_of_None [simp]: "(\<And>info. e \<noteq> EvMessageReceivedReport info) \<Longrightarrow> report_of e = None"
  by (cases e) auto

lemma reports_emit: "reports (emit e st) = reports st @ (case report_of e of None \<Rightarrow> [] | Some info \<Rightarrow> [info])"
  by (simp add: reports_def emit_def List.map_filter_def split: option.split)

lemma reports_cong: "out a = out b \<Longrightarrow> reports a = reports b"
  by (simp add: reports_def)

text \<open>
  The end of operations and of the session reports no message, and it keeps the configuration, the
  callbacks and the confirmed filters.
\<close>

definition unreported :: "client \<Rightarrow> client \<Rightarrow> bool" where
  "unreported a b \<longleftrightarrow> reports b = reports a \<and> configState b = configState a \<and>
     reuseState b = reuseState a \<and> next_id b = next_id a \<and>
     has_sendOutputDataCb b = has_sendOutputDataCb a \<and>
     has_messageReceivedReportCb b = has_messageReceivedReportCb a \<and>
     has_brokerDisconnectReportCb b = has_brokerDisconnectReportCb a"

lemma drop_op_kept:
  "configState (drop_op ptr st) = configState st" "sessionState (drop_op ptr st) = sessionState st"
  "has_nextTickProgramCb (drop_op ptr st) = has_nextTickProgramCb st"
  "has_cancelNextTickWaitCb (drop_op ptr st) = has_cancelNextTickWaitCb st"
  "has_sendOutputDataCb (drop_op ptr st) = has_sendOutputDataCb st"
  "has_messageReceivedReportCb (drop_op ptr st) = has_messageReceivedReportCb st"
  "has_brokerDisconnectReportCb (drop_op ptr st) = has_brokerDisconnectReportCb st"
  "has_errorLogCb (drop_op ptr st) = has_errorLogCb st"
  "m_apiEnterCount (drop_op ptr st) = m_apiEnterCount st"
  "m_preparationLocked (drop_op ptr st) = m_preparationLocked st"
  "m_initialized (clientState (drop_op ptr st)) = m_initialized (clientState st)"
  "m_firstConnect (clientState (drop_op ptr st)) = m_firstConnect (clientState st)"
  "m_networkDisconnected (clientState (drop_op ptr st)) = m_networkDisconnected (clientState st)"
  "length (m_ops (drop_op ptr st)) = length (m_ops st)"
  by (simp_all add: drop_op_def opComplete_with_def opComplete_Send_def opComplete_Connect_def
      opComplete_KeepAlive_def opComplete_Disconnect_def opComplete_Subscribe_def
      opComplete_Unsubscribe_def opComplete_Recv_def erase_Send_def client_releasePacketId_def
      forget_op_def Let_def split: op_type.split option.split)

interpretation unrep: session_frame unreported
proof
  show "unreported a (emit e a)" if "\<And>info. e \<noteq> EvMessageReceivedReport info" for e a
    using that by (simp add: unreported_def reports_emit)
qed (auto simp: unreported_def reports_def upd_send_def session_down_def drop_op_frame drop_op_kept)

text \<open>
  The work on publishes changes the list of publishes, their entries in \<open>m_ops\<close> and the timers; it
  takes no packet identifier, and everything else stays.
\<close>

definition sends_only :: "client \<Rightarrow> client \<Rightarrow> bool" where
  "sends_only a b \<longleftrightarrow> unreported a b \<and> sessionState b = sessionState a \<and>
     m_connectOps b = m_connectOps a \<and> m_keepAliveOps b = m_keepAliveOps a \<and>
     m_disconnectOps b = m_disconnectOps a \<and> m_subscribeOps b = m_subscribeOps a \<and>
     m_unsubscribeOps b = m_unsubscribeOps a \<and> m_recvOps b = m_recvOps a \<and>
     m_apiEnterCount b = m_apiEnterCount a \<and> m_preparationLocked b = m_preparationLocked a \<and>
     m_initialized (clientState b) = m_initialized (clientState a) \<and>
     m_networkDisconnected (clientState b) = m_networkDisconnected (clientState a) \<and>
     length (m_ops b) = length (m_ops a) \<and>
     set (m_allocatedPacketIds (m_packetIds (clientState b))) \<subseteq>
       set (m_allocatedPacketIds (m_packetIds (clientState a))) \<and>
     length (m_sendOps b) \<le> length (m_sendOps a)"

lemma set_released: "set (m_allocatedPacketIds (releasePacketId pid p)) \<subseteq> set (m_allocatedPacketIds p)"
  by (simp add: releasePacketId_def lb_erase_def set_erase_at)

lemma drop_send_kept:
  fixes i st
  defines "st' \<equiv> drop_op (Type_Send, i) st"
  shows "m_connectOps st' = m_connectOps st" "m_keepAliveOps st' = m_keepAliveOps st"
    "m_disconnectOps st' = m_disconnectOps st" "m_subscribeOps st' = m_subscribeOps st"
    "m_unsubscribeOps st' = m_unsubscribeOps st" "m_recvOps st' = m_recvOps st"
    "set (m_allocatedPacketIds (m_packetIds (clientState st'))) \<subseteq>
       set (m_allocatedPacketIds (m_packetIds (clientState st)))"
    "length (m_sendOps st') \<le> length (m_sendOps st)"
  unfolding st'_def drop_op_def
  using set_released
  by (auto simp: opComplete_with_def opComplete_Send_def erase_Send_def client_releasePacketId_def
      forget_op_def eraseFromList_def length_erase_at Let_def split: option.split)

interpretation sends: op_frame sends_only
proof
  show "sends_only a b \<Longrightarrow> sends_only b c \<Longrightarrow> sends_only a c" for a b c
    using unrep.R_trans [of a b c] by (auto simp: sends_only_def)
  show "sends_only a (drop_op (Type_Send, i) a)" for a i
    using unrep.R_drop [of a "(Type_Send, i)"] drop_send_kept [of i a]
    by (simp add: sends_only_def drop_op_kept)
  show "sends_only a (upd_send i h a)" for a i h
    using unrep.R_upd_send by (simp add: sends_only_def) (simp add: upd_send_def)
qed (simp_all add: sends_only_def unrep.R_refl unrep.R_emit unrep.R_set_fault unrep.R_timers)

end
