(* ===== verification/Client_Steps.thy ===== *)
theory Client_Steps
  imports Client_Inv
begin

text \<open>
  Every operation of the model is a sequence of the atomic steps of \<open>Client_Inv\<close>. The rules of the
  collection \<open>evolve\<close> extend a sequence by one more call; those of the larger functions follow from
  those of the functions they call, in the order of the sources.
\<close>

section \<open>Basic steps\<close>

lemma ev_same: "msteps E fl s st \<Longrightarrow> view_eq st st' \<Longrightarrow> extends st st' \<Longrightarrow> msteps E fl s st'"
  by (rule msteps_step [OF ms_same extends_fuel])

lemma ev_drop [evolve]: "msteps E fl s st \<Longrightarrow> msteps E fl s (drop_op ptr st)"
  by (rule msteps_step [OF ms_drop]) (auto simp: drop_op_frame)

lemma ev_wait: "msteps E fl s st \<Longrightarrow> (k, cb, i) \<in> set (timer_slots st) \<Longrightarrow>
    msteps E fl s (on_timers (timerWait k d cb i) st)"
  by (rule msteps_step [OF ms_wait]) auto

lemma ev_quiet: "msteps E fl s st \<Longrightarrow> quiet (timerMgr st) t \<Longrightarrow> msteps E fl s (st\<lparr>timerMgr := t\<rparr>)"
  by (rule msteps_step [OF ms_quiet]) auto

lemma ev_fuel: "msteps E True s st \<Longrightarrow> msteps E True s (set_fault OutOfFuel st)"
  by (rule msteps_step [OF ms_fuel]) auto

lemma ev_finish:
  assumes "msteps E fl s st" "ptr \<in> set (all_ptrs st)" "done_of e = Some ptr"
    "\<And>s. msteps E fl s (drop_op ptr st) \<Longrightarrow> msteps E fl s st'"
  shows "msteps E fl s (emit e st')"
proof (rule msteps_trans [OF assms(1)])
  assume inv: "client_inv st"
  have d: "msteps E fl (drop_op ptr st) st'" "msteps E fl st st'"
    using assms(4) ev_drop msteps_refl by blast+
  then have "(mstep E)\<^sup>*\<^sup>* (drop_op ptr st) st'" using client_inv_drop [OF inv] by (simp add: msteps_def)
  from ms_finish [OF assms(2,3) this] show "msteps E fl st (emit e st')"
    using d(2) inv by (auto simp: msteps_def)
qed

lemmas views = live_ops_def all_ptrs_def timer_slots_def op_pids_def

lemma ev_emit [evolve]: "msteps E fl s st \<Longrightarrow> done_of e = None \<Longrightarrow> msteps E fl s (emit e st)"
  by (erule ev_same)
    (simp_all add: view_eq_def extends_def List.map_filter_simps views emit_def filters_wf_def)

lemma ev_set_fault [evolve]:
  "msteps E fl s st \<Longrightarrow> f \<noteq> OutOfFuel \<Longrightarrow> msteps E fl s (set_fault f st)"
  by (erule ev_same)
    (simp_all add: view_eq_def extends_def List.map_filter_simps views set_fault_def filters_wf_def)

lemma ev_errorLog [evolve]: "msteps E fl s st \<Longrightarrow> msteps E fl s (errorLog E' st)"
  by (auto simp: errorLog_def intro: evolve)

lemma ev_cancel [evolve]: "msteps E fl s st \<Longrightarrow> msteps E fl s (on_timers (timerCancel k) st)"
  by (simp add: on_timers_def ev_quiet quiet_cancel)

lemma ev_suspend [evolve]: "msteps E fl s st \<Longrightarrow> msteps E fl s (on_timers (Timer_setSuspended k b) st)"
  by (simp add: on_timers_def ev_quiet quiet_suspend)

text \<open>Fields that the views do not read.\<close>

lemma ev_flags [evolve]:
  assumes "msteps E fl s st"
  shows "msteps E fl s (st\<lparr>sessionState := ss\<rparr>)" "msteps E fl s (st\<lparr>configState := cs\<rparr>)"
    "msteps E fl s (st\<lparr>m_apiEnterCount := c\<rparr>)" "msteps E fl s (st\<lparr>m_preparationLocked := l\<rparr>)"
    "msteps E fl s (st\<lparr>has_nextTickProgramCb := b\<rparr>)" "msteps E fl s (st\<lparr>has_cancelNextTickWaitCb := b\<rparr>)"
    "msteps E fl s (st\<lparr>has_sendOutputDataCb := b\<rparr>)" "msteps E fl s (st\<lparr>has_brokerDisconnectReportCb := b\<rparr>)"
    "msteps E fl s (st\<lparr>has_messageReceivedReportCb := b\<rparr>)" "msteps E fl s (st\<lparr>has_errorLogCb := b\<rparr>)"
  by (rule ev_same [OF assms]; simp add: view_eq_def extends_def List.map_filter_simps views filters_wf_def)+

lemma ev_clientState [evolve]:
  assumes "msteps E fl s st" "m_packetIds c = m_packetIds (clientState st)"
  shows "msteps E fl s (st\<lparr>clientState := c\<rparr>)"
  using assms by (intro ev_same [OF assms(1)]) (simp_all add: view_eq_def extends_def List.map_filter_simps views filters_wf_def)

lemma ev_reuseState:
  assumes "msteps E fl s st" "filters_wf st \<Longrightarrow> strict_sorted (m_subFilters r)"
  shows "msteps E fl s (st\<lparr>reuseState := r\<rparr>)"
  using assms by (intro ev_same [OF assms(1)]) (simp_all add: view_eq_def extends_def List.map_filter_simps views filters_wf_def)

lemma ev_cleanOps [evolve]: "msteps E fl s st \<Longrightarrow> msteps E fl s (cleanOps st)"
proof -
  have "List.map_filter id (filter (\<lambda>p. p \<noteq> None) xs) = List.map_filter id xs" for xs :: "op_ptr option list"
    by (induction xs) (auto simp: List.map_filter_simps split: option.split)
  then show "msteps E fl s st \<Longrightarrow> msteps E fl s (cleanOps st)"
    by (erule_tac ev_same) (simp_all add: cleanOps_def view_eq_def extends_def List.map_filter_simps views filters_wf_def)
qed

lemma timer_slots_simps [simp]:
  "timer_slots (emit e st) = timer_slots st" "timer_slots (set_fault f st) = timer_slots st"
  "timer_slots (errorLog E st) = timer_slots st" "timer_slots (on_timers g st) = timer_slots st"
  "timer_slots (snd (sendMessage E msg st)) = timer_slots st"
  by (simp_all add: timer_slots_def)

lemma slot_of_op:
  "op \<in> set (m_connectOps st) \<Longrightarrow> (con_timer op, ConnectOp_opTimeoutCb, con_id op) \<in> set (timer_slots st)"
  "ka \<in> set (m_keepAliveOps st) \<Longrightarrow> (ka_pingTimer ka, KeepAliveOp_sendPingCb, ka_id ka) \<in> set (timer_slots st)"
  "ka \<in> set (m_keepAliveOps st) \<Longrightarrow> (ka_recvTimer ka, KeepAliveOp_recvTimeoutCb, ka_id ka) \<in> set (timer_slots st)"
  "ka \<in> set (m_keepAliveOps st) \<Longrightarrow> (ka_respTimer ka, KeepAliveOp_pingTimeoutCb, ka_id ka) \<in> set (timer_slots st)"
  "sub \<in> set (m_subscribeOps st) \<Longrightarrow> (sub_timer sub, SubscribeOp_opTimeoutCb, sub_id sub) \<in> set (timer_slots st)"
  "uns \<in> set (m_unsubscribeOps st) \<Longrightarrow>
     (unsub_timer uns, UnsubscribeOp_opTimeoutCb, unsub_id uns) \<in> set (timer_slots st)"
  "rcv \<in> set (m_recvOps st) \<Longrightarrow>
     (rcv_responseTimer rcv, RecvOp_recvTimeoutCb, rcv_id rcv) \<in> set (timer_slots st)"
  "sop \<in> set (m_sendOps st) \<Longrightarrow>
     (snd_responseTimer sop, SendOp_recvTimeoutCb, snd_id sop) \<in> set (timer_slots st)"
  by (force simp: timer_slots_def ka_slots_def)+

section \<open>Sending\<close>

lemma ev_restartPing [evolve]:
  "msteps E fl s st \<Longrightarrow> ka \<in> set (m_keepAliveOps st) \<Longrightarrow> msteps E fl s (KeepAliveOp_restartPingTimer ka st)"
  by (simp add: KeepAliveOp_restartPingTimer_def ev_wait slot_of_op)

lemma ev_messageSent_loop:
  "msteps E fl s st \<Longrightarrow> set kas \<subseteq> set (m_keepAliveOps st) \<Longrightarrow>
     msteps E fl s (fold KeepAliveOp_messageSent kas st)"
  by (induction kas arbitrary: st) (simp_all add: KeepAliveOp_messageSent_def ev_restartPing)

lemma ev_sendMessage [evolve]: "msteps E fl s st \<Longrightarrow> msteps E fl s (snd (sendMessage E' msg st))"
  by (simp add: sendMessage_def Let_def ev_errorLog ev_set_fault ev_messageSent_loop ev_emit split: option.split)

text \<open>An update of an operation that keeps its identity, its timer and its packet identifier.\<close>

lemma ev_upd_send [evolve]:
  assumes "msteps E fl s st" "\<And>op. snd_id (f op) = snd_id op"
    "\<And>op. snd_responseTimer (f op) = snd_responseTimer op"
    "\<And>op. pm_packetId (snd_pubMsg (f op)) = pm_packetId (snd_pubMsg op)"
  shows "msteps E fl s (upd_send i f st)"
  using assms(2-)
  by (intro ev_same [OF assms(1)]) (simp_all add: view_eq_def extends_def List.map_filter_simps views upd_send_def filters_wf_def)

lemma timer_slots_upd_send [simp]:
  assumes "\<And>op. snd_id (f op) = snd_id op" "\<And>op. snd_responseTimer (f op) = snd_responseTimer op"
  shows "timer_slots (upd_send i f st) = timer_slots st"
  using assms by (simp add: timer_slots_def upd_send_def)

lemma ev_on_send [evolve]:
  assumes "msteps E fl s st" "\<And>op. op \<in> set (m_sendOps st) \<Longrightarrow> snd_id op = i \<Longrightarrow> msteps E fl s (f op st)"
  shows "msteps E fl s (on_send i f st)"
  using assms by (auto simp: on_send_def follow_def dest: find_by_SomeD intro: evolve split: option.split)

lemma ev_on_send_ret [evolve]:
  assumes "msteps E fl s st"
    "\<And>op. op \<in> set (m_sendOps st) \<Longrightarrow> snd_id op = i \<Longrightarrow> msteps E fl s (snd (f op st))"
  shows "msteps E fl s (snd (on_send_ret i r f st))"
  using assms
  by (auto simp: on_send_ret_def follow_ret_def dest: find_by_SomeD intro: evolve split: option.split)

section \<open>Completion and resumption\<close>

definition evolving :: "env \<Rightarrow> bool \<Rightarrow> (nat \<Rightarrow> client \<Rightarrow> client) \<Rightarrow> bool" where
  "evolving E fl rs \<longleftrightarrow> (\<forall>s k st. msteps E fl s st \<longrightarrow> msteps E fl s (rs k st))"

lemma ev_complete_drop:
  "evolving E fl rs \<Longrightarrow> msteps E fl s (drop_op ptr st) \<Longrightarrow> msteps E fl s (opComplete_with rs ptr st)"
  by (simp add: opComplete_with_eq evolving_def)

lemma ev_opComplete_with:
  "evolving E fl rs \<Longrightarrow> msteps E fl s st \<Longrightarrow> msteps E fl s (opComplete_with rs ptr st)"
  by (simp add: ev_complete_drop ev_drop)

lemma ptr_of_op:
  "op \<in> set (m_connectOps st) \<Longrightarrow> (Type_Connect, con_id op) \<in> set (all_ptrs st)"
  "sub \<in> set (m_subscribeOps st) \<Longrightarrow> (Type_Subscribe, sub_id sub) \<in> set (all_ptrs st)"
  "uns \<in> set (m_unsubscribeOps st) \<Longrightarrow> (Type_Unsubscribe, unsub_id uns) \<in> set (all_ptrs st)"
  "sop \<in> set (m_sendOps st) \<Longrightarrow> (Type_Send, snd_id sop) \<in> set (all_ptrs st)"
  by (auto simp: all_ptrs_def)

lemma ev_completeWithCb_with:
  assumes "evolving E fl rs" "msteps E fl s st"
  shows "msteps E fl s (SendOp_completeWithCb_with rs i status st)"
proof -
  have "msteps E fl s (emit (EvPublishComplete cb i status) (opComplete_with rs (Type_Send, i) st))"
    if "op \<in> set (m_sendOps st)" "snd_id op = i" for op cb
    using that ptr_of_op(4) [OF that(1)]
    by (intro ev_finish [OF assms(2), where ptr = "(Type_Send, i)"]) (simp_all add: ev_complete_drop [OF assms(1)])
  then show ?thesis
    using assms by (auto simp: SendOp_completeWithCb_with_def Let_def
        intro!: evolve ev_opComplete_with split: option.split)
qed

lemma ev_restartResponse [evolve]:
  "msteps E fl s st \<Longrightarrow> (snd_responseTimer op, SendOp_recvTimeoutCb, snd_id op) \<in> set (timer_slots st) \<Longrightarrow>
     msteps E fl s (SendOp_restartResponseTimer op st)"
  by (simp add: SendOp_restartResponseTimer_def ev_wait)

lemma ev_doSendInternal_with:
  "evolving E fl rs \<Longrightarrow> msteps E fl s st \<Longrightarrow> msteps E fl s (snd (SendOp_doSendInternal_with rs E' i st))"
  by (auto simp: SendOp_doSendInternal_with_def Let_def split_def slot_of_op
      intro!: evolve ev_completeWithCb_with)

lemma ev_resume_with:
  "evolving E fl rs \<Longrightarrow> msteps E fl s st \<Longrightarrow> msteps E fl s (snd (SendOp_resume_with rs E' i st))"
  by (auto simp: SendOp_resume_with_def Let_def split_def
      intro!: evolve ev_completeWithCb_with ev_doSendInternal_with)

lemma evolving_fuel: "evolving E True (resumeSendOpsSince_fuel n E')"
proof (induction n)
  case (Suc n)
  have "msteps E True s (resumeSendOpsSince_fuel (Suc n) E' k st)" if "msteps E True s st" for s k st
    using that Suc ev_resume_with [OF Suc that] by (auto simp: Let_def split_def evolving_def)
  then show ?case by (simp add: evolving_def)
qed (simp add: evolving_def ev_fuel)

lemma msteps_strengthen:
  assumes "msteps E fl s st" "msteps E True st st'"
    "client_inv st \<Longrightarrow> fault st' = Some OutOfFuel \<Longrightarrow> fault st = Some OutOfFuel"
  shows "msteps E fl s st'"
  using assms by (intro msteps_trans [OF assms(1)]) (auto simp: msteps_def)

text \<open>The bound of the resumption is never reached from a consistent state.\<close>

lemma evolving_resume: "evolving E fl (resumeSendOpsSince E')"
  unfolding evolving_def
proof (intro allI impI, erule msteps_strengthen)
  fix k st
  show "msteps E True st (resumeSendOpsSince E' k st)"
    using evolving_fuel msteps_refl by (simp add: evolving_def resumeSendOpsSince_def)
  assume "client_inv st"
  then have "shrinks st (resumeSendOpsSince E' k st)"
    using ops_wf_distinct(7) by (intro resumeSendOpsSince_shrinks) (auto simp: client_inv_def)
  then show "fault (resumeSendOpsSince E' k st) = Some OutOfFuel \<Longrightarrow> fault st = Some OutOfFuel"
    by (simp add: shrinks_def)
qed

lemma ev_core [evolve]:
  assumes "msteps E fl s st"
  shows "msteps E fl s (resumeSendOpsSince E' k st)" "msteps E fl s (opComplete E' ptr st)"
    "msteps E fl s (SendOp_completeWithCb E' i status st)"
    "msteps E fl s (snd (SendOp_doSendInternal E' i st))" "msteps E fl s (snd (SendOp_resume E' i st))"
  using evolving_resume assms
  by (simp_all add: evolving_def opComplete_def SendOp_completeWithCb_def SendOp_doSendInternal_def
      SendOp_resume_def ev_opComplete_with ev_completeWithCb_with ev_doSendInternal_with ev_resume_with)


section \<open>The end of operations and of the session\<close>

lemma ev_follow:
  assumes "msteps E fl s st" "\<And>op. op \<in> set xs \<Longrightarrow> key op = i \<Longrightarrow> msteps E fl s (f op st)"
  shows "msteps E fl s (follow t key xs i f st)"
  using assms by (auto simp: follow_def dest: find_by_SomeD intro: evolve split: option.split)

lemma ev_follow_ret:
  assumes "msteps E fl s st" "\<And>op. op \<in> set xs \<Longrightarrow> key op = i \<Longrightarrow> msteps E fl s (snd (f op st))"
  shows "msteps E fl s (snd (follow_ret t key xs i r f st))"
  using assms by (auto simp: follow_ret_def dest: find_by_SomeD intro: evolve split: option.split)

lemma ev_on_ops [evolve]:
  assumes "msteps E fl s st"
  shows "(\<And>op. op \<in> set (m_connectOps st) \<Longrightarrow> con_id op = i \<Longrightarrow> msteps E fl s (f1 op st)) \<Longrightarrow>
      msteps E fl s (on_connect i f1 st)"
    "(\<And>op. op \<in> set (m_keepAliveOps st) \<Longrightarrow> ka_id op = i \<Longrightarrow> msteps E fl s (f2 op st)) \<Longrightarrow>
      msteps E fl s (on_keepAlive i f2 st)"
    "(\<And>op. op \<in> set (m_disconnectOps st) \<Longrightarrow> dis_id op = i \<Longrightarrow> msteps E fl s (f3 op st)) \<Longrightarrow>
      msteps E fl s (on_disconnect i f3 st)"
    "(\<And>op. op \<in> set (m_subscribeOps st) \<Longrightarrow> sub_id op = i \<Longrightarrow> msteps E fl s (f4 op st)) \<Longrightarrow>
      msteps E fl s (on_subscribe i f4 st)"
    "(\<And>op. op \<in> set (m_unsubscribeOps st) \<Longrightarrow> unsub_id op = i \<Longrightarrow> msteps E fl s (f5 op st)) \<Longrightarrow>
      msteps E fl s (on_unsubscribe i f5 st)"
    "(\<And>op. op \<in> set (m_recvOps st) \<Longrightarrow> rcv_id op = i \<Longrightarrow> msteps E fl s (f6 op st)) \<Longrightarrow>
      msteps E fl s (on_recv i f6 st)"
  using assms by (simp_all add: on_connect_def on_keepAlive_def on_disconnect_def on_subscribe_def
      on_unsubscribe_def on_recv_def ev_follow)

lemma ev_on_ops_ret [evolve]:
  assumes "msteps E fl s st"
  shows "(\<And>op. op \<in> set (m_connectOps st) \<Longrightarrow> con_id op = i \<Longrightarrow> msteps E fl s (snd (f1 op st))) \<Longrightarrow>
      msteps E fl s (snd (on_connect_ret i r f1 st))"
    "(\<And>op. op \<in> set (m_disconnectOps st) \<Longrightarrow> dis_id op = i \<Longrightarrow> msteps E fl s (snd (f3 op st))) \<Longrightarrow>
      msteps E fl s (snd (on_disconnect_ret i r f3 st))"
    "(\<And>op. op \<in> set (m_subscribeOps st) \<Longrightarrow> sub_id op = i \<Longrightarrow> msteps E fl s (snd (f4 op st))) \<Longrightarrow>
      msteps E fl s (snd (on_subscribe_ret i r f4 st))"
    "(\<And>op. op \<in> set (m_unsubscribeOps st) \<Longrightarrow> unsub_id op = i \<Longrightarrow> msteps E fl s (snd (f5 op st))) \<Longrightarrow>
      msteps E fl s (snd (on_unsubscribe_ret i r f5 st))"
  using assms by (simp_all add: on_connect_ret_def on_disconnect_ret_def on_subscribe_ret_def
      on_unsubscribe_ret_def ev_follow_ret)

lemma ev_completeOpInternal [evolve]:
  assumes "msteps E fl s st"
  shows "msteps E fl s (ConnectOp_completeOpInternal E' i status resp st)"
    "msteps E fl s (SubscribeOp_completeOpInternal E' i status codes st)"
    "msteps E fl s (UnsubscribeOp_completeOpInternal E' i status st)"
proof -
  note rs = ev_complete_drop [OF evolving_resume [of E fl E'], folded opComplete_def]
  have "msteps E fl s (emit (EvConnectComplete cb i status resp) (opComplete E' (Type_Connect, i) st))"
    if "op \<in> set (m_connectOps st)" "con_id op = i" for op cb
    using that ptr_of_op(1) [OF that(1)]
    by (intro ev_finish [OF assms, where ptr = "(Type_Connect, i)"]) (simp_all add: rs)
  then show "msteps E fl s (ConnectOp_completeOpInternal E' i status resp st)"
    using assms by (auto simp: ConnectOp_completeOpInternal_def Let_def intro!: evolve split: option.split)
  have "msteps E fl s (emit (EvSubscribeComplete cb i status codes) (opComplete E' (Type_Subscribe, i) st))"
    if "op \<in> set (m_subscribeOps st)" "sub_id op = i" for op cb
    using that ptr_of_op(2) [OF that(1)]
    by (intro ev_finish [OF assms, where ptr = "(Type_Subscribe, i)"]) (simp_all add: rs)
  then show "msteps E fl s (SubscribeOp_completeOpInternal E' i status codes st)"
    using assms by (auto simp: SubscribeOp_completeOpInternal_def Let_def intro!: evolve split: option.split)
  have "msteps E fl s (emit (EvUnsubscribeComplete cb i status) (opComplete E' (Type_Unsubscribe, i) st))"
    if "op \<in> set (m_unsubscribeOps st)" "unsub_id op = i" for op cb
    using that ptr_of_op(3) [OF that(1)]
    by (intro ev_finish [OF assms, where ptr = "(Type_Unsubscribe, i)"]) (simp_all add: rs)
  then show "msteps E fl s (UnsubscribeOp_completeOpInternal E' i status st)"
    using assms by (auto simp: UnsubscribeOp_completeOpInternal_def Let_def intro!: evolve split: option.split)
qed

lemma ev_terminateOp [evolve]: "msteps E fl s st \<Longrightarrow> msteps E fl s (terminateOp E' status ptr st)"
  by (cases "(E', status, ptr, st)" rule: terminateOp.cases)
    (auto simp: Op_terminateOpImpl_def intro!: evolve)

lemma ev_connectivityChanged [evolve]: "msteps E fl s st \<Longrightarrow> msteps E fl s (connectivityChanged E' ptr st)"
  by (cases "(E', ptr, st)" rule: connectivityChanged.cases)
    (auto simp: ConnectOp_connectivityChangedImpl_def RecvOp_connectivityChangedImpl_def
      SendOp_connectivityChangedImpl_def intro!: evolve)

lemma ev_for_ops:
  assumes "\<And>p st. msteps E fl s st \<Longrightarrow> msteps E fl s (body p st)" "msteps E fl s st"
  shows "msteps E fl s (for_ops body st)"
proof -
  have "msteps E fl s (fold (\<lambda>k s'. if length (m_ops s') \<noteq> n then set_fault IteratorInvalidated s'
      else body (m_ops s' ! k) s') ks st)" for ks n
    using assms(2) by (induction ks arbitrary: st) (simp_all add: assms(1) ev_set_fault)
  then show ?thesis by (simp add: for_ops_def)
qed

lemma ev_terminateOps [evolve]: "msteps E fl s st \<Longrightarrow> msteps E fl s (terminateOps E' status mode st)"
  unfolding terminateOps_def
proof (rule ev_for_ops)
  fix p st assume "msteps E fl s st"
  then show "msteps E fl s (terminate_body E' status mode p st)" by (cases p) (auto intro: evolve)
qed

lemma ev_brokerDisconnected [evolve]:
  assumes "msteps E fl s st"
  shows "msteps E fl s (brokerDisconnected_st E' reason status st)"
    "msteps E fl s (brokerDisconnected E' reason st)"
proof -
  have "msteps E fl s (for_ops (connectivity_body E') st)" if "msteps E fl s st" for st
  proof (rule ev_for_ops [OF _ that])
    fix p st assume "msteps E fl s st"
    then show "msteps E fl s (connectivity_body E' p st)" by (cases p) (auto intro: evolve)
  qed
  moreover have "msteps E fl s (session_down st)"
    using assms by (auto simp: session_down_def intro!: evolve)
  ultimately show *: "msteps E fl s (brokerDisconnected_st E' reason status st)" for reason status
    by (auto simp: brokerDisconnected_st_def report_disconnect_def intro!: evolve split: option.split)
  show "msteps E fl s (brokerDisconnected E' reason st)" by (simp add: brokerDisconnected_def *)
qed

section \<open>Keeping the session alive\<close>

lemma ev_restartRecv [evolve]:
  "msteps E fl s st \<Longrightarrow> ka \<in> set (m_keepAliveOps st) \<Longrightarrow> msteps E fl s (KeepAliveOp_restartRecvTimer ka st)"
  by (simp add: KeepAliveOp_restartRecvTimer_def ev_wait slot_of_op)

lemma ev_KeepAliveOp_dispatch [evolve]:
  "msteps E fl s st \<Longrightarrow> ka \<in> set (m_keepAliveOps st) \<Longrightarrow> msteps E fl s (KeepAliveOp_dispatch msg ka st)"
  by (auto simp: KeepAliveOp_dispatch_def KeepAliveOp_handle_Pingresp_def
      KeepAliveOp_handle_ProtMessage_def intro!: evolve)

lemma m_keepAliveOps_dispatch: "m_keepAliveOps (KeepAliveOp_dispatch msg ka st) = m_keepAliveOps st"
  by (simp add: KeepAliveOp_dispatch_def KeepAliveOp_handle_Pingresp_def
      KeepAliveOp_handle_ProtMessage_def KeepAliveOp_restartRecvTimer_def)

lemma ev_dispatch_keepAlives [evolve]: "msteps E fl s st \<Longrightarrow> msteps E fl s (dispatch_keepAlives msg st)"
proof -
  have "msteps E fl s st \<Longrightarrow> set kas \<subseteq> set (m_keepAliveOps st) \<Longrightarrow>
      msteps E fl s (fold (KeepAliveOp_dispatch msg) kas st)" for kas
    by (induction kas arbitrary: st) (simp_all add: ev_KeepAliveOp_dispatch m_keepAliveOps_dispatch)
  then show "msteps E fl s st \<Longrightarrow> msteps E fl s (dispatch_keepAlives msg st)"
    by (simp add: dispatch_keepAlives_def)
qed

lemma ev_sendPing [evolve]:
  "msteps E fl s st \<Longrightarrow> ka \<in> set (m_keepAliveOps st) \<Longrightarrow> msteps E fl s (KeepAliveOp_sendPing E' ka st)"
  by (auto simp: KeepAliveOp_sendPing_def Let_def slot_of_op intro!: evolve ev_wait)

lemma ev_pingTimeout [evolve]: "msteps E fl s st \<Longrightarrow> msteps E fl s (KeepAliveOp_pingTimeoutInternal E' st)"
  by (auto simp: KeepAliveOp_pingTimeoutInternal_def intro!: evolve)

section \<open>Outgoing publishes\<close>

lemma ev_upd_pub [evolve]:
  assumes "msteps E fl s st" "\<And>m. pm_packetId (f m) = pm_packetId m"
  shows "msteps E fl s (upd_pub i f st)"
  using assms by (auto simp: upd_pub_def intro!: evolve)

lemma ev_verify [evolve]:
  assumes "msteps E fl s st"
  shows "msteps E fl s (snd (Op_verifyPubTopic E' t b st))" "msteps E fl s (snd (Op_verifySubFilter E' t st))"
  using assms by (auto simp: Op_verifyPubTopic_def Op_verifySubFilter_def log_opt_def split_def Let_def
      intro!: evolve split: option.split)

lemma ev_SendOp_config [evolve]:
  assumes "msteps E fl s st"
  shows "msteps E fl s (snd (SendOp_config E' c i st))" "msteps E fl s (snd (SendOp_setResendAttempts E' n i st))"
    "msteps E fl s (snd (SendOp_getResendAttempts i st))" "msteps E fl s (snd (SendOp_cancel E' i st))"
    "msteps E fl s (SendOp_setResponseTimeout ms i st)"
  using assms by (auto simp: SendOp_config_def SendOp_setResendAttempts_def SendOp_getResendAttempts_def
      SendOp_cancel_def SendOp_setResponseTimeout_def allowNextPrepare_def split_def Let_def intro!: evolve)

lemma timer_slots_upd_pub [simp]: "timer_slots (upd_pub i f st) = timer_slots st"
  by (simp add: upd_pub_def)

lemma ev_resendDupMsg [evolve]: "msteps E fl s st \<Longrightarrow> msteps E fl s (SendOp_resendDupMsg E' i st)"
  by (auto simp: SendOp_resendDupMsg_def split_def Let_def slot_of_op intro!: evolve)

lemma ev_resends [evolve]:
  assumes "msteps E fl s st"
  shows "msteps E fl s (SendOp_postReconnectionResend E' i st)" "msteps E fl s (SendOp_forceDupResend E' i st)"
    "msteps E fl s (SendOp_responseTimeoutInternal E' i st)"
  using assms by (auto simp: SendOp_postReconnectionResend_def SendOp_forceDupResend_def
      SendOp_responseTimeoutInternal_def intro!: evolve)

lemma ev_acks [evolve]:
  assumes "msteps E fl s st"
  shows "msteps E fl s (SendOp_handle_Puback E' i st)" "msteps E fl s (SendOp_handle_Pubrec E' pid i st)"
    "msteps E fl s (SendOp_handle_Pubcomp E' pid i st)"
  using assms by (auto simp: SendOp_handle_Puback_def SendOp_handle_Pubrec_def SendOp_handle_Pubcomp_def
      SendOp_protocolError_def split_def Let_def slot_of_op intro!: evolve)

lemma ev_SendOp_dispatch [evolve]: "msteps E fl s st \<Longrightarrow> msteps E fl s (SendOp_dispatch E' msg i st)"
  by (auto simp: SendOp_dispatch_def intro: evolve split: prot_msg.split)

lemma ev_resendAllUntil_fuel:
  "msteps E True s st \<Longrightarrow> msteps E True s (resendAllUntil_fuel n E' i idx st)"
  by (induction n E' i idx st rule: resendAllUntil_fuel.induct) (auto simp: Let_def intro!: evolve ev_fuel)

lemma ev_resendAllUntil [evolve]: "msteps E fl s st \<Longrightarrow> msteps E fl s (resendAllUntil E' i st)"
proof (erule msteps_strengthen)
  show "msteps E True st (resendAllUntil E' i st)"
    by (simp add: resendAllUntil_def ev_resendAllUntil_fuel msteps_refl del: resendAllUntil_fuel.simps)
  assume "client_inv st"
  then have "shrinks st (resendAllUntil E' i st)"
    using ops_wf_distinct(7) by (intro resendAllUntil_shrinks) (auto simp: client_inv_def)
  then show "fault (resendAllUntil E' i st) = Some OutOfFuel \<Longrightarrow> fault st = Some OutOfFuel"
    by (simp add: shrinks_def)
qed

lemma ev_handle_ack [evolve]: "msteps E fl s st \<Longrightarrow> msteps E fl s (handle_ack E' msg pid b st)"
  by (auto simp: handle_ack_def processPublishAckMsg_def Let_def split_def intro!: evolve split: option.split)


section \<open>Incoming publishes\<close>

lemma ev_new: "msteps E fl s st \<Longrightarrow> adds_op E st st' \<Longrightarrow> extends st st' \<Longrightarrow> msteps E fl s st'"
  by (rule msteps_step [OF ms_new extends_fuel])

lemma ev_upd_recv [evolve]:
  assumes "msteps E fl s st" "\<And>op. rcv_id (f op) = rcv_id op"
    "\<And>op. rcv_responseTimer (f op) = rcv_responseTimer op"
  shows "msteps E fl s (upd_recv i f st)"
  using assms(2-)
  by (intro ev_same [OF assms(1)]) (simp_all add: view_eq_def extends_def List.map_filter_simps views upd_recv_def filters_wf_def)

lemma ev_RecvOp_timers [evolve]:
  assumes "msteps E fl s st" "op \<in> set (m_recvOps st)"
  shows "msteps E fl s (RecvOp_restartResponseTimer E' op st)" "msteps E fl s (RecvOp_resetTimer E' op st)"
    "msteps E fl s (RecvOp_postReconnectionResume E' op st)"
proof -
  have *: "msteps E fl s st' \<Longrightarrow> op \<in> set (m_recvOps st') \<Longrightarrow> msteps E fl s (RecvOp_restartResponseTimer E' op st')" for st'
    by (simp add: RecvOp_restartResponseTimer_def ev_wait slot_of_op)
  then show "msteps E fl s (RecvOp_restartResponseTimer E' op st)" using assms .
  show "msteps E fl s (RecvOp_resetTimer E' op st)" using assms by (auto simp: RecvOp_resetTimer_def intro: evolve)
  show "msteps E fl s (RecvOp_postReconnectionResume E' op st)"
    using assms by (auto simp: RecvOp_postReconnectionResume_def RecvOp_connectivityChangedImpl_def
        intro!: * evolve)
qed

lemma ev_recv_error [evolve]: "msteps E fl s st \<Longrightarrow> msteps E fl s (recv_protocolError E' st)"
  by (auto simp: recv_protocolError_def intro!: evolve)

lemma ev_reportMsgInfo [evolve]: "msteps E fl s st \<Longrightarrow> msteps E fl s (reportMsgInfo info st)"
  by (auto simp: reportMsgInfo_def intro: evolve)

lemma ev_RecvOp_accept [evolve]: "msteps E fl s st \<Longrightarrow> msteps E fl s (RecvOp_accept E' m i st)"
  by (auto simp: RecvOp_accept_def Let_def intro!: evolve)

lemma ev_RecvOp_handle_Publish: "msteps E fl s st \<Longrightarrow> msteps E fl s (RecvOp_handle_Publish E' m i st)"
  by (auto simp: RecvOp_handle_Publish_def split_def Let_def intro!: evolve)

lemma ev_RecvOp_dispatch [evolve]: "msteps E fl s st \<Longrightarrow> msteps E fl s (RecvOp_dispatch E' msg i st)"
  by (auto simp: RecvOp_dispatch_def RecvOp_handle_Pubrel_def Let_def
      intro!: evolve ev_RecvOp_handle_Publish split: prot_msg.split)

lemma ev_RecvOp_timeout [evolve]: "msteps E fl s st \<Longrightarrow> msteps E fl s (RecvOp_responseTimeoutInternal E' i st)"
  by (auto simp: RecvOp_responseTimeoutInternal_def intro!: evolve)

lemma live_ops_append: "List.map_filter id (xs @ [Some p]) = List.map_filter id xs @ [p]"
  by (simp add: List.map_filter_def)

lemma push_op_views:
  "live_ops (push_op E p st) = live_ops st @ [p]" "all_ptrs (push_op E p st) = all_ptrs st"
  "timer_slots (push_op E p st) = timer_slots st" "op_pids (push_op E p st) = op_pids st"
  "next_id (push_op E p st) = next_id st" "timerMgr (push_op E p st) = timerMgr st"
  "clientState (push_op E p st) = clientState st" "reuseState (push_op E p st) = reuseState st"
  "out (push_op E p st) = out st" "fault st \<noteq> None \<Longrightarrow> fault (push_op E p st) = fault st"
  "fault (push_op E p st) = Some OutOfFuel \<longleftrightarrow> fault st = Some OutOfFuel"
  by (auto simp: push_op_def views live_ops_append set_fault_def)

lemma push_op_lists [simp]:
  "m_connectOps (push_op E p st) = m_connectOps st" "m_keepAliveOps (push_op E p st) = m_keepAliveOps st"
  "m_disconnectOps (push_op E p st) = m_disconnectOps st" "m_subscribeOps (push_op E p st) = m_subscribeOps st"
  "m_unsubscribeOps (push_op E p st) = m_unsubscribeOps st" "m_recvOps (push_op E p st) = m_recvOps st"
  "m_sendOps (push_op E p st) = m_sendOps st" "sessionState (push_op E p st) = sessionState st"
  by (simp_all add: push_op_def)

lemma ev_createRecvOp [evolve]:
  assumes "msteps E fl s st" shows "msteps E fl s (createRecvOp E m st)"
proof -
  obtain t tm where t: "allocTimer (TimersLimit E) (timerMgr st) = (t, tm)" by (metis surj_pair)
  obtain op st1 where new: "RecvOp_new E st = (op, st1)" by (metis surj_pair)
  define st3 where "st3 = (push_op E (Type_Recv, rcv_id op) st1)\<lparr>m_recvOps := m_recvOps st1 @ [op]\<rparr>"
  have op: "op = \<lparr>rcv_id = next_id st, rcv_responseTimer = t, rcv_packetId = 0\<rparr>"
    and st1: "st1 = st\<lparr>timerMgr := tm, next_id := next_id st + 1\<rparr>"
    using new t by (auto simp: RecvOp_new_def client_allocTimer_def)
  have "adds_op E st st3" if "\<not> vec_full (RecvOpsLimit E) (m_recvOps st)" unfolding adds_op_def
    by (rule exI [of _ Type_Recv], rule exI [of _ "[(t, RecvOp_recvTimeoutCb, next_id st)]"], rule exI [of _ "[]"])
      (use that in \<open>simp add: has_room_def vec_full_def not_le st3_def op st1 push_op_def views live_ops_append t\<close>)
  moreover have "extends st st3"
    by (auto simp: extends_def List.map_filter_simps filters_wf_def st3_def st1 push_op_def set_fault_def)
  ultimately have "msteps E fl s st3" if "\<not> vec_full (RecvOpsLimit E) (m_recvOps st)"
    using ev_new [OF assms] that by blast
  then show ?thesis
    using assms by (auto simp: createRecvOp_def new st3_def Let_def intro!: evolve)
qed

lemma findRecvOp_in: "findRecvOp pid st = Some op \<Longrightarrow> op \<in> set (m_recvOps st)"
  by (auto simp: findRecvOp_def find_Some_iff)

lemma ev_handle_Publish [evolve]: "msteps E fl s st \<Longrightarrow> msteps E fl s (ClientImpl_handle_Publish E m st)"
  by (auto simp: ClientImpl_handle_Publish_def Let_def dest: findRecvOp_in intro!: evolve split: option.split)

lemma ev_handle_Pubrel [evolve]: "msteps E fl s st \<Longrightarrow> msteps E fl s (ClientImpl_handle_Pubrel E pid v st)"
  by (auto simp: ClientImpl_handle_Pubrel_def Let_def intro!: evolve split: option.split)

section \<open>Subscriptions\<close>

lemma ev_upd_subs [evolve]:
  assumes "msteps E fl s st"
  shows "(\<And>m. sm_packetId (f m) = sm_packetId m) \<Longrightarrow> msteps E fl s (upd_subMsg i f st)"
    "(\<And>m. um_packetId (g m) = um_packetId m) \<Longrightarrow> msteps E fl s (upd_unsubMsg i g st)"
    "msteps E fl s (SubscribeOp_setResponseTimeout ms i st)"
    "msteps E fl s (UnsubscribeOp_setResponseTimeout ms i st)"
proof -
  show "(\<And>m. sm_packetId (f m) = sm_packetId m) \<Longrightarrow> msteps E fl s (upd_subMsg i f st)"
    by (rule ev_same [OF assms]) (simp_all add: view_eq_def extends_def List.map_filter_simps views upd_subMsg_def filters_wf_def)
  show "(\<And>m. um_packetId (g m) = um_packetId m) \<Longrightarrow> msteps E fl s (upd_unsubMsg i g st)"
    by (rule ev_same [OF assms]) (simp_all add: view_eq_def extends_def List.map_filter_simps views upd_unsubMsg_def filters_wf_def)
  show "msteps E fl s (SubscribeOp_setResponseTimeout ms i st)"
    unfolding SubscribeOp_setResponseTimeout_def
    by (intro ev_on_ops assms, rule ev_same [OF assms])
      (simp_all add: view_eq_def extends_def List.map_filter_simps views upd_subscribe_def filters_wf_def)
  show "msteps E fl s (UnsubscribeOp_setResponseTimeout ms i st)"
    unfolding UnsubscribeOp_setResponseTimeout_def
    by (intro ev_on_ops assms, rule ev_same [OF assms])
      (simp_all add: view_eq_def extends_def List.map_filter_simps views upd_unsubscribe_def filters_wf_def)
qed

lemma suback_loop_sorted: "strict_sorted fs \<Longrightarrow> strict_sorted (snd (suback_loop E v rcs ts acc fs))"
  by (induction E v rcs ts acc fs rule: suback_loop.induct)
    (auto simp: Let_def lb_found_iff strict_sorted_lb_insert)

lemma unsuback_filters_sorted: "strict_sorted fs \<Longrightarrow> strict_sorted (unsuback_filters ts fs)"
  by (induction ts arbitrary: fs) (auto simp: unsuback_filters_def strict_sorted_lb_erase)

lemma ev_set_subFilters:
  assumes "msteps E fl s st" "filters_wf st \<Longrightarrow> strict_sorted fs"
  shows "msteps E fl s (set_subFilters fs st)"
  using assms by (simp add: set_subFilters_def ev_reuseState)

lemma ev_suback_outcome [evolve]: "msteps E fl s st \<Longrightarrow> msteps E fl s (snd (suback_outcome E' codes op st))"
  by (auto simp: suback_outcome_def Let_def split_def filters_wf_def suback_loop_sorted
      intro!: evolve ev_set_subFilters)

lemma ev_sub_config [evolve]:
  assumes "msteps E fl s st"
  shows "msteps E fl s (snd (SubscribeOp_configTopic E' c i st))" "msteps E fl s (snd (SubscribeOp_cancel E' i st))"
    "msteps E fl s (snd (UnsubscribeOp_configTopic E' d i st))" "msteps E fl s (snd (UnsubscribeOp_cancel E' i st))"
  using assms by (auto simp: SubscribeOp_configTopic_def SubscribeOp_cancel_def UnsubscribeOp_configTopic_def
      UnsubscribeOp_cancel_def allowNextPrepare_def split_def Let_def intro!: evolve)

lemma ev_sub_dispatch [evolve]:
  assumes "msteps E fl s st"
  shows "msteps E fl s (SubscribeOp_dispatch E' msg i st)" "msteps E fl s (UnsubscribeOp_dispatch E' msg i st)"
proof -
  show "msteps E fl s (SubscribeOp_dispatch E' msg i st)"
    using assms by (auto simp: SubscribeOp_dispatch_def SubscribeOp_handle_Suback_def Let_def split_def
        intro!: evolve split: prot_msg.split)
  show "msteps E fl s (UnsubscribeOp_dispatch E' msg i st)"
    using assms by (auto simp: UnsubscribeOp_dispatch_def UnsubscribeOp_handle_Unsuback_def Let_def
        filters_wf_def unsuback_filters_sorted intro!: evolve ev_set_subFilters split: prot_msg.split)
qed


section \<open>Connection\<close>

lemma ev_upd_connect [evolve]:
  assumes "msteps E fl s st" "\<And>op. con_id (f op) = con_id op" "\<And>op. con_timer (f op) = con_timer op"
  shows "msteps E fl s (upd_connect i f st)"
  using assms(2-)
  by (intro ev_same [OF assms(1)]) (simp_all add: view_eq_def extends_def List.map_filter_simps views upd_connect_def filters_wf_def)

lemma ev_connect_config [evolve]:
  assumes "msteps E fl s st"
  shows "msteps E fl s (snd (ConnectOp_config E' c i st))" "msteps E fl s (snd (ConnectOp_configWill E' w i st))"
    "msteps E fl s (snd (ConnectOp_cancel E' i st))" "msteps E fl s (snd (DisconnectOp_cancel E' i st))"
    "msteps E fl s (ConnectOp_setResponseTimeout ms i st)"
proof -
  note [intro!] = evolve and [simp] = allowNextPrepare_def split_def Let_def
  show "msteps E fl s (snd (ConnectOp_config E' c i st))" using assms by (auto simp: ConnectOp_config_def)
  show "msteps E fl s (snd (ConnectOp_configWill E' w i st))" using assms by (auto simp: ConnectOp_configWill_def)
  show "msteps E fl s (snd (ConnectOp_cancel E' i st))" using assms by (auto simp: ConnectOp_cancel_def)
  show "msteps E fl s (snd (DisconnectOp_cancel E' i st))" using assms by (auto simp: DisconnectOp_cancel_def)
  show "msteps E fl s (ConnectOp_setResponseTimeout ms i st)"
    using assms by (auto simp: ConnectOp_setResponseTimeout_def)
qed

lemma ev_for_sends:
  assumes "\<And>p st. msteps E fl s st \<Longrightarrow> msteps E fl s (body p st)" "msteps E fl s st"
  shows "msteps E fl s (for_sends body st)"
proof -
  have "msteps E fl s (fold (\<lambda>k s'. if length (m_sendOps s') \<noteq> n then set_fault IteratorInvalidated s'
      else body (snd_id (m_sendOps s' ! k)) s') ks st)" for ks n
    using assms(2) by (induction ks arbitrary: st) (simp_all add: assms(1) ev_set_fault)
  then show ?thesis by (simp add: for_sends_def)
qed

lemma m_recvOps_resume: "m_recvOps (RecvOp_postReconnectionResume E op st) = m_recvOps st"
  by (simp add: RecvOp_postReconnectionResume_def RecvOp_restartResponseTimer_def
      RecvOp_connectivityChangedImpl_def)

lemma ev_session_resumed [evolve]: "msteps E fl s st \<Longrightarrow> msteps E fl s (session_resumed E' st)"
proof -
  have f: "msteps E fl s st \<Longrightarrow> set ops \<subseteq> set (m_recvOps st) \<Longrightarrow>
      msteps E fl s (fold (RecvOp_postReconnectionResume E') ops st)" for ops st
    by (induction ops arbitrary: st) (simp_all add: ev_RecvOp_timers m_recvOps_resume)
  assume "msteps E fl s st"
  then have "msteps E fl s (for_sends (SendOp_postReconnectionResend E') st)"
    by (intro ev_for_sends) (rule ev_resends)
  from f [OF this order_refl] show "msteps E fl s (session_resumed E' st)"
    by (simp add: session_resumed_def Let_def ev_core)
qed

lemma ev_session_dropped [evolve]: "msteps E fl s st \<Longrightarrow> msteps E fl s (session_dropped E' st)"
  unfolding session_dropped_def
proof (rule ev_for_ops)
  fix p st assume "msteps E fl s st"
  then show "msteps E fl s (abort_body E' p st)" by (cases p) (auto intro: evolve)
qed

lemma ev_createKeepAlive [evolve]:
  assumes "msteps E fl s st" shows "msteps E fl s (createKeepAliveOpIfNeeded E st)"
proof -
  obtain t1 tm1 where t1: "allocTimer (TimersLimit E) (timerMgr st) = (t1, tm1)" by (metis surj_pair)
  obtain t2 tm2 where t2: "allocTimer (TimersLimit E) tm1 = (t2, tm2)" by (metis surj_pair)
  obtain t3 tm3 where t3: "allocTimer (TimersLimit E) tm2 = (t3, tm3)" by (metis surj_pair)
  define op where "op = \<lparr>ka_id = next_id st, ka_pingTimer = t1, ka_recvTimer = t2, ka_respTimer = t3\<rparr>"
  define st1 where "st1 = st\<lparr>timerMgr := tm3, next_id := next_id st + 1\<rparr>"
  have new: "KeepAliveOp_new E st = (op, KeepAliveOp_restartPingTimer op st1)"
    by (simp add: KeepAliveOp_new_def client_allocTimer_def t1 t2 t3 op_def st1_def Let_def)
  define st2 where "st2 = (push_op E (Type_KeepAlive, ka_id op) st1)\<lparr>m_keepAliveOps := m_keepAliveOps st @ [op]\<rparr>"
  have "adds_op E st st2" if "m_keepAliveOps st = []" unfolding adds_op_def
    by (rule exI [of _ Type_KeepAlive],
        rule exI [of _ "[(t1, KeepAliveOp_sendPingCb, next_id st),
          (t2, KeepAliveOp_recvTimeoutCb, next_id st), (t3, KeepAliveOp_pingTimeoutCb, next_id st)]"],
        rule exI [of _ "[]"])
      (use that in \<open>simp add: has_room_def KeepAliveOpsLimit_def st2_def op_def st1_def push_op_def views live_ops_append
          t1 t2 t3 ka_slots_def\<close>)
  moreover have "extends st st2"
    by (auto simp: extends_def List.map_filter_simps filters_wf_def st2_def st1_def push_op_def set_fault_def)
  ultimately have 2: "msteps E fl s st2" if "m_keepAliveOps st = []" using ev_new [OF assms] that by blast
  have eq: "(push_op E (Type_KeepAlive, ka_id op) (KeepAliveOp_restartPingTimer op st1))
      \<lparr>m_keepAliveOps := m_keepAliveOps st @ [op]\<rparr> = KeepAliveOp_restartPingTimer op st2"
    by (simp add: st2_def KeepAliveOp_restartPingTimer_def push_op_def on_timers_def set_fault_def)
  have "msteps E fl s (KeepAliveOp_restartPingTimer op st2)" if "m_keepAliveOps st = []"
    using 2 [OF that] by (rule ev_restartPing) (simp add: st2_def)
  then show ?thesis
    using assms eq
    by (cases "m_keepAliveOps st = []") (simp_all add: createKeepAliveOpIfNeeded_def new Let_def st1_def)
qed

lemma ev_brokerConnected [evolve]: "msteps E fl s st \<Longrightarrow> msteps E fl s (brokerConnected E sp st)"
proof -
  assume "msteps E fl s st"
  then have "msteps E fl s (session_up st)" by (simp add: session_up_def ev_flags ev_clientState)
  then show ?thesis
    by (cases sp) (simp_all add: brokerConnected_def ev_createKeepAlive ev_session_resumed ev_session_dropped)
qed

lemma ev_connack_accepted [evolve]: "msteps E fl s st \<Longrightarrow> msteps E fl s (connack_accepted E sp m st)"
proof -
  assume st: "msteps E fl s st"
  then have "msteps E fl s (st\<lparr>reuseState := ReuseState_init\<rparr>)"
    by (rule ev_reuseState) (simp add: ReuseState_init_def)
  with st show ?thesis
    by (simp add: connack_accepted_def set_session_def Let_def ev_brokerConnected ev_flags)
qed

lemma ev_ConnectOp_dispatch [evolve]: "msteps E fl s st \<Longrightarrow> msteps E fl s (ConnectOp_dispatch E msg i st)"
  by (auto simp: ConnectOp_dispatch_def ConnectOp_handle_Connack_def set_session_def Let_def
      intro!: evolve split: prot_msg.split)

section \<open>The interface\<close>

lemma ev_run_timeout [evolve]: "msteps E fl s st \<Longrightarrow> msteps E fl s (run_timeout E' c st)"
  by (cases "(E', c, st)" rule: run_timeout.cases)
    (auto simp: ConnectOp_opTimeoutInternal_def SubscribeOp_opTimeoutInternal_def
      UnsubscribeOp_opTimeoutInternal_def intro!: evolve)

lemma ev_TimerMgr_tick [evolve]: "msteps E fl s st \<Longrightarrow> msteps E fl s (TimerMgr_tick E' ms st)"
proof -
  have "msteps E fl s st \<Longrightarrow> msteps E fl s (fold (run_timeout E') cbs st)" for cbs st
    by (induction cbs arbitrary: st) (simp_all add: ev_run_timeout)
  then show "msteps E fl s st \<Longrightarrow> msteps E fl s (TimerMgr_tick E' ms st)"
    by (simp add: TimerMgr_tick_def split_def Let_def ev_quiet quiet_tick)
qed

lemma ev_api [evolve]:
  assumes "msteps E fl s st"
  shows "msteps E fl s (doApiEnter E' el st)" "msteps E fl s (doApiExit st)"
    "msteps E fl s (set_networkDisconnected b st)"
  using assms by (auto simp: doApiEnter_def doApiExit_def set_networkDisconnected_def Let_def intro!: evolve)

lemma ev_op_dispatch [evolve]: "msteps E fl s st \<Longrightarrow> msteps E fl s (op_dispatch E msg ptr st)"
  by (cases "(E, msg, ptr, st)" rule: op_dispatch.cases) (auto intro!: evolve)

lemma ev_handle_ProtMessage [evolve]: "msteps E fl s st \<Longrightarrow> msteps E fl s (ClientImpl_handle_ProtMessage E msg st)"
proof -
  have "msteps E fl s st \<Longrightarrow> msteps E fl s (prot_loop E msg idxs st)" for idxs st
    by (induction E msg idxs st rule: prot_loop.induct) (auto simp: Let_def intro!: evolve split: option.split)
  then show "msteps E fl s st \<Longrightarrow> msteps E fl s (ClientImpl_handle_ProtMessage E msg st)"
    by (simp add: ClientImpl_handle_ProtMessage_def)
qed

lemma ev_ClientImpl_dispatch [evolve]: "msteps E fl s st \<Longrightarrow> msteps E fl s (ClientImpl_dispatch E msg st)"
  by (cases msg) (auto simp: ClientImpl_handle_Puback_def ClientImpl_handle_Pubrec_def
      ClientImpl_handle_Pubcomp_def intro!: evolve)

text \<open>Every message takes a byte, so the number of bytes bounds the iterations.\<close>

lemma ev_process_loop:
  assumes "codec_ok E" "length data < n" "msteps E fl s st"
  shows "msteps E fl s (snd (snd (process_loop n E data c st)))"
  using assms(2,3)
proof (induction n arbitrary: data c st)
  case (Suc n)
  have "length (drop k data) < n" if "frame_read E data = FR_Msg m k" for m k
  proof -
    have "0 < k" "k \<le> length data" using that assms(1) by (auto simp: codec_ok_def)
    then show ?thesis using Suc.prems(1) by simp
  qed
  then show ?case
    using Suc by (auto intro!: evolve Suc.IH split: read_status.split frame_result.split)
qed simp

lemma ev_calls [evolve]:
  assumes "msteps E fl s st"
  shows "msteps E fl s (tick E ms st)" "msteps E fl s (notifyNetworkDisconnected E el st)"
    "codec_ok E \<Longrightarrow> msteps E fl s (snd (processData E el data st))" "msteps E fl s (snd (initInternal E el st))"
    "msteps E fl s (snd (setPublishOrdering E po st))" "msteps E fl s (ClientImpl_destroy E st)"
  using assms by (auto simp: tick_def notifyNetworkDisconnected_def processData_def initInternal_def
      setPublishOrdering_def ClientImpl_destroy_def set_session_def Let_def split_def
      simp del: process_loop.simps intro!: evolve ev_process_loop)


section \<open>Preparation\<close>

lemma ev_refuse [evolve]: "msteps E fl s st \<Longrightarrow> msteps E fl s (snd (refuse E' ec st))"
  by (simp add: refuse_def ev_errorLog)

text \<open>A new operation with one timer, and one without.\<close>

lemma ev_add_op:
  assumes "msteps E fl s st" "has_room E ty st" "allocTimer (TimersLimit E) (timerMgr st) = (t, tm)"
    "st1 = st\<lparr>timerMgr := tm, next_id := next_id st + 1, m_preparationLocked := True\<rparr>"
    "st2 = push_op E (ty, next_id st) st1"
    "live_ops st' = live_ops st2" "mset (all_ptrs st') = add_mset (ty, next_id st) (mset (all_ptrs st))"
    "mset (timer_slots st') = add_mset (t, cb, next_id st) (mset (timer_slots st))"
    "Q \<in> {[], [0]}" "mset (op_pids st') = mset Q + mset (op_pids st)" "next_id st' = next_id st2"
    "timerMgr st' = timerMgr st2" "clientState st' = clientState st2" "reuseState st' = reuseState st2"
    "out st' = out st2" "fault st' = fault st2"
  shows "msteps E fl s st'"
proof (rule ev_new [OF assms(1)])
  show "adds_op E st st'" unfolding adds_op_def
    by (rule exI [of _ ty], rule exI [of _ "[(t, cb, next_id st)]"], rule exI [of _ Q])
      (use assms(2-) in \<open>simp add: push_op_def live_ops_def live_ops_append\<close>)
  show "extends st st'"
    using assms(4-) by (auto simp: extends_def List.map_filter_simps filters_wf_def push_op_views)
qed

lemma ev_connectPrepare_checked [evolve]:
  assumes "msteps E fl s st" shows "msteps E fl s (snd (connectPrepare_checked E st))"
proof -
  obtain t tm where t: "allocTimer (TimersLimit E) (timerMgr st) = (t, tm)" by (metis surj_pair)
  let ?st1 = "st\<lparr>timerMgr := tm, next_id := next_id st + 1, m_preparationLocked := True\<rparr>"
  let ?op = "\<lparr>con_id = next_id st, con_responseTimeoutMs = m_responseTimeoutMs (configState st),
    con_connectMsg = ConnectMsg_init E, con_timer = t, con_cb = None\<rparr>"
  let ?st2 = "push_op E (Type_Connect, next_id st) ?st1"
  have "msteps E fl s (?st2\<lparr>m_connectOps := m_connectOps st @ [?op]\<rparr>)"
    if "\<not> vec_full (ConnectOpsLimit E) (m_connectOps st)"
    by (rule ev_add_op [OF assms _ t refl refl, where Q = "[]" and cb = ConnectOp_opTimeoutCb])
      (use that in \<open>simp_all add: views push_op_views has_room_def vec_full_def not_le\<close>)
  then show ?thesis
    using assms t by (auto simp: connectPrepare_checked_def ConnectOp_new_def client_allocTimer_def
        fresh_id_def lock_prepare_def intro: ev_refuse)
qed

lemma ev_connectPrepare [evolve]: "msteps E fl s st \<Longrightarrow> msteps E fl s (snd (connectPrepare E el st))"
  by (auto simp: connectPrepare_def Let_def split_def
      intro!: ev_connectPrepare_checked ev_refuse ev_calls ev_api)

lemma ev_disconnectPrepare [evolve]:
  assumes "msteps E fl s st" shows "msteps E fl s (snd (disconnectPrepare E st))"
proof -
  let ?st1 = "st\<lparr>next_id := next_id st + 1, m_preparationLocked := True\<rparr>"
  let ?st' = "(push_op E (Type_Disconnect, next_id st) ?st1)
    \<lparr>m_disconnectOps := m_disconnectOps st @ [\<lparr>dis_id = next_id st\<rparr>]\<rparr>"
  have "adds_op E st ?st'" if "\<not> vec_full (DisconnectOpsLimit E) (m_disconnectOps st)" unfolding adds_op_def
    by (rule exI [of _ Type_Disconnect], rule exI [of _ "[]"], rule exI [of _ "[]"])
      (use that in \<open>simp add: has_room_def vec_full_def not_le push_op_def views live_ops_append\<close>)
  moreover have "extends st ?st'"
    by (auto simp: extends_def List.map_filter_simps filters_wf_def push_op_def set_fault_def)
  ultimately have "msteps E fl s ?st'" if "\<not> vec_full (DisconnectOpsLimit E) (m_disconnectOps st)"
    using ev_new [OF assms] that by blast
  then show ?thesis
    using assms by (auto simp: disconnectPrepare_def fresh_id_def lock_prepare_def intro: ev_refuse)
qed

lemma ev_subscribePrepare [evolve]:
  assumes "msteps E fl s st" "codec_ok E" shows "msteps E fl s (snd (subscribePrepare E st))"
proof -
  obtain t tm where t: "allocTimer (TimersLimit E) (timerMgr st) = (t, tm)" by (metis surj_pair)
  let ?st1 = "st\<lparr>timerMgr := tm, next_id := next_id st + 1, m_preparationLocked := True\<rparr>"
  let ?op = "\<lparr>sub_id = next_id st, sub_responseTimeoutMs = m_responseTimeoutMs (configState st),
    sub_subMsg = SubscribeMsg_init E, sub_timer = t, sub_cb = None\<rparr>"
  let ?st2 = "push_op E (Type_Subscribe, next_id st) ?st1"
  have "msteps E fl s (?st2\<lparr>m_subscribeOps := m_subscribeOps st @ [?op]\<rparr>)"
    if "\<not> vec_full (SubscribeOpsLimit E) (m_subscribeOps st)"
    by (rule ev_add_op [OF assms(1) _ t refl refl, where Q = "[0]" and cb = SubscribeOp_opTimeoutCb])
      (use assms(2) that in \<open>simp_all add: views push_op_views codec_ok_def has_room_def vec_full_def not_le\<close>)
  then show ?thesis
    using assms t by (auto simp: subscribePrepare_def SubscribeOp_new_def client_allocTimer_def
        fresh_id_def lock_prepare_def intro: ev_refuse)
qed

lemma ev_unsubscribePrepare [evolve]:
  assumes "msteps E fl s st" "codec_ok E" shows "msteps E fl s (snd (unsubscribePrepare E st))"
proof -
  obtain t tm where t: "allocTimer (TimersLimit E) (timerMgr st) = (t, tm)" by (metis surj_pair)
  let ?st1 = "st\<lparr>timerMgr := tm, next_id := next_id st + 1, m_preparationLocked := True\<rparr>"
  let ?op = "\<lparr>unsub_id = next_id st, unsub_responseTimeoutMs = m_responseTimeoutMs (configState st),
    unsub_unsubMsg = UnsubscribeMsg_init E, unsub_timer = t, unsub_cb = None\<rparr>"
  let ?st2 = "push_op E (Type_Unsubscribe, next_id st) ?st1"
  have "msteps E fl s (?st2\<lparr>m_unsubscribeOps := m_unsubscribeOps st @ [?op]\<rparr>)"
    if "\<not> vec_full (UnsubscribeOpsLimit E) (m_unsubscribeOps st)"
    by (rule ev_add_op [OF assms(1) _ t refl refl, where Q = "[0]" and cb = UnsubscribeOp_opTimeoutCb])
      (use assms(2) that in \<open>simp_all add: views push_op_views codec_ok_def has_room_def vec_full_def not_le\<close>)
  then show ?thesis
    using assms t by (auto simp: unsubscribePrepare_def UnsubscribeOp_new_def client_allocTimer_def
        fresh_id_def lock_prepare_def intro: ev_refuse)
qed


lemma ev_probe: "msteps E fl s st \<Longrightarrow> allocTimer (TimersLimit E) (timerMgr st) = (k, tm) \<Longrightarrow>
    msteps E fl s (st\<lparr>timerMgr := Timer_destroy k tm, next_id := next_id st + 1\<rparr>)"
  by (rule msteps_step [OF ms_probe]) auto

lemma ev_publishPrepare [evolve]:
  assumes "msteps E fl s st" "codec_ok E" shows "msteps E fl s (snd (publishPrepare E st))"
proof -
  obtain t tm where t: "allocTimer (TimersLimit E) (timerMgr st) = (t, tm)" by (metis surj_pair)
  let ?st0 = "st\<lparr>timerMgr := tm, next_id := next_id st + 1\<rparr>"
  let ?op = "\<lparr>snd_id = next_id st, snd_responseTimeoutMs = m_responseTimeoutMs (configState st),
    snd_responseTimer = t, snd_pubMsg = PublishMsg_init E, snd_cb = None, snd_totalSendAttempts = 2,
    snd_sendAttempts = 0, snd_published = False, snd_acked = False, snd_paused = False\<rparr>"
  have new: "SendOp_new E st = (?op, ?st0)"
    using t by (simp add: SendOp_new_def client_allocTimer_def fresh_id_def)
  let ?st2 = "push_op E (Type_Send, next_id st) (lock_prepare ?st0)"
  have "msteps E fl s (?st2\<lparr>m_sendOps := m_sendOps st @ [?op]\<rparr>)"
    if "\<not> vec_full (SendOpsLimit E) (m_sendOps st)"
    by (rule ev_add_op [OF assms(1) _ t refl refl, where Q = "[0]" and cb = SendOp_recvTimeoutCb])
      (use assms(2) that in \<open>simp_all add: views push_op_views codec_ok_def lock_prepare_def has_room_def vec_full_def not_le\<close>)
  moreover have "on_timers (Timer_destroy t) (client_releasePacketId 0 (errorLog E ?st0)) =
      errorLog E (st\<lparr>timerMgr := Timer_destroy t tm, next_id := next_id st + 1\<rparr>)"
    by (simp add: on_timers_def client_releasePacketId_def releasePacketId_def errorLog_def emit_def)
  ultimately show ?thesis
    using assms ev_errorLog [OF ev_probe [OF assms(1) t], of E]
    by (auto simp: publishPrepare_def new codec_ok_def Let_def lock_prepare_def intro: ev_refuse)
qed

section \<open>Sending of prepared operations\<close>

lemma ev_pid: "msteps E fl s st \<Longrightarrow> takes_pid E st st' \<Longrightarrow> extends st st' \<Longrightarrow> msteps E fl s st'"
  by (rule msteps_step [OF ms_pid extends_fuel])

lemma upd_by_one:
  assumes "distinct (map key xs)" "op \<in> set xs"
  shows "g (f op) = g op \<Longrightarrow> map g (upd_by key (key op) f xs) = map g xs"
    "\<exists>M. mset (map h xs) = mset (h op # M) \<and> mset (map h (upd_by key (key op) f xs)) = mset (h (f op) # M)"
proof -
  obtain ys zs where xs: "xs = ys @ op # zs" using assms(2) by (meson split_list)
  have "upd_by key (key op) f ys = ys" "upd_by key (key op) f zs = zs"
    using assms(1) by (auto simp: xs upd_by_def intro!: map_idI) (metis imageI)+
  then have upd: "upd_by key (key op) f xs = ys @ f op # zs" by (simp add: xs upd_by_def)
  show "g (f op) = g op \<Longrightarrow> map g (upd_by key (key op) f xs) = map g xs"
    unfolding upd by (simp add: xs)
  show "\<exists>M. mset (map h xs) = mset (h op # M) \<and> mset (map h (upd_by key (key op) f xs)) = mset (h (f op) # M)"
    unfolding upd by (rule exI [of _ "map h ys @ map h zs"]) (simp add: xs)
qed

lemma client_allocPacketId_returns:
  assumes "client_inv st"
  shows "allocPacketId (PacketIdsLimit E) (m_packetIds (clientState st)) \<noteq> None"
proof -
  have "pids_wf (m_packetIds (clientState st))" using assms by (simp add: client_inv_def pid_own_def)
  from alloc_returns [OF this, of "PacketIdsLimit E"] show ?thesis
    by (cases "pids_full (PacketIdsLimit E) (m_packetIds (clientState st))") (auto simp: alloc_full)
qed

lemma client_allocPacketId_taken:
  assumes "client_allocPacketId E st = (pid, st')" "client_inv st"
  shows "pid_taken (PacketIdsLimit E) (m_packetIds (clientState st)) pid (m_packetIds (clientState st'))"
    "extends st st'" "live_ops st' = live_ops st" "all_ptrs st' = all_ptrs st"
    "timer_slots st' = timer_slots st" "op_pids st' = op_pids st" "next_id st' = next_id st"
    "timerMgr st' = timerMgr st" "m_subscribeOps st' = m_subscribeOps st"
    "m_unsubscribeOps st' = m_unsubscribeOps st" "m_sendOps st' = m_sendOps st"
  using assms(1) client_allocPacketId_returns [OF assms(2), of E]
  by (auto simp: client_allocPacketId_def Let_def pid_taken_def extends_def List.map_filter_simps filters_wf_def views
      errorLog_def emit_def set_fault_def split: option.splits prod.splits if_splits)


lemma ev_assign_pid:
  assumes "msteps E fl s st" "client_allocPacketId E st = (pid, st1)" "client_inv st"
    "live_ops st2 = live_ops st1" "all_ptrs st2 = all_ptrs st1" "timer_slots st2 = timer_slots st1"
    "next_id st2 = next_id st1" "timerMgr st2 = timerMgr st1" "clientState st2 = clientState st1"
    "reuseState st2 = reuseState st1" "out st2 = out st1" "fault st2 = fault st1"
    "mset (op_pids st1) = mset (old # M)" "mset (op_pids st2) = mset (pid # M)"
  shows "msteps E fl s st2"
proof (rule ev_pid [OF assms(1)])
  note a = client_allocPacketId_taken [OF assms(2,3)]
  show "takes_pid E st st2" using a assms(3-) by (auto simp: takes_pid_def)
  show "extends st st2" using extends_cong [OF a(2)] assms(3-) by simp
qed

lemma ev_pid_subscribe:
  assumes "client_inv st" "msteps E fl s st" "client_allocPacketId E st = (pid, st1)" "op \<in> set (m_subscribeOps st)"
  shows "msteps E fl s (upd_subscribe (sub_id op) (\<lambda>op'. op'\<lparr>sub_cb := cb, sub_subMsg := (sub_subMsg op)\<lparr>sm_packetId := pid\<rparr>\<rparr>) st1)"
proof -
  note a = client_allocPacketId_taken [OF assms(3,1)]
  have "ops_wf st" using assms(1) by (simp add: client_inv_def)
  then have d: "distinct (map sub_id (m_subscribeOps st1))" using a by (simp add: ops_wf_distinct)
  have op: "op \<in> set (m_subscribeOps st1)" using a assms(4) by simp
  let ?f = "\<lambda>op'. op'\<lparr>sub_cb := cb, sub_subMsg := (sub_subMsg op)\<lparr>sm_packetId := pid\<rparr>\<rparr>" and ?pid = "\<lambda>op. sm_packetId (sub_subMsg op)"
  obtain M where M: "mset (map ?pid (m_subscribeOps st1)) = mset (?pid op # M)"
    "mset (map ?pid (upd_by sub_id (sub_id op) ?f (m_subscribeOps st1))) = mset (pid # M)"
    using upd_by_one(2) [OF d op, of ?pid ?f] assms by auto
  show ?thesis
    by (rule ev_assign_pid [OF assms(2,3,1), where old = "?pid op" and M = "M @ map (\<lambda>op. um_packetId (unsub_unsubMsg op)) (m_unsubscribeOps st1) @
        map (\<lambda>op. pm_packetId (snd_pubMsg op)) (m_sendOps st1)"])
      (use M assms in \<open>simp_all add: views upd_subscribe_def\<close>)
qed

lemma ev_pid_unsubscribe:
  assumes "client_inv st" "msteps E fl s st" "client_allocPacketId E st = (pid, st1)" "op \<in> set (m_unsubscribeOps st)"
  shows "msteps E fl s (upd_unsubscribe (unsub_id op) (\<lambda>op'. op'\<lparr>unsub_cb := cb, unsub_unsubMsg := (unsub_unsubMsg op)\<lparr>um_packetId := pid\<rparr>\<rparr>) st1)"
proof -
  note a = client_allocPacketId_taken [OF assms(3,1)]
  have "ops_wf st" using assms(1) by (simp add: client_inv_def)
  then have d: "distinct (map unsub_id (m_unsubscribeOps st1))" using a by (simp add: ops_wf_distinct)
  have op: "op \<in> set (m_unsubscribeOps st1)" using a assms(4) by simp
  let ?f = "\<lambda>op'. op'\<lparr>unsub_cb := cb, unsub_unsubMsg := (unsub_unsubMsg op)\<lparr>um_packetId := pid\<rparr>\<rparr>" and ?pid = "\<lambda>op. um_packetId (unsub_unsubMsg op)"
  obtain M where M: "mset (map ?pid (m_unsubscribeOps st1)) = mset (?pid op # M)"
    "mset (map ?pid (upd_by unsub_id (unsub_id op) ?f (m_unsubscribeOps st1))) = mset (pid # M)"
    using upd_by_one(2) [OF d op, of ?pid ?f] assms by auto
  show ?thesis
    by (rule ev_assign_pid [OF assms(2,3,1), where old = "?pid op" and M = "M @ map (\<lambda>op. sm_packetId (sub_subMsg op)) (m_subscribeOps st1) @
        map (\<lambda>op. pm_packetId (snd_pubMsg op)) (m_sendOps st1)"])
      (use M assms in \<open>simp_all add: views upd_unsubscribe_def\<close>)
qed

lemma ev_pid_send:
  assumes "client_inv st" "msteps E fl s st" "client_allocPacketId E st = (pid, st1)" "op \<in> set (m_sendOps st)"
    "snd_id op' = snd_id op" "snd_responseTimer op' = snd_responseTimer op" "pm_packetId (snd_pubMsg op') = pid"
  shows "msteps E fl s (upd_send (snd_id op) (\<lambda>_. op') st1)"
proof -
  note a = client_allocPacketId_taken [OF assms(3,1)]
  have "ops_wf st" using assms(1) by (simp add: client_inv_def)
  then have d: "distinct (map snd_id (m_sendOps st1))" using a by (simp add: ops_wf_distinct)
  have op: "op \<in> set (m_sendOps st1)" using a assms(4) by simp
  let ?f = "\<lambda>_. op'" and ?pid = "\<lambda>op. pm_packetId (snd_pubMsg op)"
  obtain M where M: "mset (map ?pid (m_sendOps st1)) = mset (?pid op # M)"
    "mset (map ?pid (upd_by snd_id (snd_id op) ?f (m_sendOps st1))) = mset (pid # M)"
    using upd_by_one(2) [OF d op, of ?pid ?f] assms by auto
  show ?thesis
    by (rule ev_assign_pid [OF assms(2,3,1), where old = "?pid op" and M = "M @ map (\<lambda>op. sm_packetId (sub_subMsg op)) (m_subscribeOps st1) @
        map (\<lambda>op. um_packetId (unsub_unsubMsg op)) (m_unsubscribeOps st1)"])
      (use M assms in \<open>simp_all add: views upd_send_def upd_by_one(1) [OF d op]\<close>)
qed

lemma ev_allow [evolve]: "msteps E fl s st \<Longrightarrow> msteps E fl s (allowNextPrepare st)"
  by (simp add: allowNextPrepare_def ev_flags)

lemma client_inv_allow: "client_inv (allowNextPrepare st) = client_inv st"
  by (simp add: client_inv_def ops_wf_def views allowNextPrepare_def filters_wf_def)

lemma ev_restartTimers [evolve]:
  assumes "msteps E fl s st"
  shows "op1 \<in> set (m_connectOps st) \<Longrightarrow> msteps E fl s (ConnectOp_restartTimer op1 st)"
    "op2 \<in> set (m_subscribeOps st) \<Longrightarrow> msteps E fl s (SubscribeOp_restartTimer op2 st)"
    "op3 \<in> set (m_unsubscribeOps st) \<Longrightarrow> msteps E fl s (UnsubscribeOp_restartTimer op3 st)"
  using assms by (simp_all add: ConnectOp_restartTimer_def SubscribeOp_restartTimer_def
      UnsubscribeOp_restartTimer_def ev_wait slot_of_op)

lemma ev_ConnectOp_send [evolve]: "msteps E fl s st \<Longrightarrow> msteps E fl s (snd (ConnectOp_send E el cb i st))"
  by (auto simp: ConnectOp_send_def Let_def split_def intro!: evolve)

lemma ev_DisconnectOp_send [evolve]: "msteps E fl s st \<Longrightarrow> msteps E fl s (snd (DisconnectOp_send E el i st))"
  by (auto simp: DisconnectOp_send_def Let_def intro!: evolve)

lemma ev_SubscribeOp_send [evolve]:
  assumes "client_inv st" "msteps E fl s st"
  shows "msteps E fl s (snd (SubscribeOp_send E el cb i st))"
proof -
  obtain pid st1 where p: "client_allocPacketId E (allowNextPrepare st) = (pid, st1)" by (metis surj_pair)
  have "msteps E fl s (upd_subscribe i (\<lambda>op'. op'\<lparr>sub_cb := cb, sub_subMsg := (sub_subMsg op)\<lparr>sm_packetId := pid\<rparr>\<rparr>) st1)"
    if "op \<in> set (m_subscribeOps st)" "sub_id op = i" for op
    using ev_pid_subscribe [OF _ ev_allow [OF assms(2)] p, of op cb] assms(1) that
    by (simp add: client_inv_allow) (simp add: allowNextPrepare_def)
  then show ?thesis
    using assms(2) by (auto simp: SubscribeOp_send_def Let_def split_def p intro!: evolve)
qed

lemma ev_UnsubscribeOp_send [evolve]:
  assumes "client_inv st" "msteps E fl s st"
  shows "msteps E fl s (snd (UnsubscribeOp_send E el cb i st))"
proof -
  obtain pid st1 where p: "client_allocPacketId E (allowNextPrepare st) = (pid, st1)" by (metis surj_pair)
  have "msteps E fl s (upd_unsubscribe i
      (\<lambda>op'. op'\<lparr>unsub_cb := cb, unsub_unsubMsg := (unsub_unsubMsg op)\<lparr>um_packetId := pid\<rparr>\<rparr>) st1)"
    if "op \<in> set (m_unsubscribeOps st)" "unsub_id op = i" for op
    using ev_pid_unsubscribe [OF _ ev_allow [OF assms(2)] p, of op cb] assms(1) that
    by (simp add: client_inv_allow) (simp add: allowNextPrepare_def)
  then show ?thesis
    using assms(2) by (auto simp: UnsubscribeOp_send_def Let_def split_def p intro!: evolve)
qed

lemma ev_SendOp_assign:
  assumes "client_inv st" "codec_ok E" "msteps E fl s st" "op \<in> set (m_sendOps st)"
  shows "msteps E fl s (snd (SendOp_assign E cb op st))"
proof (cases "0 < pm_qos (snd_pubMsg op)")
  case True
  obtain pid st1 where p: "client_allocPacketId E st = (pid, st1)" by (metis surj_pair)
  show ?thesis
    using True p ev_pid_send [OF assms(1,3) p assms(4)] assms(2)
    by (simp add: SendOp_assign_def codec_ok_def Let_def)
next
  case False
  have "ops_wf st" using assms(1) by (simp add: client_inv_def)
  then have d: "distinct (send_ids st)" by (rule ops_wf_distinct)
  have "view_eq st (snd (SendOp_assign E cb op st))" "extends st (snd (SendOp_assign E cb op st))"
    using False assms(2) by (simp_all add: SendOp_assign_def codec_ok_def Let_def view_eq_def extends_def
        views upd_send_def filters_wf_def upd_by_one(1) [OF d assms(4)])
  then show ?thesis by (rule ev_same [OF assms(3)])
qed

lemma ev_SendOp_send [evolve]:
  assumes "client_inv st" "codec_ok E" "msteps E fl s st"
  shows "msteps E fl s (snd (SendOp_send E el cb i st))"
proof -
  have "msteps E fl s (snd (SendOp_assign E cb op (allowNextPrepare st)))" if "op \<in> set (m_sendOps st)" for op
    using ev_SendOp_assign [OF _ assms(2) ev_allow [OF assms(3)]] assms(1) that
    by (simp add: client_inv_allow) (simp add: allowNextPrepare_def)
  then show ?thesis
    using assms(3) by (auto simp: SendOp_send_def Let_def split_def intro!: evolve)
qed

section \<open>All calls\<close>

lemma ev_setters [evolve]:
  assumes "msteps E fl s st"
  shows "msteps E fl s (snd (set_default_response_timeout ms st))"
    "msteps E fl s (snd (set_verify_outgoing_topic_enabled E' b st))"
    "msteps E fl s (snd (set_verify_incoming_topic_enabled E' b st))"
    "msteps E fl s (snd (set_verify_incoming_msg_subscribed E' b st))"
    "msteps E fl s (setNextTickProgramCallback b st)" "msteps E fl s (setCancelNextTickWaitCallback b st)"
    "msteps E fl s (setSendOutputDataCallback b st)" "msteps E fl s (setBrokerDisconnectReportCallback b st)"
    "msteps E fl s (setMessageReceivedCallback b st)" "msteps E fl s (setErrorLogCallback b st)"
  using assms by (simp_all add: set_default_response_timeout_def set_verify_outgoing_topic_enabled_def
      set_verify_incoming_topic_enabled_def set_verify_incoming_msg_subscribed_def
      setNextTickProgramCallback_def setCancelNextTickWaitCallback_def setSendOutputDataCallback_def
      setBrokerDisconnectReportCallback_def setMessageReceivedCallback_def setErrorLogCallback_def ev_flags)

lemma run_call_msteps:
  assumes "codec_ok E" "client_inv st"
  shows "msteps E fl st (run_call E c st)"
proof -
  have "msteps E fl st st" by (rule msteps_refl)
  with assms show ?thesis by (cases "(E, c, st)" rule: run_call.cases) (simp_all add: evolve)
qed

text \<open>Received bytes, with calls of the application from inside callbacks.\<close>

lemma ev_run_call:
  assumes "codec_ok E" "msteps E fl s st" shows "msteps E fl s (run_call E c st)"
  using assms(2) run_call_msteps [OF assms(1)] by (rule msteps_trans)

lemma ev_react_to:
  assumes "codec_ok E" "msteps E fl s st" shows "msteps E fl s (react_to E react before st)"
proof -
  have "msteps E fl s (fold (run_call E) cs st)" for cs
    using assms(2) by (induction cs arbitrary: st) (simp_all add: ev_run_call [OF assms(1)] del: run_call.simps)
  with assms(2) show ?thesis by (simp add: react_to_def)
qed

lemma ev_process_loop_with:
  assumes "codec_ok E" "length data < n" "msteps E fl s st"
  shows "msteps E fl s (snd (snd (process_loop_with n E react data c st)))"
  using assms(2,3)
proof (induction n arbitrary: data c st)
  case (Suc n)
  have "length (drop k data) < n" if "frame_read E data = FR_Msg m k" for m k
    using that assms(1) Suc.prems(1) by (fastforce simp: codec_ok_def)
  then show ?case
    using Suc by (auto intro!: evolve Suc.IH ev_react_to [OF assms(1)] simp del: ClientImpl_dispatch.simps
        split: read_status.split frame_result.split)
qed simp

lemma processData_with_msteps:
  assumes "codec_ok E" shows "msteps E fl st (snd (processData_with E react el data st))"
proof -
  have "msteps E fl st st" by (rule msteps_refl)
  with assms show ?thesis
    by (auto simp: processData_with_def Let_def split_def simp del: process_loop_with.simps
        intro!: evolve ev_process_loop_with)
qed

text \<open>The invariant, and what a history looks like, for every reachable state and every call.\<close>

lemma client_inv_of_msteps: "\<lbrakk>msteps E True st st'; client_inv st\<rbrakk> \<Longrightarrow> client_inv st'"
  using client_inv_msteps by (auto simp: msteps_def)

lemma reach_inv:
  assumes "codec_ok E" "client_reach E st"
  shows "client_inv st"
  using assms(2)
proof induction
  case (reach_call st c)
  with run_call_msteps [OF assms(1)] show ?case by (blast intro: client_inv_of_msteps)
next
  case (reach_data st react el data)
  with processData_with_msteps [OF assms(1)] show ?case by (blast intro: client_inv_of_msteps)
qed (rule client_inv_init)

lemma reach_msteps_advances:
  assumes "codec_ok E" "client_reach E st" "msteps E False st st'"
  shows "advances st st'" "fault st' = Some OutOfFuel \<Longrightarrow> fault st = Some OutOfFuel"
proof -
  have inv: "client_inv st" using assms(1,2) by (rule reach_inv)
  show "advances st st'" using assms(3) inv advances_msteps by (auto simp: msteps_def)
  show "fault st' = Some OutOfFuel \<Longrightarrow> fault st = Some OutOfFuel"
    using assms(3) inv by (auto simp: msteps_def)
qed

lemma reach_steps:
  assumes "codec_ok E" "client_reach E st"
  shows "msteps E fl st (run_call E c st)" "msteps E fl st (snd (processData_with E react el data st))"
  by (rule run_call_msteps [OF assms(1) reach_inv [OF assms]])
    (rule processData_with_msteps [OF assms(1)])

lemma reach_advances:
  assumes "codec_ok E" "client_reach E st"
  shows "advances (ClientImpl_init E) st" "fault st \<noteq> Some OutOfFuel"
proof -
  show "advances (ClientImpl_init E) st"
    using assms(2) by induction
      (blast intro: advances_refl advances_trans reach_msteps_advances(1) reach_steps assms(1))+
  show "fault st \<noteq> Some OutOfFuel"
    using assms(2)
  proof induction
    case (reach_call st c)
    then show ?case using reach_msteps_advances(2) [OF assms(1) _ reach_steps(1) [OF assms(1)]] by blast
  next
    case (reach_data st react el data)
    then show ?case using reach_msteps_advances(2) [OF assms(1) _ reach_steps(2) [OF assms(1)]] by blast
  qed (simp add: ClientImpl_init_def)
qed

end
