(* ===== verification/Demo_Session.thy ===== *)
theory Demo_Session
  imports Client_Inv "HOL-Library.Code_Target_Numeral"
begin

text \<open>
  A concrete message codec and concrete configurations. They instantiate the parameters of the
  model, so that whole sessions of an application and a broker can be evaluated: the statements
  about all reachable states are applied to them, and the behaviours that only show up in a
  particular sequence of calls are exhibited by them.
\<close>

section \<open>A codec\<close>

text \<open>
  The packet layout of MQTT 3.1.1 with a remaining length of one byte; the variable parts of the
  packets the client only sends are left out where no session depends on them.
\<close>

definition be16 :: "u16 \<Rightarrow> bytes" where
  "be16 w = [ucast (drop_bit 8 w), ucast w]"

definition rd16 :: "u8 \<Rightarrow> u8 \<Rightarrow> u16" where
  "rd16 hi lo = push_bit 8 (ucast hi) + ucast lo"

definition str_bytes :: "string \<Rightarrow> bytes" where
  "str_bytes s = map of_char s"

definition frame :: "u8 \<Rightarrow> bytes \<Rightarrow> bytes" where
  "frame h body = h # of_nat (length body) # body"

fun demo_encode :: "prot_msg \<Rightarrow> bytes" where
  "demo_encode (MConnect m) = frame 0x10 (be16 (of_nat (cm_keepAlive m)) @ str_bytes (cm_clientId m))"
| "demo_encode (MPublish m) =
     frame (0x30 + (if pm_dup m then 8 else 0) + 2 * of_nat (pm_qos m) + (if pm_retain m then 1 else 0))
       (be16 (of_nat (length (pm_topic m))) @ str_bytes (pm_topic m) @
        (if pm_hasPacketId m then be16 (pm_packetId m) else []) @ pm_payload m)"
| "demo_encode (MPuback pid) = frame 0x40 (be16 pid)"
| "demo_encode (MPubrec pid) = frame 0x50 (be16 pid)"
| "demo_encode (MPubrel pid valid) = frame 0x62 (be16 pid)"
| "demo_encode (MPubcomp pid) = frame 0x70 (be16 pid)"
| "demo_encode (MSubscribe m) = frame 0x82 (be16 (sm_packetId m))"
| "demo_encode (MUnsubscribe m) = frame 0xA2 (be16 (um_packetId m))"
| "demo_encode MPingreq = frame 0xC0 []"
| "demo_encode MDisconnect = frame 0xE0 []"
| "demo_encode _ = []"

fun demo_body :: "u8 \<Rightarrow> bytes \<Rightarrow> prot_msg option" where
  "demo_body h (a # b # rest) =
     (if h = 0x20 then Some (MConnack (a = 1) (unat b))
      else if h = 0x40 then Some (MPuback (rd16 a b))
      else if h = 0x50 then Some (MPubrec (rd16 a b))
      else if h = 0x62 then Some (MPubrel (rd16 a b) True)
      else if h = 0x70 then Some (MPubcomp (rd16 a b))
      else if h = 0x90 then Some (MSuback (rd16 a b) (map unat rest))
      else if h = 0xB0 then Some (MUnsuback (rd16 a b))
      else if drop_bit 4 h = 3 then
        (let n = unat (rd16 a b);
             qos = unat (take_bit 2 (drop_bit 1 h));
             msg = (\<lambda>has pid payload. MPublish \<lparr>pm_dup = bit h 3, pm_qos = qos, pm_retain = bit h 0,
               pm_topic = map (\<lambda>b. char_of (unat b)) (take n rest), pm_hasPacketId = has,
               pm_packetId = pid, pm_payload = payload\<rparr>)
         in if qos = 0 then Some (msg False 0 (drop n rest))
            else case drop n rest of
              hi # lo # payload \<Rightarrow> Some (msg True (rd16 hi lo) payload)
            | _ \<Rightarrow> None)
      else None)"
| "demo_body h body = (if h = 0xD0 \<and> body = [] then Some MPingresp else None)"

fun demo_read :: "bytes \<Rightarrow> frame_result" where
  "demo_read (h # n # rest) =
     (if length rest < unat n then FR_NotEnoughData
      else case demo_body h (take (unat n) rest) of
        None \<Rightarrow> FR_Error
      | Some m \<Rightarrow> FR_Msg m (unat n + 2))"
| "demo_read _ = FR_NotEnoughData"

section \<open>Configurations\<close>

text \<open>The default configuration: dynamic memory, everything enabled.\<close>

definition demo_env :: env where
  "demo_env = \<lparr>HasDynMemAlloc = True, MaxOutputPacketSize = 0, ReceiveMaxLimit = 0, SendMaxLimit = 0,
     SubscribeOpsLimit = 0, UnsubscribeOpsLimit = 0, HasErrorLog = True,
     HasTopicFormatVerification = True, HasSubTopicVerification = True, SubFiltersLimit = 0,
     MaxQos = 2,
     frame_length = (\<lambda>m. length (demo_encode m)), frame_write = (\<lambda>m. Some (demo_encode m)),
     frame_read = demo_read, size_read = (\<lambda>b. if b = [] then RS_NotEnoughData else RS_Success),
     idAndFlags_len = 1,
     publish_refresh = (\<lambda>m. m\<lparr>pm_hasPacketId := (0 < pm_qos m)\<rparr>), connect_refresh = (\<lambda>m. m),
     ConnectMsg_init = \<lparr>cm_clientId = [], cm_userNameFlag = False, cm_userName = [],
       cm_passwordFlag = False, cm_password = [], cm_cleanSession = False, cm_willFlag = False,
       cm_willQos = 0, cm_willRetain = False, cm_willTopic = [], cm_willMessage = [],
       cm_keepAlive = 0\<rparr>,
     PublishMsg_init = \<lparr>pm_dup = False, pm_qos = 0, pm_retain = False, pm_topic = [],
       pm_hasPacketId = False, pm_packetId = 0, pm_payload = []\<rparr>,
     SubscribeMsg_init = \<lparr>sm_packetId = 0, sm_list = []\<rparr>,
     UnsubscribeMsg_init = \<lparr>um_packetId = 0, um_list = []\<rparr>,
     subscribe_list_limit = 0, unsubscribe_list_limit = 0, suback_list_limit = 0,
     KeepAlive_max = 65535, Connack_ValuesLimit = 6, Suback_Qos2 = 2, Suback_Failure = 128\<rparr>"

text \<open>A build without dynamic memory, with small capacities.\<close>

definition demo_static :: env where
  "demo_static = demo_env\<lparr>HasDynMemAlloc := False, ReceiveMaxLimit := 1, SendMaxLimit := 1,
     SubscribeOpsLimit := 1, UnsubscribeOpsLimit := 1, SubFiltersLimit := 2, MaxOutputPacketSize := 100,
     MaxQos := 1\<rparr>"

section \<open>Sessions\<close>

definition demo_setup :: "call list" where
  "demo_setup = [CSendOutputDataCb True, CBrokerDisconnectCb True, CMessageReceivedCb True,
     CNextTickProgramCb True, CCancelNextTickWaitCb True]"

definition demo_connect :: "call list" where
  "demo_connect = [CConnectPrepare 0,
     CConnectConfig \<lparr>cc_clientId = Some ''c'', cc_username = None, cc_password = None,
       cc_passwordLen = 0, cc_keepAlive = 60, cc_cleanSession = True\<rparr> 0,
     CConnectSend 0 (Some 7) 0, CProcessData 0 [0x20, 2, 0, 0]]"

definition pub_cfg :: "nat \<Rightarrow> PublishConfig" where
  "pub_cfg q = \<lparr>pc_topic = Some ''t'', pc_data = Some [1], pc_dataLen = 1, pc_qos = q,
     pc_retain = False\<rparr>"

definition demo_publish :: "nat \<Rightarrow> op_id \<Rightarrow> call list" where
  "demo_publish q i = [CPublishPrepare, CPublishConfig (pub_cfg q) i, CPublishSend 0 (Some i) i]"

text \<open>
  The state of the connected client, and of one with two publishes in flight (QoS 1 and 2). Later
  sessions continue from these.
\<close>

definition demo_connected :: "call list" where
  "demo_connected = demo_setup @ demo_connect"

definition demo_session :: "call list" where
  "demo_session = demo_connected @ demo_publish 1 2 @ demo_publish 2 3"

definition demo_connected_st :: client where
  "demo_connected_st = (ClientImpl_init demo_env)
     \<lparr>has_nextTickProgramCb := True, has_cancelNextTickWaitCb := True, has_sendOutputDataCb := True,
      has_brokerDisconnectReportCb := True, has_messageReceivedReportCb := True,
      clientState := \<lparr>m_packetIds = packet_ids_init, m_initialized = True, m_firstConnect = False,
         m_networkDisconnected = False\<rparr>,
      sessionState := \<lparr>m_keepAliveMs = 60000, m_connected = True, m_disconnecting = False\<rparr>,
      timerMgr := \<lparr>m_timers =
         [TimerInfo_init,
          \<lparr>m_timeoutMs = 60000, m_timeoutCb = Some KeepAliveOp_sendPingCb, m_timeoutData = Some 1,
           m_allocated = True, m_suspended = False\<rparr>,
          TimerInfo_init\<lparr>m_allocated := True\<rparr>, TimerInfo_init\<lparr>m_allocated := True\<rparr>],
         m_allocatedTimers = 3\<rparr>,
      m_keepAliveOps := [\<lparr>ka_id = 1, ka_pingTimer = 1, ka_recvTimer = 2, ka_respTimer = 3\<rparr>],
      m_ops := [Some (Type_KeepAlive, 1)], next_id := 2,
      out := [EvSendOutputData [16, 3, 0, 60, 99], EvNextTickProgram 2000, EvCancelNextTickWait,
        EvConnectComplete 7 0 ST_Complete (Some \<lparr>cr_returnCode = 0, cr_sessionPresent = False\<rparr>),
        EvNextTickProgram 60000]\<rparr>"

definition demo_send_op :: "op_id \<Rightarrow> nat \<Rightarrow> nat \<Rightarrow> u16 \<Rightarrow> SendOp" where
  "demo_send_op i t q pid = \<lparr>snd_id = i, snd_responseTimeoutMs = 2000, snd_responseTimer = t,
     snd_pubMsg = \<lparr>pm_dup = False, pm_qos = q, pm_retain = False, pm_topic = ''t'',
       pm_hasPacketId = True, pm_packetId = pid, pm_payload = [1]\<rparr>,
     snd_cb = Some i, snd_totalSendAttempts = 2, snd_sendAttempts = 1, snd_published = True,
     snd_acked = False, snd_paused = False\<rparr>"

definition demo_send_timer :: "op_id \<Rightarrow> (timeout_cb, op_id) TimerInfo" where
  "demo_send_timer i = \<lparr>m_timeoutMs = 2000, m_timeoutCb = Some SendOp_recvTimeoutCb,
     m_timeoutData = Some i, m_allocated = True, m_suspended = False\<rparr>"

definition demo_session_st :: client where
  "demo_session_st = demo_connected_st
     \<lparr>clientState := \<lparr>m_packetIds = \<lparr>m_allocatedPacketIds = [1, 2], m_lastPacketId = 2\<rparr>,
         m_initialized = True, m_firstConnect = False, m_networkDisconnected = False\<rparr>,
      timerMgr := \<lparr>m_timers = (m_timers (timerMgr demo_connected_st))[0 := demo_send_timer 2] @
           [demo_send_timer 3], m_allocatedTimers = 5\<rparr>,
      m_sendOps := [demo_send_op 2 0 1 1, demo_send_op 3 4 2 2],
      m_ops := [Some (Type_KeepAlive, 1), Some (Type_Send, 2), Some (Type_Send, 3)], next_id := 4,
      out := out demo_connected_st @
        [EvCancelNextTickWait, EvSendOutputData [50, 6, 0, 1, 116, 0, 1, 1], EvNextTickProgram 2000,
         EvCancelNextTickWait, EvSendOutputData [52, 6, 0, 1, 116, 0, 2, 1], EvNextTickProgram 2000]\<rparr>"

text \<open>A connected client with one publish of QoS 2 in flight.\<close>

definition demo_qos2_st :: client where
  "demo_qos2_st = demo_connected_st
     \<lparr>clientState := \<lparr>m_packetIds = \<lparr>m_allocatedPacketIds = [1], m_lastPacketId = 1\<rparr>,
         m_initialized = True, m_firstConnect = False, m_networkDisconnected = False\<rparr>,
      timerMgr := \<lparr>m_timers = (m_timers (timerMgr demo_connected_st))[0 := demo_send_timer 2],
         m_allocatedTimers = 4\<rparr>,
      m_sendOps := [demo_send_op 2 0 2 1],
      m_ops := [Some (Type_KeepAlive, 1), Some (Type_Send, 2)], next_id := 3,
      out := out demo_connected_st @
        [EvCancelNextTickWait, EvSendOutputData [52, 6, 0, 1, 116, 0, 1, 1], EvNextTickProgram 2000]\<rparr>"

text \<open>
  A connected client with a confirmed subscription, and the same one after a message of QoS 2 whose
  delivery is not finished yet.
\<close>

definition demo_subscribe :: "string \<Rightarrow> op_id \<Rightarrow> call list" where
  "demo_subscribe flt i = [CSubscribePrepare, CSubscribeConfig \<lparr>stc_topic = Some flt, stc_maxQos = 2\<rparr> i,
     CSubscribeSend 0 (Some i) i, CProcessData 0 [0x90, 3, 0, 1, 2]]"

definition demo_message :: PublishMsg where
  "demo_message = \<lparr>pm_dup = False, pm_qos = 2, pm_retain = False, pm_topic = ''a/b'',
     pm_hasPacketId = True, pm_packetId = 9, pm_payload = [5]\<rparr>"

definition demo_recv_timer :: "(timeout_cb, op_id) TimerInfo" where
  "demo_recv_timer = \<lparr>m_timeoutMs = 60000, m_timeoutCb = Some KeepAliveOp_recvTimeoutCb,
     m_timeoutData = Some 1, m_allocated = True, m_suspended = False\<rparr>"

definition demo_subscribed_st :: client where
  "demo_subscribed_st = demo_connected_st
     \<lparr>clientState := \<lparr>m_packetIds = \<lparr>m_allocatedPacketIds = [], m_lastPacketId = 1\<rparr>,
         m_initialized = True, m_firstConnect = False, m_networkDisconnected = False\<rparr>,
      reuseState := \<lparr>m_subFilters = [''a/#'']\<rparr>,
      timerMgr := \<lparr>m_timers = (m_timers (timerMgr demo_connected_st))[2 := demo_recv_timer],
         m_allocatedTimers = 3\<rparr>,
      next_id := 3,
      out := out demo_connected_st @
        [EvSendOutputData [130, 2, 0, 1], EvCancelNextTickWait, EvNextTickProgram 2000,
         EvCancelNextTickWait, EvSubscribeComplete 2 2 ST_Complete (Some [2]), EvNextTickProgram 60000]\<rparr>"

definition demo_received_st :: client where
  "demo_received_st = demo_subscribed_st
     \<lparr>timerMgr := \<lparr>m_timers = (m_timers (timerMgr demo_subscribed_st))
           [0 := \<lparr>m_timeoutMs = 2000, m_timeoutCb = Some RecvOp_recvTimeoutCb, m_timeoutData = Some 3,
             m_allocated = True, m_suspended = False\<rparr>], m_allocatedTimers = 4\<rparr>,
      m_recvOps := [\<lparr>rcv_id = 3, rcv_responseTimer = 0, rcv_packetId = 9\<rparr>],
      m_ops := [Some (Type_KeepAlive, 1), Some (Type_Recv, 3)], next_id := 4,
      out := out demo_subscribed_st @
        [EvCancelNextTickWait, EvMessageReceivedReport (publish_info demo_message),
         EvSendOutputData [80, 2, 0, 9], EvNextTickProgram 2000]\<rparr>"

lemma demo_send_op_simps [simp]:
  "snd_id (demo_send_op i t q pid) = i" "snd_responseTimer (demo_send_op i t q pid) = t"
  "snd_cb (demo_send_op i t q pid) = Some i" "snd_published (demo_send_op i t q pid)"
  "\<not> snd_acked (demo_send_op i t q pid)" "\<not> snd_paused (demo_send_op i t q pid)"
  "pm_qos (snd_pubMsg (demo_send_op i t q pid)) = q"
  "pm_packetId (snd_pubMsg (demo_send_op i t q pid)) = pid"
  by (simp_all add: demo_send_op_def)

lemma run_calls_append: "run_calls E (cs @ ds) = fold (run_call E) ds (run_calls E cs)"
  by (simp add: run_calls_def)

lemma demo_connected_run: "run_calls demo_env demo_connected = demo_connected_st"
  by code_simp

lemma demo_session_run: "run_calls demo_env demo_session = demo_session_st"
proof -
  have "fold (run_call demo_env) (demo_publish 1 2 @ demo_publish 2 3) demo_connected_st = demo_session_st"
    by code_simp
  then show ?thesis unfolding demo_session_def run_calls_append demo_connected_run .
qed

lemma demo_qos2_run: "run_calls demo_env (demo_connected @ demo_publish 2 2) = demo_qos2_st"
proof -
  have "fold (run_call demo_env) (demo_publish 2 2) demo_connected_st = demo_qos2_st"
    by code_simp
  then show ?thesis unfolding run_calls_append demo_connected_run .
qed

lemma demo_subscribed_run: "run_calls demo_env (demo_connected @ demo_subscribe ''a/#'' 2) = demo_subscribed_st"
proof -
  have "fold (run_call demo_env) (demo_subscribe ''a/#'' 2) demo_connected_st = demo_subscribed_st"
    by code_simp
  then show ?thesis unfolding run_calls_append demo_connected_run .
qed

lemma demo_received_run:
  "run_calls demo_env ((demo_connected @ demo_subscribe ''a/#'' 2) @
     [CProcessData 0 [0x34, 8, 0, 3, 97, 47, 98, 0, 9, 5]]) = demo_received_st"
proof -
  have "fold (run_call demo_env) [CProcessData 0 [0x34, 8, 0, 3, 97, 47, 98, 0, 9, 5]] demo_subscribed_st =
      demo_received_st"
    by code_simp
  then show ?thesis unfolding run_calls_append demo_subscribed_run [unfolded run_calls_append] .
qed

lemma demo_reach:
  "client_reach demo_env demo_connected_st" "client_reach demo_env demo_session_st"
  "client_reach demo_env demo_qos2_st" "client_reach demo_env demo_subscribed_st"
  "client_reach demo_env demo_received_st"
  using run_calls_reach [of demo_env] demo_connected_run demo_session_run demo_qos2_run
    demo_subscribed_run demo_received_run by metis+

lemma demo_MaxQos [simp]: "MaxQos demo_env = 2"
  by (simp add: demo_env_def)

lemma codec_ok_demo: "codec_ok demo_env"
proof -
  have "0 < k \<and> k \<le> length data" if "demo_read data = FR_Msg m k" for data m k
    using that by (cases data rule: demo_read.cases) (auto split: if_splits option.splits)
  then show ?thesis by (simp add: codec_ok_def demo_env_def)
qed

end
