(* ===== verification/Session_Props.thy ===== *)
theory Session_Props
  imports Session_Frame Client_Steps Demo_Session
begin

text \<open>
  The end of a session (\<open>ClientImpl::brokerDisconnected\<close>): which operations it ends, which it
  keeps, and what happens to their timers.
\<close>

section \<open>Termination of the operations that do not outlive a session\<close>

abbreviation outlives :: "op_ptr \<Rightarrow> bool" where
  "outlives ptr \<equiv> fst ptr = Type_Recv \<or> fst ptr = Type_Send"

lemma m_ops_drop:
  assumes "j < length (m_ops st)"
  shows "m_ops (drop_op ptr st) ! j = None \<or> m_ops (drop_op ptr st) ! j = m_ops st ! j"
proof -
  have "m_ops (drop_op ptr st) = m_ops st \<or> (\<exists>k. m_ops (drop_op ptr st) = (m_ops st)[k := None])"
    by (auto simp: drop_op_def opComplete_with_def opComplete_Send_def opComplete_Connect_def
        opComplete_KeepAlive_def opComplete_Disconnect_def opComplete_Subscribe_def
        opComplete_Unsubscribe_def opComplete_Recv_def erase_Send_def client_releasePacketId_def
        forget_op_def Let_def split: op_type.split option.split)
  then show ?thesis using assms by (metis nth_list_update_eq nth_list_update_neq)
qed

lemma drop_other_kept:
  assumes "\<not> outlives ptr"
  shows "m_sendOps (drop_op ptr st) = m_sendOps st" "m_recvOps (drop_op ptr st) = m_recvOps st"
  using assms
  by (simp_all add: drop_op_def opComplete_with_def opComplete_Connect_def
      opComplete_KeepAlive_def opComplete_Disconnect_def opComplete_Subscribe_def
      opComplete_Unsubscribe_def client_releasePacketId_def
      forget_op_def Let_def split: op_type.split option.split)

text \<open>Termination of such an operation is its removal, and perhaps a callback.\<close>

lemma follow_found: "i \<in> key ` set xs \<Longrightarrow> \<exists>op. follow t key xs i f st = f op st"
  using find_by_None_iff [of key i xs] by (auto simp: follow_def split: option.split)

definition drop_report :: "op_ptr \<Rightarrow> client \<Rightarrow> client \<Rightarrow> bool" where
  "drop_report ptr st st' \<longleftrightarrow> st' = drop_op ptr st \<or> (\<exists>e. st' = emit e (drop_op ptr st))"

lemma drop_report_intros:
  "drop_report ptr st (drop_op ptr st)" "drop_report ptr st (emit e (drop_op ptr st))"
  by (auto simp: drop_report_def)

lemma follow_drop:
  "i \<in> key ` set xs \<Longrightarrow> (\<And>op. drop_report ptr st (f op st)) \<Longrightarrow> drop_report ptr st (follow ty key xs i f st)"
  using follow_found [of i key xs ty f st] by auto

lemma terminateOp_drop:
  assumes "ptr \<in> set (all_ptrs st)" "\<not> outlives ptr"
  shows "drop_report ptr st (terminateOp E status ptr st)"
proof -
  have c: "opComplete E ptr st = drop_op ptr st" using assms(2) by (simp add: opComplete_def opComplete_with_eq)
  note on = ConnectOp_completeOpInternal_def SubscribeOp_completeOpInternal_def
    UnsubscribeOp_completeOpInternal_def on_connect_def on_keepAlive_def
    on_disconnect_def on_subscribe_def on_unsubscribe_def Op_terminateOpImpl_def Let_def
  show ?thesis
    using assms c
    by (cases "(E, status, ptr, st)" rule: terminateOp.cases)
      (simp_all add: on all_ptrs_def, auto simp: Op_terminateOpImpl_def drop_report_intros intro!: follow_drop split: option.split)
qed

text \<open>
  The loop over \<open>m_ops\<close>: what is behind the loop outlives the session, and entries only turn null.
\<close>

definition terminated_to :: "client \<Rightarrow> nat \<Rightarrow> client \<Rightarrow> bool" where
  "terminated_to st k s \<longleftrightarrow> ops_wf s \<and> length (m_ops s) = length (m_ops st) \<and>
     (\<forall>j < length (m_ops st). m_ops s ! j = None \<or> m_ops s ! j = m_ops st ! j) \<and>
     (\<forall>j < k. \<forall>ptr. m_ops s ! j = Some ptr \<longrightarrow> outlives ptr) \<and>
     m_sendOps s = m_sendOps st \<and> m_recvOps s = m_recvOps st \<and> fault s = fault st \<and>
     sessionState s = sessionState st \<and> m_initialized (clientState s) = m_initialized (clientState st) \<and>
     m_networkDisconnected (clientState s) = m_networkDisconnected (clientState st)"

lemma ops_wf_drop: "ops_wf st \<Longrightarrow> ops_wf (drop_op ptr st)"
proof (cases "Some ptr \<in> set (m_ops st)")
  case True
  assume wf: "ops_wf st"
  then obtain S Q where d: "dropped ptr S Q st (drop_op ptr st)"
    using True ops_wf_live_iff drop_op_dropped by blast
  then have m: "mset (all_ptrs st) = mset (ptr # all_ptrs (drop_op ptr st))"
    by (simp add: dropped_def erased_def)
  have "distinct (all_ptrs (drop_op ptr st))"
    using mset_eq_imp_distinct_iff [OF m] wf by (simp add: ops_wf_def)
  then show ?thesis
    using wf d mset_eq_setD [OF m] by (auto simp: ops_wf_def dropped_def erased_def)
qed (simp add: drop_op_unlisted)

lemma terminated_step:
  assumes "terminated_to st k s" "k < length (m_ops st)"
  shows "terminated_to st (Suc k) (terminate_body E status TerminateMode_KeepSendRecvOps (m_ops s ! k) s)"
proof (cases "m_ops s ! k = None \<or> (\<exists>ptr. m_ops s ! k = Some ptr \<and> outlives ptr)")
  case True
  then show ?thesis using assms by (auto simp: terminated_to_def less_Suc_eq)
next
  case False
  then obtain ptr where ptr: "m_ops s ! k = Some ptr" "\<not> outlives ptr" by (metis not_None_eq)
  let ?d = "drop_op ptr s" and ?t = "terminateOp E status ptr s"
  have wf: "ops_wf s" and len: "length (m_ops s) = length (m_ops st)" using assms(1) by (simp_all add: terminated_to_def)
  have k: "k < length (m_ops s)" using assms(2) len by simp
  then have live: "ptr \<in> set (all_ptrs s)" using ops_wf_live_iff [OF wf] ptr(1) nth_mem by metis
  have "ops_wf ?d" using wf by (rule ops_wf_drop)
  moreover have "ptr \<notin> set (all_ptrs ?d)" using drop_op_ptrs [OF wf] by simp
  ultimately have "Some ptr \<notin> set (m_ops ?d)" using ops_wf_live_iff by blast
  then have "m_ops ?d ! k = None"
    using m_ops_drop [OF k, of ptr] k ptr(1) nth_mem [of k "m_ops ?d"] by (metis drop_op_kept(14))
  then have d: "terminated_to st (Suc k) ?d"
    using assms \<open>ops_wf ?d\<close> m_ops_drop [of _ s ptr] ptr(2)
    by (auto simp: terminated_to_def drop_op_kept drop_op_frame drop_other_kept less_Suc_eq)
      (metis less_trans option.distinct(1))+
  then have "terminated_to st (Suc k) (emit e ?d)" for e
    using ops_wf_cong [of "emit e ?d" ?d] by (simp add: terminated_to_def live_ops_def all_ptrs_def)
  then show ?thesis using terminateOp_drop [OF live ptr(2), of E status] d ptr by (auto simp: drop_report_def)
qed

lemma terminated_all:
  assumes "ops_wf st"
  shows "terminated_to st (length (m_ops st)) (terminateOps E status TerminateMode_KeepSendRecvOps st)"
proof -
  let ?f = "\<lambda>k s. if length (m_ops s) \<noteq> length (m_ops st) then set_fault IteratorInvalidated s
    else terminate_body E status TerminateMode_KeepSendRecvOps (m_ops s ! k) s"
  have "terminated_to st k (fold ?f [0..<k] st)" if "k \<le> length (m_ops st)" for k
    using that
  proof (induction k)
    case (Suc k)
    then have IH: "terminated_to st k (fold ?f [0..<k] st)" by simp
    from terminated_step [OF this, of E status] Suc.prems IH show ?case by (simp add: terminated_to_def)
  qed (simp add: terminated_to_def assms)
  then show ?thesis by (simp add: terminateOps_def for_ops_def)
qed

lemma only_outliving:
  assumes "ops_wf s" "\<forall>j < length (m_ops s). \<forall>ptr. m_ops s ! j = Some ptr \<longrightarrow> outlives ptr"
  shows "m_connectOps s = []" "m_keepAliveOps s = []" "m_disconnectOps s = []" "m_subscribeOps s = []"
    "m_unsubscribeOps s = []"
proof -
  have "\<forall>ptr \<in> set (all_ptrs s). outlives ptr"
    using ops_wf_live_iff [OF assms(1)] assms(2) by (metis in_set_conv_nth)
  then show "m_connectOps s = []" "m_keepAliveOps s = []" "m_disconnectOps s = []" "m_subscribeOps s = []"
    "m_unsubscribeOps s = []"
    by (simp_all add: all_ptrs_def ball_Un)
qed

section \<open>The timers of the operations that remain\<close>

definition parked :: "nat \<Rightarrow> timers \<Rightarrow> bool" where
  "parked k tm \<longleftrightarrow> (timerIsActive k tm \<longrightarrow> timerIsSuspended k tm)"

lemma parked_suspend:
  "parked k (Timer_setSuspended k True tm)" "parked j tm \<Longrightarrow> parked j (Timer_setSuspended k True tm)"
  by (auto simp: parked_def Timer_setSuspended_def timerSetSuspended_def timerIsActive_def
      timerIsSuspended_def nth_list_update)

definition parked_to :: "env \<Rightarrow> client \<Rightarrow> nat \<Rightarrow> client \<Rightarrow> bool" where
  "parked_to E st k s \<longleftrightarrow> (\<exists>t. s = st\<lparr>timerMgr := t\<rparr>) \<and>
     (\<forall>j < k. \<forall>i. m_ops st ! j = Some (Type_Send, i) \<longrightarrow>
        (\<forall>op \<in> set (m_sendOps st). snd_id op = i \<longrightarrow> parked (snd_responseTimer op) (timerMgr s))) \<and>
     (\<forall>j < k. \<forall>i. m_ops st ! j = Some (Type_Recv, i) \<longrightarrow> 2 \<le> MaxQos E \<longrightarrow>
        (\<forall>op \<in> set (m_recvOps st). rcv_id op = i \<longrightarrow> parked (rcv_responseTimer op) (timerMgr s)))"

lemma parked_step:
  assumes "ops_wf st" "no_connectivity st" "parked_to E st k s" "k < length (m_ops st)"
    "\<forall>ptr. m_ops st ! k = Some ptr \<longrightarrow> outlives ptr"
  shows "parked_to E st (Suc k) (connectivity_body E (m_ops s ! k) s)"
proof -
  obtain t where s: "s = st\<lparr>timerMgr := t\<rparr>" using assms(3) by (auto simp: parked_to_def)
  have nc: "no_connectivity s" using assms(2) by (simp add: s no_connectivity_def)
  have more: "parked_to E st k (on_timers (Timer_setSuspended x True) s)" for x
    using assms(3) parked_suspend(2) by (auto simp: parked_to_def on_timers_def)
  have live: "ptr \<in> set (all_ptrs st)" if "m_ops st ! k = Some ptr" for ptr
    using that ops_wf_live_iff [OF assms(1)] assms(4) nth_mem by metis
  consider "m_ops st ! k = None" | i where "m_ops st ! k = Some (Type_Send, i)"
    | i where "m_ops st ! k = Some (Type_Recv, i)"
    using assms(5) by (cases "m_ops st ! k") auto
  then show ?thesis
  proof cases
    case 1
    then show ?thesis using assms(3) by (auto simp: parked_to_def s less_Suc_eq)
  next
    case 2
    with live obtain op where op: "op \<in> set (m_sendOps st)" "snd_id op = i" by (force simp: all_ptrs_def)
    have "find_by snd_id i (m_sendOps st) = Some op"
      using find_by_distinct [OF ops_wf_distinct(7) [OF assms(1)] op(1)] op(2) by simp
    then have "connectivity_body E (m_ops s ! k) s = on_timers (Timer_setSuspended (snd_responseTimer op) True) s"
      using 2 nc by (simp add: s on_send_def follow_def SendOp_connectivityChangedImpl_def)
    moreover have "op' = op" if "op' \<in> set (m_sendOps st)" "snd_id op' = i" for op'
      using find_by_distinct [OF ops_wf_distinct(7) [OF assms(1)] that(1)] that(2) op
        find_by_distinct [OF ops_wf_distinct(7) [OF assms(1)] op(1)] by simp
    ultimately show ?thesis
      using more [of "snd_responseTimer op"] 2 parked_suspend(1)
      by (auto simp: parked_to_def less_Suc_eq)
  next
    case 3
    with live obtain op where op: "op \<in> set (m_recvOps st)" "rcv_id op = i" by (force simp: all_ptrs_def)
    have "find_by rcv_id i (m_recvOps st) = Some op"
      using find_by_distinct [OF ops_wf_distinct(6) [OF assms(1)] op(1)] op(2) by simp
    then have "connectivity_body E (m_ops s ! k) s =
        (if 2 \<le> MaxQos E then on_timers (Timer_setSuspended (rcv_responseTimer op) True) s else s)"
      using 3 nc by (simp add: s on_recv_def follow_def RecvOp_connectivityChangedImpl_def)
    moreover have "op' = op" if "op' \<in> set (m_recvOps st)" "rcv_id op' = i" for op'
      using find_by_distinct [OF ops_wf_distinct(6) [OF assms(1)] that(1)] that(2) op
        find_by_distinct [OF ops_wf_distinct(6) [OF assms(1)] op(1)] by simp
    ultimately show ?thesis
      using more [of "rcv_responseTimer op"] assms(3) 3 parked_suspend(1)
      by (auto simp: parked_to_def less_Suc_eq)
  qed
qed

lemma parked_all:
  assumes "ops_wf st" "no_connectivity st"
    "\<forall>j < length (m_ops st). \<forall>ptr. m_ops st ! j = Some ptr \<longrightarrow> outlives ptr"
  shows "parked_to E st (length (m_ops st)) (for_ops (connectivity_body E) st)"
proof -
  let ?f = "\<lambda>k s. if length (m_ops s) \<noteq> length (m_ops st) then set_fault IteratorInvalidated s
    else connectivity_body E (m_ops s ! k) s"
  have "parked_to E st k (fold ?f [0..<k] st)" if "k \<le> length (m_ops st)" for k
    using that
  proof (induction k)
    case (Suc k)
    then have IH: "parked_to E st k (fold ?f [0..<k] st)" by simp
    then have "m_ops (fold ?f [0..<k] st) = m_ops st" by (auto simp: parked_to_def)
    moreover have "\<forall>ptr. m_ops st ! k = Some ptr \<longrightarrow> outlives ptr" using assms(3) Suc.prems by (meson Suc_le_lessD)
    ultimately show ?case using parked_step [OF assms(1,2) IH] Suc.prems by simp
  next
    case 0
    have "\<exists>t. st = st\<lparr>timerMgr := t\<rparr>" by (rule exI [of _ "timerMgr st"]) simp
    then show ?case by (simp add: parked_to_def)
  qed
  then show ?thesis by (simp add: for_ops_def)
qed

lemma brokerDisconnected_effect:
  assumes "ops_wf st" "reason = None \<or> has_brokerDisconnectReportCb st"
    "st' = brokerDisconnected_st E reason status st"
  shows "\<not> m_connected (sessionState st') \<and> m_disconnecting (sessionState st') \<and>
    \<not> m_initialized (clientState st') \<and> m_connectOps st' = [] \<and> m_keepAliveOps st' = [] \<and>
    m_disconnectOps st' = [] \<and> m_subscribeOps st' = [] \<and> m_unsubscribeOps st' = [] \<and>
    m_sendOps st' = m_sendOps st \<and> m_recvOps st' = m_recvOps st \<and>
    (\<forall>op \<in> set (m_sendOps st'). parked (snd_responseTimer op) (timerMgr st')) \<and>
    (2 \<le> MaxQos E \<longrightarrow> (\<forall>op \<in> set (m_recvOps st'). parked (rcv_responseTimer op) (timerMgr st'))) \<and>
    reports st' = reports st \<and> fault st' = fault st \<and>
    (\<forall>r. reason = Some r \<longrightarrow> out st' \<noteq> [] \<and> last (out st') = EvBrokerDisconnectReport r)"
proof -
  have wf0: "ops_wf (session_down st)"
    using assms(1) by (simp add: ops_wf_def session_down_def live_ops_def all_ptrs_def)
  define s where "s = terminateOps E status TerminateMode_KeepSendRecvOps (session_down st)"
  have t: "terminated_to (session_down st) (length (m_ops (session_down st))) s"
    unfolding s_def by (rule terminated_all [OF wf0])
  then have wf: "ops_wf s" and out: "\<forall>j < length (m_ops s). \<forall>ptr. m_ops s ! j = Some ptr \<longrightarrow> outlives ptr"
    and nc: "no_connectivity s"
    by (simp_all add: terminated_to_def no_connectivity_def session_down_def)
  define u where "u = for_ops (connectivity_body E) s"
  have p: "parked_to E s (length (m_ops s)) u" unfolding u_def by (rule parked_all [OF wf nc out])
  have st': "st' = report_disconnect reason u" by (simp add: assms(3) brokerDisconnected_st_def u_def s_def)
  have idx: "\<exists>j < length (m_ops s). m_ops s ! j = Some ptr" if "ptr \<in> set (all_ptrs s)" for ptr
    using that ops_wf_live_iff [OF wf] by (metis in_set_conv_nth)
  have sp: "parked (snd_responseTimer op) (timerMgr u)" if "op \<in> set (m_sendOps s)" for op
    using idx [OF ptr_of_op(4) [OF that]] p that by (auto simp: parked_to_def)
  have rp: "parked (rcv_responseTimer op) (timerMgr u)" if "op \<in> set (m_recvOps s)" "2 \<le> MaxQos E" for op
    using idx [of "(Type_Recv, rcv_id op)"] p that by (auto simp: parked_to_def all_ptrs_def)
  have rep: "reports st' = reports st" "has_brokerDisconnectReportCb u = has_brokerDisconnectReportCb st"
  proof -
    show "reports st' = reports st"
      using unrep.R_brokerDisconnected_st [OF unrep.R_refl, of st E reason status] assms(3)
      by (simp add: unreported_def)
    have "unreported st s" unfolding s_def using unrep.R_terminateOps unrep.R_session_down by blast
    then show "has_brokerDisconnectReportCb u = has_brokerDisconnectReportCb st"
      using p by (auto simp: unreported_def parked_to_def)
  qed
  show ?thesis
    using only_outliving [OF wf out] t p sp rp rep assms(2)
    by (auto simp: st' report_disconnect_def terminated_to_def parked_to_def session_down_def emit_def split: option.split)
qed


text \<open>
  C6. The end of a session. From every reachable state: the client is neither connected nor
  initialized and refuses incoming publishes; every operation but the publishes in flight in either
  direction is gone; these are kept unchanged, and none of their timers keeps running, so that they
  can be taken up by a later session; no message is reported; and nothing goes wrong on the way.
\<close>

theorem brokerDisconnected_ends_session:
  assumes "codec_ok E" "client_reach E st" "reason = None \<or> has_brokerDisconnectReportCb st"
    "st' = brokerDisconnected_st E reason status st"
  shows "\<not> m_connected (sessionState st') \<and> m_disconnecting (sessionState st') \<and>
    \<not> m_initialized (clientState st') \<and> m_connectOps st' = [] \<and> m_keepAliveOps st' = [] \<and>
    m_disconnectOps st' = [] \<and> m_subscribeOps st' = [] \<and> m_unsubscribeOps st' = [] \<and>
    m_sendOps st' = m_sendOps st \<and> m_recvOps st' = m_recvOps st \<and>
    (\<forall>op \<in> set (m_sendOps st'). parked (snd_responseTimer op) (timerMgr st')) \<and>
    (2 \<le> MaxQos E \<longrightarrow> (\<forall>op \<in> set (m_recvOps st'). parked (rcv_responseTimer op) (timerMgr st'))) \<and>
    reports st' = reports st \<and> fault st' = fault st"
proof -
  have "ops_wf st" using reach_inv [OF assms(1,2)] by (simp add: client_inv_def)
  from brokerDisconnected_effect [OF this assms(3,4)] show ?thesis by blast
qed

theorem brokerDisconnected_ends_session_witness:
  "let st = demo_session_st;
       st' = brokerDisconnected_st demo_env (Some BDR_ProtocolError) ST_ProtocolError st
   in has_brokerDisconnectReportCb st \<and> length (m_sendOps st) = 2 \<and> m_sendOps st' = m_sendOps st \<and>
      m_keepAliveOps st \<noteq> [] \<and> m_keepAliveOps st' = [] \<and> fault st' = None \<and>
      (\<forall>op \<in> set (m_sendOps st'). parked (snd_responseTimer op) (timerMgr st'))"
proof -
  have d: "has_brokerDisconnectReportCb demo_session_st" "length (m_sendOps demo_session_st) = 2"
    "m_keepAliveOps demo_session_st \<noteq> []" "fault demo_session_st = None"
    by (simp_all add: demo_session_st_def demo_connected_st_def ClientImpl_init_def)
  then have "Some BDR_ProtocolError = None \<or> has_brokerDisconnectReportCb demo_session_st" by simp
  from brokerDisconnected_ends_session [OF codec_ok_demo demo_reach(2) this refl, of ST_ProtocolError] d
  show ?thesis by (simp add: Let_def)
qed

end
