(* ===== verification/Publish_Props.thy ===== *)
theory Publish_Props
  imports Session_Props
begin

text \<open>
  Outgoing publishes: what an acknowledgement does to the operation it is for.
\<close>

section \<open>Routing of an acknowledgement\<close>

lemma dispatch_keepAlives_timers: "\<exists>t. dispatch_keepAlives msg st = st\<lparr>timerMgr := t\<rparr>"
proof -
  have "\<exists>t. fold (KeepAliveOp_dispatch msg) kas s = s\<lparr>timerMgr := t\<rparr>" for kas s
  proof (induction kas arbitrary: s)
    case (Cons ka kas)
    have "\<exists>t. KeepAliveOp_dispatch msg ka s = s\<lparr>timerMgr := t\<rparr>"
      by (auto simp: KeepAliveOp_dispatch_def KeepAliveOp_handle_Pingresp_def on_timers_def
          KeepAliveOp_handle_ProtMessage_def KeepAliveOp_restartRecvTimer_def)
        (rule exI [of _ "timerMgr s"], simp)
    then obtain t where t: "KeepAliveOp_dispatch msg ka s = s\<lparr>timerMgr := t\<rparr>" by blast
    obtain t' where "fold (KeepAliveOp_dispatch msg) kas (s\<lparr>timerMgr := t\<rparr>) = s\<lparr>timerMgr := t\<rparr>\<lparr>timerMgr := t'\<rparr>"
      using Cons.IH by blast
    with t show ?case by auto
  next
    case Nil
    show ?case by (rule exI [of _ "timerMgr s"]) simp
  qed
  then show ?thesis by (simp add: dispatch_keepAlives_def)
qed

text \<open>The acknowledgements of an outgoing publish, and which of them the operation waits for.\<close>

fun ack_pid :: "prot_msg \<Rightarrow> u16 option" where
  "ack_pid (MPuback pid) = Some pid"
| "ack_pid (MPubrec pid) = Some pid"
| "ack_pid (MPubcomp pid) = Some pid"
| "ack_pid _ = None"

definition is_pubcomp :: "prot_msg \<Rightarrow> bool" where
  "is_pubcomp msg \<longleftrightarrow> (case msg of MPubcomp _ \<Rightarrow> True | _ \<Rightarrow> False)"

fun ack_expected :: "prot_msg \<Rightarrow> SendOp \<Rightarrow> bool" where
  "ack_expected (MPuback pid) op \<longleftrightarrow> pm_qos (snd_pubMsg op) = 1"
| "ack_expected (MPubrec pid) op \<longleftrightarrow> pm_qos (snd_pubMsg op) = 2 \<and> \<not> snd_acked op"
| "ack_expected (MPubcomp pid) op \<longleftrightarrow> pm_qos (snd_pubMsg op) = 2 \<and> snd_acked op"
| "ack_expected msg op \<longleftrightarrow> False"

lemma findSendOp_SomeD: "findSendOp pid st = Some op \<Longrightarrow> op \<in> set (m_sendOps st) \<and> pm_packetId (snd_pubMsg op) = pid"
  by (auto simp: findSendOp_def find_Some_iff)

text \<open>An acknowledgement the client accepts reaches the operation, with its timer stopped.\<close>

definition stopped :: "SendOp \<Rightarrow> prot_msg \<Rightarrow> client \<Rightarrow> client" where
  "stopped op msg st = on_timers (timerCancel (snd_responseTimer op)) (dispatch_keepAlives msg st)"

lemma stopped_timers: "\<exists>t. stopped op msg st = st\<lparr>timerMgr := t\<rparr>"
  using dispatch_keepAlives_timers [of msg st] by (auto simp: stopped_def on_timers_def)

lemma ack_dispatch:
  assumes "ops_wf st" "2 \<le> MaxQos E" "ack_pid msg = Some pid" "findSendOp pid st = Some op"
    "isLegitSendAck op (is_pubcomp msg) st"
  shows "ClientImpl_dispatch E msg st =
    (let i = snd_id op; st1 = stopped op msg st in
     if \<not> ack_expected msg op then SendOp_protocolError E i st1
     else if msg = MPubrec pid then
       (let st2 = upd_send i (\<lambda>op. op\<lparr>snd_acked := True, snd_sendAttempts := 0\<rparr>) st1;
            (result, st3) = sendMessage E (MPubrel pid True) st2
        in if result \<noteq> EC_Success then SendOp_completeWithCb E i ST_InternalError (errorLog E st3)
           else SendOp_restartResponseTimer op
                  (upd_send i (\<lambda>op. op\<lparr>snd_sendAttempts := snd_sendAttempts op + 1\<rparr>) st3))
     else SendOp_completeWithCb E i ST_Complete st1)"
proof -
  obtain t where t: "dispatch_keepAlives msg st = st\<lparr>timerMgr := t\<rparr>" using dispatch_keepAlives_timers by blast
  have op: "op \<in> set (m_sendOps st)" "pm_packetId (snd_pubMsg op) = pid" using findSendOp_SomeD [OF assms(4)] by auto
  have f: "find_by snd_id (snd_id op) (m_sendOps st) = Some op"
    by (rule find_by_distinct [OF ops_wf_distinct(7) [OF assms(1)] op(1)])
  have p: "processPublishAckMsg E msg pid (is_pubcomp msg) st = (True, SendOp_dispatch E msg (snd_id op) (st\<lparr>timerMgr := t\<rparr>))"
    using assms(4,5) by (simp add: processPublishAckMsg_def t findSendOp_def isLegitSendAck_def Let_def split: if_splits)
  have on: "on_send (snd_id op) g (st\<lparr>timerMgr := t\<rparr>) = g op (st\<lparr>timerMgr := t\<rparr>)" for g
    by (simp add: on_send_def follow_def f)
  have "stopped op msg st = on_timers (timerCancel (snd_responseTimer op)) (st\<lparr>timerMgr := t\<rparr>)"
    by (simp add: stopped_def t)
  then show ?thesis
    using assms(2,3) p op(2)
    by (cases msg) (auto simp: ClientImpl_handle_Puback_def ClientImpl_handle_Pubrec_def
        ClientImpl_handle_Pubcomp_def handle_ack_def is_pubcomp_def SendOp_dispatch_def on
        SendOp_handle_Puback_def SendOp_handle_Pubrec_def SendOp_handle_Pubcomp_def Let_def)
qed

section \<open>Completion of a publish\<close>

lemma drop_send_packetIds:
  assumes "ops_wf st" "op \<in> set (m_sendOps st)"
  shows "m_packetIds (clientState (drop_op (Type_Send, snd_id op) st)) =
    releasePacketId (pm_packetId (snd_pubMsg op)) (m_packetIds (clientState st))"
proof -
  have "Some (Type_Send, snd_id op) \<in> set (m_ops st)"
    using ops_wf_live_iff [OF assms(1)] ptr_of_op(4) [OF assms(2)] by blast
  then have "find_index (\<lambda>p. p = Some (Type_Send, snd_id op)) (m_ops st) < length (m_ops st)"
    by (auto simp: find_index_less_iff)
  then show ?thesis
    using find_by_distinct [OF ops_wf_distinct(7) [OF assms(1)] assms(2)]
    by (simp add: drop_op_def opComplete_with_def opComplete_Send_def erase_Send_def forget_op_def
        client_releasePacketId_def Let_def)
qed

lemma completeWithCb_effect:
  assumes "client_inv st" "op \<in> set (m_sendOps st)" "st' = SendOp_completeWithCb E (snd_id op) status st"
  shows "(Type_Send, snd_id op) \<notin> set (all_ptrs st')" "sends_only st st'" "client_inv st'"
    "pm_packetId (snd_pubMsg op) \<noteq> 0 \<Longrightarrow>
       pm_packetId (snd_pubMsg op) \<notin> set (m_allocatedPacketIds (m_packetIds (clientState st')))"
    "snd_cb op = Some cb \<Longrightarrow> \<exists>es. out st' = out st @ es @ [EvPublishComplete cb (snd_id op) status]"
proof -
  let ?ptr = "(Type_Send, snd_id op)" let ?d = "drop_op ?ptr st"
  have wf: "ops_wf st" and pw: "pids_wf (m_packetIds (clientState st))"
    using assms(1) by (simp_all add: client_inv_def pid_own_def)
  define s where "s = opComplete E ?ptr st"
  have st': "st' = (case snd_cb op of None \<Rightarrow> s | Some cb \<Rightarrow> emit (EvPublishComplete cb (snd_id op) status) s)"
    using find_by_distinct [OF ops_wf_distinct(7) [OF wf] assms(2)]
    by (simp add: assms(3) SendOp_completeWithCb_def SendOp_completeWithCb_with_def on_send_def
        follow_def s_def opComplete_def Let_def split: option.split)
  have inv: "client_inv ?d" using assms(1) by (rule client_inv_drop)
  have "msteps E False ?d s"
    unfolding s_def opComplete_def by (rule ev_complete_drop [OF evolving_resume msteps_refl])
  then have adv: "advances ?d s" and "client_inv s" using inv advances_msteps client_inv_msteps by (auto simp: msteps_def)
  moreover have "snd ?ptr < next_id st" "?ptr \<notin> set (all_ptrs ?d)"
    using wf ptr_of_op(4) [OF assms(2)] drop_op_ptrs [OF wf] by (auto simp: ops_wf_def)
  ultimately have "?ptr \<notin> set (all_ptrs s)" using adv by (force simp: advances_def drop_op_frame)
  then show "?ptr \<notin> set (all_ptrs st')" by (simp add: st' all_ptrs_def split: option.split)
  show "client_inv st'"
    using \<open>client_inv s\<close> client_inv_cong [OF view_eq_steps(1), of s] by (simp add: st' filters_wf_def split: option.split)
  show "sends_only st st'" using sends.R_completeWithCb [OF sends.R_refl] by (simp add: assms(3))
  have "sends_only ?d s"
    unfolding s_def opComplete_def opComplete_with_eq using sends.R_resume sends.R_refl by simp
  then have "set (m_allocatedPacketIds (m_packetIds (clientState st'))) \<subseteq>
      set (m_allocatedPacketIds (releasePacketId (pm_packetId (snd_pubMsg op)) (m_packetIds (clientState st))))"
    by (simp add: sends_only_def drop_send_packetIds [OF wf assms(2)] st' split: option.split)
  then show "pm_packetId (snd_pubMsg op) \<noteq> 0 \<Longrightarrow>
      pm_packetId (snd_pubMsg op) \<notin> set (m_allocatedPacketIds (m_packetIds (clientState st')))"
    using set_releasePacketId [OF pw] by auto
  show "snd_cb op = Some cb \<Longrightarrow> \<exists>es. out st' = out st @ es @ [EvPublishComplete cb (snd_id op) status]"
    using adv by (auto simp: st' emit_def advances_def drop_op_frame)
qed

lemma stopped_inv:
  assumes "client_inv st" "op \<in> set (m_sendOps st)"
  shows "client_inv (stopped op msg st)" "sends_only st (stopped op msg st)"
    "m_sendOps (stopped op msg st) = m_sendOps st" "out (stopped op msg st) = out st"
proof -
  have "msteps E False st (stopped op msg st)" for E
    unfolding stopped_def by (intro ev_cancel ev_dispatch_keepAlives msteps_refl)
  then show "client_inv (stopped op msg st)" using assms(1) client_inv_msteps by (auto simp: msteps_def)
  show "sends_only st (stopped op msg st)"
    unfolding stopped_def by (intro sends.R_then sends.R_dispatch_keepAlives sends.R_refl)
  obtain t where "stopped op msg st = st\<lparr>timerMgr := t\<rparr>" using stopped_timers by blast
  then show "m_sendOps (stopped op msg st) = m_sendOps st" "out (stopped op msg st) = out st" by simp_all
qed

text \<open>
  C7. The last acknowledgement of a publish, \<open>PUBACK\<close> for QoS 1 and \<open>PUBCOMP\<close> after the \<open>PUBREC\<close> for
  QoS 2, ends the operation: it is gone, its packet identifier is free again, the last thing that
  happens is its completion callback with the status \<open>Complete\<close>, and everything that does not belong
  to publishes (the session, the other operations, the confirmed filters, the lock) is as before.
\<close>

theorem last_ack_completes:
  assumes "codec_ok E" "client_reach E st" "2 \<le> MaxQos E" "ack_pid msg = Some pid"
    "findSendOp pid st = Some op" "isLegitSendAck op (is_pubcomp msg) st"
    "ack_expected msg op" "\<not> (\<exists>p. msg = MPubrec p)" "st' = ClientImpl_dispatch E msg st"
  shows "(Type_Send, snd_id op) \<notin> set (all_ptrs st') \<and> sends_only st st' \<and>
    (pid \<noteq> 0 \<longrightarrow> pid \<notin> set (m_allocatedPacketIds (m_packetIds (clientState st')))) \<and>
    (\<forall>cb. snd_cb op = Some cb \<longrightarrow> last (out st') = EvPublishComplete cb (snd_id op) ST_Complete)"
proof -
  have inv: "client_inv st" using assms(1,2) by (rule reach_inv)
  then have wf: "ops_wf st" by (simp add: client_inv_def)
  have op: "op \<in> set (m_sendOps st)" "pm_packetId (snd_pubMsg op) = pid" using findSendOp_SomeD [OF assms(5)] by auto
  note s = stopped_inv [OF inv op(1), of msg]
  have "st' = SendOp_completeWithCb E (snd_id op) ST_Complete (stopped op msg st)"
    using ack_dispatch [OF wf assms(3-6)] assms(7-9) by (auto simp: Let_def)
  note c = completeWithCb_effect [OF s(1) _ this]
  have "op \<in> set (m_sendOps (stopped op msg st))" using op(1) s(3) by simp
  from c [OF this] s(2) op(2) show ?thesis using sends.R_trans by fastforce
qed

lemmas demo_st_simps = demo_session_st_def demo_qos2_st_def demo_connected_st_def ClientImpl_init_def
  ConfigState_init_def

theorem last_ack_completes_witness:
  "let st = demo_session_st; st' = ClientImpl_dispatch demo_env (MPuback 1) st
   in findSendOp 1 st = Some (demo_send_op 2 0 1 1) \<and> (Type_Send, 2) \<in> set (all_ptrs st) \<and>
      (Type_Send, 2) \<notin> set (all_ptrs st') \<and>
      1 \<in> set (m_allocatedPacketIds (m_packetIds (clientState st))) \<and>
      1 \<notin> set (m_allocatedPacketIds (m_packetIds (clientState st'))) \<and>
      last (out st') = EvPublishComplete 2 2 ST_Complete"
proof -
  let ?op = "demo_send_op 2 0 1 1" and ?msg = "MPuback 1"
  have f: "findSendOp 1 demo_session_st = Some ?op" and l: "isLegitSendAck ?op (is_pubcomp ?msg) demo_session_st"
    by (simp_all add: findSendOp_def isLegitSendAck_def demo_st_simps)
  have a: "2 \<le> MaxQos demo_env" "ack_pid ?msg = Some 1" "ack_expected ?msg ?op" "\<not> (\<exists>p. ?msg = MPubrec p)"
    by simp_all
  have "(Type_Send, 2) \<in> set (all_ptrs demo_session_st)"
    "1 \<in> set (m_allocatedPacketIds (m_packetIds (clientState demo_session_st)))"
    by (simp_all add: all_ptrs_def demo_st_simps)
  with last_ack_completes [OF codec_ok_demo demo_reach(2) a(1,2) f l a(3,4) refl] f show ?thesis
    by (simp add: Let_def del: ClientImpl_dispatch.simps)
qed

section \<open>The other acknowledgements\<close>

definition transmits :: "env \<Rightarrow> prot_msg \<Rightarrow> bytes \<Rightarrow> client \<Rightarrow> bool" where
  "transmits E msg buf st \<longleftrightarrow> frame_write E msg = Some buf \<and> has_sendOutputDataCb st \<and>
     (MaxOutputPacketSize E = 0 \<or> frame_length E msg \<le> MaxOutputPacketSize E)"

lemma out_messageSent_loop [simp]: "out (fold KeepAliveOp_messageSent kas st) = out st"
  by (induction kas arbitrary: st) (simp_all add: KeepAliveOp_messageSent_def)

lemma sendMessage_transmits:
  assumes "transmits E msg buf st"
  shows "fst (sendMessage E msg st) = EC_Success"
    "out (snd (sendMessage E msg st)) = out st @ [EvSendOutputData buf]"
  using assms by (auto simp: transmits_def sendMessage_def Let_def emit_def)



text \<open>
  C9. An acknowledgement that does not fit the state of the publish it names (the wrong kind for its
  QoS, a second \<open>PUBREC\<close>, a \<open>PUBCOMP\<close> before the \<open>PUBREC\<close>) is a violation of the protocol: the publish
  is gone and reported with \<open>ProtocolError\<close>, then the session is down and reported as such.
\<close>

theorem unexpected_ack_is_protocol_error:
  assumes "codec_ok E" "client_reach E st" "2 \<le> MaxQos E" "ack_pid msg = Some pid"
    "findSendOp pid st = Some op" "isLegitSendAck op (is_pubcomp msg) st"
    "\<not> ack_expected msg op" "snd_cb op = Some cb" "has_brokerDisconnectReportCb st"
    "st' = ClientImpl_dispatch E msg st"
  shows "(Type_Send, snd_id op) \<notin> set (all_ptrs st') \<and>
    (\<exists>es fs. out st' = out st @ es @ [EvPublishComplete cb (snd_id op) ST_ProtocolError] @ fs @
        [EvBrokerDisconnectReport BDR_ProtocolError]) \<and>
    \<not> m_connected (sessionState st') \<and> m_disconnecting (sessionState st') \<and> reports st' = reports st"
proof -
  have inv: "client_inv st" using assms(1,2) by (rule reach_inv)
  then have wf: "ops_wf st" by (simp add: client_inv_def)
  have op: "op \<in> set (m_sendOps st)" using findSendOp_SomeD [OF assms(5)] by auto
  note s = stopped_inv [OF inv op, of msg]
  define st1 where "st1 = errorLog E (stopped op msg st)"
  define st2 where "st2 = SendOp_completeWithCb E (snd_id op) ST_ProtocolError st1"
  have inv1: "client_inv st1"
    using s(1) client_inv_cong [OF view_eq_steps(1)] by (simp add: st1_def errorLog_def filters_wf_def)
  note c = completeWithCb_effect [OF inv1 _ st2_def]
  have op1: "op \<in> set (m_sendOps st1)" using op s(3) by (simp add: st1_def)
  have wf2: "ops_wf st2" using c(3) [OF op1] by (simp add: client_inv_def)
  have so: "sends_only st st2" unfolding st2_def st1_def by (intro sends.R_completeWithCb sends.R_errorLog s(2))
  have st': "st' = brokerDisconnected_st E (Some BDR_ProtocolError) ST_BrokerDisconnected st2"
    using ack_dispatch [OF wf assms(3-6)] assms(7,10)
    by (simp add: SendOp_protocolError_def brokerDisconnected_def st2_def st1_def Let_def)
  have "Some BDR_ProtocolError = None \<or> has_brokerDisconnectReportCb st2"
    using so assms(9) by (simp add: sends_only_def unreported_def)
  note e = brokerDisconnected_effect [OF wf2 this st']
  have steps: "msteps E False st st2" "msteps E False st2 st'"
    unfolding st2_def st1_def stopped_def st'
    by (intro ev_core ev_errorLog ev_cancel ev_dispatch_keepAlives ev_brokerDisconnected msteps_refl)+
  have adv: "advances st st2" "advances st2 st'"
    using steps advances_msteps inv c(3) [OF op1] by (auto simp: msteps_def)
  have "(Type_Send, snd_id op) \<notin> set (all_ptrs st')"
    using c(1) [OF op1] e by (auto simp: all_ptrs_def)
  moreover have "\<exists>es fs. out st' = out st @ es @ [EvPublishComplete cb (snd_id op) ST_ProtocolError] @ fs @
      [EvBrokerDisconnectReport BDR_ProtocolError]"
  proof -
    let ?done = "EvPublishComplete cb (snd_id op) ST_ProtocolError"
    obtain es where "out st2 = out st1 @ es @ [?done]" using c(5) [OF op1 assms(8)] by blast
    moreover have "\<exists>ls. out st1 = out st @ ls" using s(4) by (simp add: st1_def errorLog_def emit_def)
    then obtain ls where "out st1 = out st @ ls" by blast
    moreover obtain fs where fs: "out st' = out st2 @ fs" using adv(2) by (auto simp: advances_def)
    moreover have "last (out st') = EvBrokerDisconnectReport BDR_ProtocolError" using e by blast
    ultimately have "out st' = out st @ (ls @ es) @ [?done] @ fs" "fs \<noteq> []"
      "last fs = EvBrokerDisconnectReport BDR_ProtocolError"
      by (auto split: if_splits)
    then show ?thesis by (metis append_butlast_last_id)
  qed
  ultimately show ?thesis using e so by (simp add: sends_only_def unreported_def)
qed

theorem unexpected_ack_is_protocol_error_witness:
  "let st = demo_qos2_st; st' = ClientImpl_dispatch demo_env (MPuback 1) st
   in findSendOp 1 st = Some (demo_send_op 2 0 2 1) \<and> m_connected (sessionState st) \<and>
      \<not> m_connected (sessionState st') \<and> (Type_Send, 2) \<notin> set (all_ptrs st') \<and>
      EvPublishComplete 2 2 ST_ProtocolError \<in> set (out st')"
proof -
  let ?op = "demo_send_op 2 0 2 1" and ?msg = "MPuback 1"
  have f: "findSendOp 1 demo_qos2_st = Some ?op" and l: "isLegitSendAck ?op (is_pubcomp ?msg) demo_qos2_st"
    and cb: "has_brokerDisconnectReportCb demo_qos2_st" and up: "m_connected (sessionState demo_qos2_st)"
    by (simp_all add: findSendOp_def isLegitSendAck_def demo_st_simps)
  have a: "2 \<le> MaxQos demo_env" "ack_pid ?msg = Some 1" "\<not> ack_expected ?msg ?op" "snd_cb ?op = Some 2"
    by simp_all
  from unexpected_ack_is_protocol_error [OF codec_ok_demo demo_reach(3) a(1,2) f l a(3,4) cb refl] f up
  show ?thesis by (auto simp: Let_def simp del: ClientImpl_dispatch.simps)
qed

end
