(* ===== verification/Recv_Props.thy ===== *)
theory Recv_Props
  imports Publish_Props
begin

text \<open>
  Incoming publishes: which messages are reported to the application, how they are acknowledged,
  and that a message of QoS 2 is reported once while it is being received.
\<close>

section \<open>Which messages are reported\<close>

definition topic_ok :: "env \<Rightarrow> PublishMsg \<Rightarrow> client \<Rightarrow> bool" where
  "topic_ok E m st \<longleftrightarrow> pm_topic m \<noteq> [] \<and>
     fst (verifyPubTopic (HasTopicFormatVerification E) (m_verifyOutgoingTopic (configState st))
       (m_verifyIncomingTopic (configState st)) (c_str (pm_topic m)) False) \<and>
     (HasSubTopicVerification E \<and> m_verifySubFilter (configState st) \<longrightarrow>
        subscribed_topic (m_subFilters (reuseState st)) (pm_topic m))"

definition accepts :: "env \<Rightarrow> PublishMsg \<Rightarrow> client \<Rightarrow> bool" where
  "accepts E m st \<longleftrightarrow> m_connected (sessionState st) \<and> \<not> m_disconnecting (sessionState st) \<and>
     pm_qos m \<le> 2 \<and> pm_qos m \<le> MaxQos E \<and> topic_ok E m st \<and> (0 < pm_qos m \<longrightarrow> pm_hasPacketId m) \<and>
     (pm_qos m = 2 \<longrightarrow> findRecvOp (pm_packetId m) st = None) \<and>
     \<not> vec_full (RecvOpsLimit E) (m_recvOps st)"

lemma verified_silent: "fst (verifyPubTopic v o' i t False) \<Longrightarrow> snd (verifyPubTopic v o' i t False) = None"
proof -
  have "fst (verifyPubTopic_loop t) \<Longrightarrow> snd (verifyPubTopic_loop t) = None"
    by (induction t rule: verifyPubTopic_loop.induct) auto
  then show "fst (verifyPubTopic v o' i t False) \<Longrightarrow> snd (verifyPubTopic v o' i t False) = None"
    by (auto simp: verifyPubTopic_def verifyPubTopicInternal_def)
qed

lemma unreported_log: "unreported st (log_opt E l st)"
  by (simp add: log_opt_def unrep.R_errorLog unrep.R_refl split: option.split)

lemma unreported_recv_error: "unreported a b \<Longrightarrow> unreported a (recv_protocolError E b)"
  by (simp add: recv_protocolError_def unrep.R_errorLog unrep.R_brokerDisconnected)

text \<open>The receiving operation of a new message, and the state it is dispatched in.\<close>

definition with_recv :: "env \<Rightarrow> client \<Rightarrow> RecvOp \<times> client" where
  "with_recv E st =
     (let (op, st1) = RecvOp_new E st; st2 = push_op E (Type_Recv, rcv_id op) st1
      in (op, st2\<lparr>m_recvOps := m_recvOps st2 @ [op]\<rparr>))"

lemma find_by_snoc: "find_by key i xs = None \<Longrightarrow> key x = i \<Longrightarrow> find_by key i (xs @ [x]) = Some x"
  by (induction xs) (auto simp: find_by_def split: if_splits)

lemma fresh_recv: "ops_wf st \<Longrightarrow> find_by rcv_id (next_id st) (m_recvOps st) = None"
proof -
  assume wf: "ops_wf st"
  have "rcv_id op \<noteq> next_id st" if "op \<in> set (m_recvOps st)" for op
  proof -
    have "(Type_Recv, rcv_id op) \<in> set (all_ptrs st)" using that by (simp add: all_ptrs_def)
    then show ?thesis using wf by (fastforce simp: ops_wf_def)
  qed
  then show ?thesis unfolding find_by_None_iff by (metis imageE)
qed

lemma with_recv_simps:
  assumes "ops_wf st" "with_recv E st = (op, st1)"
  shows "rcv_id op = next_id st" "rcv_packetId op = 0" "m_recvOps st1 = m_recvOps st @ [op]"
    "find_by rcv_id (next_id st) (m_recvOps st1) = Some op" "out st1 = out st"
    "configState st1 = configState st" "reuseState st1 = reuseState st" "sessionState st1 = sessionState st"
    "has_messageReceivedReportCb st1 = has_messageReceivedReportCb st"
    "has_sendOutputDataCb st1 = has_sendOutputDataCb st" "has_errorLogCb st1 = has_errorLogCb st"
    "has_brokerDisconnectReportCb st1 = has_brokerDisconnectReportCb st"
proof -
  obtain t tm where t: "allocTimer (TimersLimit E) (timerMgr st) = (t, tm)" by (metis surj_pair)
  let ?op = "\<lparr>rcv_id = next_id st, rcv_responseTimer = t, rcv_packetId = 0\<rparr>"
  let ?st1 = "(push_op E (Type_Recv, next_id st) (st\<lparr>timerMgr := tm, next_id := next_id st + 1\<rparr>))
    \<lparr>m_recvOps := m_recvOps st @ [?op]\<rparr>"
  have "with_recv E st = (?op, ?st1)" by (simp add: with_recv_def RecvOp_new_def client_allocTimer_def t)
  then have op: "op = ?op" and st1: "st1 = ?st1" using assms(2) by (metis fst_conv, metis snd_conv)
  show "rcv_id op = next_id st" "rcv_packetId op = 0" "m_recvOps st1 = m_recvOps st @ [op]" "out st1 = out st"
    "configState st1 = configState st" "reuseState st1 = reuseState st" "sessionState st1 = sessionState st"
    "has_messageReceivedReportCb st1 = has_messageReceivedReportCb st"
    "has_sendOutputDataCb st1 = has_sendOutputDataCb st" "has_errorLogCb st1 = has_errorLogCb st"
    "has_brokerDisconnectReportCb st1 = has_brokerDisconnectReportCb st"
    using op st1 by (simp_all add: push_op_def)
  then show "find_by rcv_id (next_id st) (m_recvOps st1) = Some op"
    using find_by_snoc [OF fresh_recv [OF assms(1)]] by simp
qed

lemma createRecvOp_dispatch:
  assumes "ops_wf st" "with_recv E st = (op, st1)"
  shows "createRecvOp E m st =
    (if vec_full (RecvOpsLimit E) (m_recvOps st) then errorLog E st
     else if 2 < pm_qos m \<or> MaxQos E < pm_qos m \<or> \<not> m_connected (sessionState st) \<or> pm_topic m = []
       then recv_protocolError E st1
     else let (ok, st2) = Op_verifyPubTopic E (c_str (pm_topic m)) False st1 in
       if \<not> topic_ok E m st then recv_protocolError E st2 else RecvOp_accept E m (next_id st) st2)"
proof -
  note w = with_recv_simps [OF assms]
  have "configState (snd (Op_verifyPubTopic E t b st1)) = configState st1"
    "reuseState (snd (Op_verifyPubTopic E t b st1)) = reuseState st1" for t b
    by (simp_all add: Op_verifyPubTopic_def log_opt_def Let_def split_def split: option.split)
  moreover have "fst (Op_verifyPubTopic E (c_str (pm_topic m)) False st1) =
      fst (verifyPubTopic (HasTopicFormatVerification E) (m_verifyOutgoingTopic (configState st))
       (m_verifyIncomingTopic (configState st)) (c_str (pm_topic m)) False)"
    by (simp add: Op_verifyPubTopic_def Let_def split_def w)
  moreover have "createRecvOp E m st = (if vec_full (RecvOpsLimit E) (m_recvOps st) then errorLog E st
      else RecvOp_handle_Publish E m (next_id st) st1)"
    using assms(2) w(1) by (auto simp: createRecvOp_def with_recv_def RecvOp_dispatch_def Let_def split_def)
  moreover have "on_recv (next_id st) f st1 = f op st1" for f
    using w(4) by (simp add: on_recv_def follow_def)
  ultimately show ?thesis
    by (simp add: RecvOp_handle_Publish_def w(2,6,7,8) topic_ok_def split_def Let_def)
qed

lemma unreported_with_recv:
  assumes "ops_wf st" "with_recv E st = (op, st1)"
  shows "reports st1 = reports st"
  using with_recv_simps(5) [OF assms] by (rule reports_cong)

lemma RecvOp_accept_unreported:
  assumes "0 < pm_qos m \<longrightarrow> pm_hasPacketId m"
  shows "unreported (reportMsgInfo (publish_info m) st) (RecvOp_accept E m i st)"
proof -
  let ?s = "reportMsgInfo (publish_info m) st"
  have f: "unreported ?s (opComplete E (Type_Recv, i) ?s)"
    "unreported ?s (opComplete E (Type_Recv, i) (snd (sendMessage E msg ?s)))" for msg
    by (intro unrep.R_opComplete unrep.R_sendMessage unrep.R_refl)+
  have "unreported ?s (on_recv i (RecvOp_restartResponseTimer E) (snd (sendMessage E msg (upd_recv i h ?s))))" for msg h
  proof -
    have "unreported ?s (upd_recv i h ?s)" by (simp add: unreported_def upd_recv_def reports_def)
    then have "unreported ?s (snd (sendMessage E msg (upd_recv i h ?s)))" by (rule unrep.R_sendMessage)
    then show ?thesis
      by (auto simp: on_recv_def RecvOp_restartResponseTimer_def intro!: unrep.R_follow unrep.R_then)
  qed
  then show ?thesis using f assms by (auto simp: RecvOp_accept_def Let_def)
qed

lemma reports_RecvOp_accept:
  assumes "has_messageReceivedReportCb st"
  shows "reports (RecvOp_accept E m i st) =
    reports st @ (if 0 < pm_qos m \<and> \<not> pm_hasPacketId m then [] else [publish_info m])"
proof (cases "0 < pm_qos m \<and> \<not> pm_hasPacketId m")
  case True
  have "unreported st (brokerDisconnected E (Some BDR_ProtocolError) st)"
    by (intro unrep.R_brokerDisconnected unrep.R_refl)
  with True show ?thesis by (auto simp: RecvOp_accept_def unreported_def)
next
  case False
  have "reports (reportMsgInfo (publish_info m) st) = reports st @ [publish_info m]"
    using assms by (simp add: reportMsgInfo_def reports_emit)
  with False RecvOp_accept_unreported [of m st E i] show ?thesis by (auto simp: unreported_def)
qed

lemma reports_createRecvOp:
  assumes "ops_wf st" "has_messageReceivedReportCb st"
  shows "reports (createRecvOp E m st) = reports st @
    (if \<not> vec_full (RecvOpsLimit E) (m_recvOps st) \<and> pm_qos m \<le> 2 \<and> pm_qos m \<le> MaxQos E \<and>
        m_connected (sessionState st) \<and> topic_ok E m st \<and> (0 < pm_qos m \<longrightarrow> pm_hasPacketId m)
     then [publish_info m] else [])"
proof -
  obtain op st1 where w: "with_recv E st = (op, st1)" by (metis surj_pair)
  note ws = with_recv_simps [OF assms(1) w]
  define st2 where "st2 = snd (Op_verifyPubTopic E (c_str (pm_topic m)) False st1)"
  have 2: "unreported st1 st2" by (simp add: st2_def Op_verifyPubTopic_def Let_def split_def unreported_log)
  then have "has_messageReceivedReportCb st2" "reports st2 = reports st"
    using ws(9) assms(2) unreported_with_recv [OF assms(1) w] by (simp_all add: unreported_def)
  note a = reports_RecvOp_accept [OF this(1), of E m] this(2)
  have e: "reports (recv_protocolError E st1) = reports st" "reports (recv_protocolError E st2) = reports st"
    "reports (errorLog E st) = reports st"
    using unreported_recv_error [OF unrep.R_refl, of st1 E] unreported_recv_error [OF 2, of E]
      unrep.R_errorLog [OF unrep.R_refl, of st E] unreported_with_recv [OF assms(1) w]
    by (simp_all add: unreported_def)
  show ?thesis
    using createRecvOp_dispatch [OF assms(1) w, of m] a e
    by (auto simp: st2_def split_def Let_def topic_ok_def not_less)
qed

lemma reports_handle_Publish:
  assumes "ops_wf st" "has_messageReceivedReportCb st"
  shows "reports (ClientImpl_dispatch E (MPublish m) st) =
    reports st @ (if accepts E m st then [publish_info m] else [])"
proof -
  obtain t where t: "dispatch_keepAlives (MPublish m) st = st\<lparr>timerMgr := t\<rparr>"
    using dispatch_keepAlives_timers by blast
  let ?s = "st\<lparr>timerMgr := t\<rparr>"
  have wf: "ops_wf ?s" using assms(1) ops_wf_cong [of ?s st] by simp
  note c = reports_createRecvOp [OF wf, of E m] 
  have "reports (snd (sendMessage E msg (RecvOp_resetTimer E op ?s))) = reports st" for msg op
    using unrep.R_sendMessage [of ?s "RecvOp_resetTimer E op ?s" E msg] unrep.R_refl [of ?s] unrep.R_timers [of ?s]
    by (auto simp: unreported_def RecvOp_resetTimer_def reports_def split: if_splits)
  moreover have "reports (recv_protocolError E ?s) = reports st"
    using unreported_recv_error [OF unrep.R_refl, of ?s E] by (simp add: unreported_def reports_def)
  moreover have "reports ?s = reports st" "topic_ok E m ?s = topic_ok E m st" "findRecvOp pid ?s = findRecvOp pid st" for pid
    by (simp_all add: reports_def topic_ok_def findRecvOp_def)
  ultimately show ?thesis
    using c assms(2)
    by (auto simp: ClientImpl_handle_Publish_def t accepts_def Let_def split: option.split)
qed

text \<open>
  C10. A message is reported to the application exactly when the client accepts it: it is connected,
  the QoS is one it supports, the topic is well formed and subscribed to where these checks are
  enabled, an acknowledged message carries a packet identifier, a message of QoS 2 is not one that
  is already being received, and there is room for the receiving operation. It is reported once,
  with the fields of the message.
\<close>

theorem message_reported_iff_accepted:
  assumes "codec_ok E" "client_reach E st" "has_messageReceivedReportCb st"
  shows "reports (ClientImpl_dispatch E (MPublish m) st) =
    reports st @ (if accepts E m st then [publish_info m] else [])"
proof -
  have "ops_wf st" using reach_inv [OF assms(1,2)] by (simp add: client_inv_def)
  then show ?thesis using assms(3) by (rule reports_handle_Publish)
qed

lemma demo_accepts: "accepts demo_env demo_message demo_subscribed_st"
  by code_simp

lemma demo_recv_simps:
  "has_messageReceivedReportCb demo_subscribed_st" "has_brokerDisconnectReportCb demo_subscribed_st"
  "has_sendOutputDataCb demo_subscribed_st" "has_sendOutputDataCb demo_received_st"
  "reports demo_subscribed_st = []" "next_id demo_subscribed_st = 3" "m_recvOps demo_subscribed_st = []"
  by (simp_all add: demo_received_st_def demo_subscribed_st_def demo_connected_st_def ClientImpl_init_def
      reports_def report_of.simps List.map_filter_simps)

theorem message_reported_iff_accepted_witness:
  "reports (ClientImpl_dispatch demo_env (MPublish demo_message) demo_subscribed_st) =
     [\<lparr>mi_topic = ''a/b'', mi_data = [5], mi_qos = 2, mi_retained = False\<rparr>]"
  using message_reported_iff_accepted [OF codec_ok_demo demo_reach(4) demo_recv_simps(1), of demo_message]
    demo_accepts demo_recv_simps(5)
  by (simp add: publish_info_def demo_message_def c_str_def del: ClientImpl_dispatch.simps)

section \<open>How accepted messages are acknowledged\<close>

lemma with_recv_listed:
  assumes "with_recv E st = (op, st1)" "ops_wf st"
  shows "Some (Type_Recv, next_id st) \<in> set (m_ops st1)"
  using assms with_recv_simps(1) [OF assms(2,1)]
  by (auto simp: with_recv_def RecvOp_new_def client_allocTimer_def push_op_def Let_def split_def)

lemma drop_recv:
  assumes "m_recvOps st = xs @ [op]" "find_by rcv_id (rcv_id op) xs = None"
    "Some (Type_Recv, rcv_id op) \<in> set (m_ops st)"
  shows "m_recvOps (drop_op (Type_Recv, rcv_id op) st) = xs"
proof -
  have "find_index (\<lambda>p. p = Some (Type_Recv, rcv_id op)) (m_ops st) < length (m_ops st)"
    using assms(3) by (auto simp: find_index_less_iff)
  moreover have "find_index (\<lambda>x. rcv_id x = rcv_id op) (xs @ [op]) = length xs"
    using assms(2) unfolding find_by_None_iff by (induction xs) auto
  then have "snd (eraseFromList rcv_id (rcv_id op) (xs @ [op])) = xs"
    by (simp add: eraseFromList_def erase_at_def)
  moreover have "find_by rcv_id (rcv_id op) (xs @ [op]) = Some op"
    using assms(2) by (rule find_by_snoc) simp
  ultimately show ?thesis
    using assms(1) by (simp add: drop_op_def opComplete_with_def opComplete_Recv_def forget_op_def Let_def)
qed

definition ack_msg :: "PublishMsg \<Rightarrow> prot_msg" where
  "ack_msg m = (if pm_qos m = 1 then MPuback (pm_packetId m) else MPubrec (pm_packetId m))"

definition recv_op_kept :: "PublishMsg \<Rightarrow> client \<Rightarrow> client \<Rightarrow> bool" where
  "recv_op_kept m st st' \<longleftrightarrow>
     (if pm_qos m = 2
      then \<exists>op. m_recvOps st' = m_recvOps st @ [op] \<and> rcv_packetId op = pm_packetId m \<and> rcv_id op = next_id st
      else m_recvOps st' = m_recvOps st)"

lemma accepted_dispatch:
  assumes "ops_wf st" "has_messageReceivedReportCb st" "accepts E m st"
    "st' = ClientImpl_dispatch E (MPublish m) st"
  shows "recv_op_kept m st st'" "has_messageReceivedReportCb st'"
    "has_brokerDisconnectReportCb st' = has_brokerDisconnectReportCb st"
    "(0 < pm_qos m \<Longrightarrow> transmits E (ack_msg m) buf st) \<Longrightarrow>
     out st' = out st @ EvMessageReceivedReport (publish_info m) # (if 0 < pm_qos m then [EvSendOutputData buf] else [])"
proof -
  obtain t where t: "dispatch_keepAlives (MPublish m) st = st\<lparr>timerMgr := t\<rparr>"
    using dispatch_keepAlives_timers by blast
  let ?s = "st\<lparr>timerMgr := t\<rparr>"
  have wf: "ops_wf ?s" using assms(1) ops_wf_cong [of ?s st] by simp
  obtain op st1 where w: "with_recv E ?s = (op, st1)" by (metis surj_pair)
  note ws = with_recv_simps [OF wf w] and listed = with_recv_listed [OF w wf]
  have ok: "fst (Op_verifyPubTopic E (c_str (pm_topic m)) False st1)"
    "snd (Op_verifyPubTopic E (c_str (pm_topic m)) False st1) = st1"
    using assms(3) verified_silent
    by (simp_all add: Op_verifyPubTopic_def log_opt_def Let_def split_def ws accepts_def topic_ok_def)
  have "st' = createRecvOp E m ?s"
    using assms(3,4) by (auto simp: ClientImpl_handle_Publish_def t accepts_def findRecvOp_def Let_def)
  also have "\<dots> = RecvOp_accept E m (next_id st) st1"
    using createRecvOp_dispatch [OF wf w, of m] assms(3) ok
    by (auto simp: accepts_def topic_ok_def split_def Let_def)
  finally have st': "st' = RecvOp_accept E m (next_id st) st1" .
  have "unreported (reportMsgInfo (publish_info m) st1) st'"
    unfolding st' by (rule RecvOp_accept_unreported) (use assms(3) in \<open>simp add: accepts_def\<close>)
  then show "has_messageReceivedReportCb st'" "has_brokerDisconnectReportCb st' = has_brokerDisconnectReportCb st"
    using ws(9,12) assms(2) by (auto simp: unreported_def reportMsgInfo_def emit_def)
  define s where "s = reportMsgInfo (publish_info m) st1"
  have s: "m_recvOps s = m_recvOps st @ [op]" "out s = out st @ [EvMessageReceivedReport (publish_info m)]"
    "m_ops s = m_ops st1" "has_sendOutputDataCb s = has_sendOutputDataCb st"
    using ws assms(2) by (simp_all add: s_def reportMsgInfo_def emit_def)
  have none: "find_by rcv_id (next_id st) (m_recvOps st) = None" using assms(1) by (rule fresh_recv)
  have id: "rcv_id op = next_id st" using ws(1) by simp
  have op: "opComplete E (Type_Recv, next_id st) x = drop_op (Type_Recv, next_id st) x" for x
    by (simp add: opComplete_def opComplete_with_eq)
  have low: "st' = drop_op (Type_Recv, next_id st)
      (if pm_qos m = 0 then s else snd (sendMessage E (ack_msg m) s))" if "pm_qos m \<noteq> 2"
    using that assms(3) by (auto simp: st' RecvOp_accept_def accepts_def ack_msg_def op s_def Let_def)
  define u where "u = upd_recv (next_id st) (\<lambda>op. op\<lparr>rcv_packetId := pm_packetId m\<rparr>) s"
  have "rcv_id x \<noteq> next_id st" if "x \<in> set (m_recvOps st)" for x
    using none that unfolding find_by_None_iff by (metis imageI)
  then have u: "m_recvOps u = m_recvOps st @ [op\<lparr>rcv_packetId := pm_packetId m\<rparr>]"
    using s(1) id by (simp add: u_def upd_recv_def upd_by_def map_idI)
  have fu: "find_by rcv_id (next_id st) (m_recvOps (snd (sendMessage E msg u))) = Some (op\<lparr>rcv_packetId := pm_packetId m\<rparr>)" for msg
    using find_by_snoc [OF none] id by (simp add: u)
  have high: "\<exists>o'. st' = RecvOp_restartResponseTimer E o' (snd (sendMessage E (ack_msg m) u))" if "pm_qos m = 2"
    using that assms(3) fu
    by (auto simp: st' RecvOp_accept_def accepts_def ack_msg_def s_def [symmetric] u_def [symmetric]
        on_recv_def follow_def Let_def)
  show "recv_op_kept m st st'"
  proof (cases "pm_qos m = 2")
    case True
    with high show ?thesis using id by (auto simp: recv_op_kept_def u RecvOp_restartResponseTimer_def)
  next
    case False
    have "m_recvOps st' = m_recvOps st"
      unfolding low [OF False] id [symmetric] by (rule drop_recv) (use s none id listed in auto)
    with False show ?thesis by (simp add: recv_op_kept_def)
  qed
  assume tr: "0 < pm_qos m \<Longrightarrow> transmits E (ack_msg m) buf st"
  have m: "0 < pm_qos m \<Longrightarrow> out (snd (sendMessage E (ack_msg m) x)) = out x @ [EvSendOutputData buf]"
    if "has_sendOutputDataCb x = has_sendOutputDataCb st" for x
    using sendMessage_transmits(2) [of E "ack_msg m" buf x] tr that by (auto simp: transmits_def)
  have "has_sendOutputDataCb u = has_sendOutputDataCb st" "out u = out s" using s(4) by (simp_all add: u_def upd_recv_def)
  with m [OF s(4)] m [of u] low high s(2)
  show "out st' = out st @ EvMessageReceivedReport (publish_info m) # (if 0 < pm_qos m then [EvSendOutputData buf] else [])"
    by (cases "pm_qos m = 2") (auto simp: drop_op_frame RecvOp_restartResponseTimer_def)
qed

text \<open>
  C11. An accepted message is reported first and acknowledged then, with the acknowledgement of its
  QoS and its packet identifier, and nothing else is sent. For QoS 2 the receiving operation stays
  and remembers the packet identifier, for the others it is gone.
\<close>

theorem accepted_message_acknowledged:
  assumes "codec_ok E" "client_reach E st" "has_messageReceivedReportCb st" "accepts E m st"
    "0 < pm_qos m \<longrightarrow> transmits E (ack_msg m) buf st" "st' = ClientImpl_dispatch E (MPublish m) st"
  shows "out st' = out st @ EvMessageReceivedReport (publish_info m) #
      (if 0 < pm_qos m then [EvSendOutputData buf] else []) \<and> recv_op_kept m st st'"
proof -
  have "ops_wf st" using reach_inv [OF assms(1,2)] by (simp add: client_inv_def)
  note d = accepted_dispatch [OF this assms(3,4,6)]
  show ?thesis by (intro conjI d(1) d(4)) (use assms(5) in blast)
qed

theorem accepted_message_acknowledged_witness:
  "let st = demo_subscribed_st; st' = ClientImpl_dispatch demo_env (MPublish demo_message) st
   in out st' = out st @ [EvMessageReceivedReport (publish_info demo_message), EvSendOutputData [80, 2, 0, 9]] \<and>
      (\<exists>op. m_recvOps st' = [op] \<and> rcv_packetId op = 9 \<and> rcv_id op = 3)"
proof -
  have q: "pm_qos demo_message = 2" "pm_packetId demo_message = 9" by (simp_all add: demo_message_def)
  have "transmits demo_env (ack_msg demo_message) [80, 2, 0, 9] demo_subscribed_st"
    using demo_recv_simps(3) q by (simp add: transmits_def ack_msg_def demo_env_def frame_def be16_def)
  then have "0 < pm_qos demo_message \<longrightarrow> transmits demo_env (ack_msg demo_message) [80, 2, 0, 9] demo_subscribed_st" ..
  from accepted_message_acknowledged [OF codec_ok_demo demo_reach(4) demo_recv_simps(1) demo_accepts this refl] q
  show ?thesis by (simp add: recv_op_kept_def demo_recv_simps Let_def del: ClientImpl_dispatch.simps)
qed

text \<open>
  C12. The last step of QoS 2 on the receiving side: the \<open>PUBREL\<close> for a message that is being received
  is answered by the \<open>PUBCOMP\<close> with its packet identifier and by nothing else, exactly the receiving
  operation is gone, and nothing is reported.
\<close>

theorem pubrel_completes_receive:
  assumes "codec_ok E" "client_reach E st" "2 \<le> MaxQos E" "findRecvOp pid st = Some op"
    "transmits E (MPubcomp pid) buf st" "st' = ClientImpl_dispatch E (MPubrel pid True) st"
  shows "out st' = out st @ [EvSendOutputData buf] \<and>
    set (all_ptrs st') = set (all_ptrs st) - {(Type_Recv, rcv_id op)} \<and> reports st' = reports st"
proof -
  have wf: "ops_wf st" using reach_inv [OF assms(1,2)] by (simp add: client_inv_def)
  obtain t where t: "dispatch_keepAlives (MPubrel pid True) st = st\<lparr>timerMgr := t\<rparr>"
    using dispatch_keepAlives_timers by blast
  define s where "s = on_timers (timerCancel (rcv_responseTimer op)) (st\<lparr>timerMgr := t\<rparr>)"
  define u where "u = snd (sendMessage E (MPubcomp pid) s)"
  have op: "op \<in> set (m_recvOps st)" "rcv_packetId op = pid" using assms(4) by (auto simp: findRecvOp_def find_Some_iff)
  have f: "find_by rcv_id (rcv_id op) (m_recvOps st) = Some op"
    by (rule find_by_distinct [OF ops_wf_distinct(6) [OF wf] op(1)])
  have st': "st' = drop_op (Type_Recv, rcv_id op) u"
    using assms(3,4,6) f op(2)
    by (simp add: ClientImpl_handle_Pubrel_def t findRecvOp_def RecvOp_dispatch_def RecvOp_handle_Pubrel_def
        on_recv_def follow_def u_def s_def opComplete_def opComplete_with_eq Let_def)
  have "transmits E (MPubcomp pid) buf s" using assms(5) by (simp add: transmits_def s_def on_timers_def)
  note m = sendMessage_transmits [OF this, folded u_def]
  have p: "all_ptrs u = all_ptrs st" by (simp add: u_def s_def all_ptrs_def on_timers_def)
  have "ops_wf u" using wf ops_wf_cong [of u st] by (simp add: u_def s_def on_timers_def all_ptrs_def live_ops_def)
  then have "set (all_ptrs st') = set (all_ptrs st) - {(Type_Recv, rcv_id op)}" using drop_op_ptrs p by (simp add: st')
  moreover have "out st' = out st @ [EvSendOutputData buf]" using m(2) by (simp add: st' drop_op_frame s_def)
  ultimately show ?thesis by (simp add: reports_def report_of.simps List.map_filter_def)
qed

theorem pubrel_completes_receive_witness:
  "let st = demo_received_st; st' = ClientImpl_dispatch demo_env (MPubrel 9 True) st
   in out st' = out st @ [EvSendOutputData [112, 2, 0, 9]] \<and> (Type_Recv, 3) \<in> set (all_ptrs st) \<and>
      set (all_ptrs st') = {(Type_KeepAlive, 1)}"
proof -
  let ?op = "\<lparr>rcv_id = 3, rcv_responseTimer = 0, rcv_packetId = 9\<rparr>"
  have f: "findRecvOp 9 demo_received_st = Some ?op" by (simp add: findRecvOp_def demo_received_st_def)
  have t: "transmits demo_env (MPubcomp 9) [112, 2, 0, 9] demo_received_st"
    using demo_recv_simps(4) by (simp add: transmits_def demo_env_def frame_def be16_def)
  have p: "all_ptrs demo_received_st = [(Type_KeepAlive, 1), (Type_Recv, 3)]"
    by (simp add: all_ptrs_def demo_received_st_def demo_subscribed_st_def demo_connected_st_def ClientImpl_init_def)
  from pubrel_completes_receive [OF codec_ok_demo demo_reach(5) _ f t refl] p
  show ?thesis by (auto simp: Let_def simp del: ClientImpl_dispatch.simps)
qed

section \<open>Exactly once\<close>

text \<open>A message with the identifier of a message being received changes nothing the application sees.\<close>

lemma duplicate_step:
  assumes "client_inv st" "has_messageReceivedReportCb st" "has_brokerDisconnectReportCb st"
    "findRecvOp (pm_packetId m) st \<noteq> None" "pm_qos m = 2" "2 \<le> MaxQos E"
    "st' = ClientImpl_dispatch E (MPublish m) st"
  shows "client_inv st'" "has_messageReceivedReportCb st'" "has_brokerDisconnectReportCb st'"
    "m_recvOps st' = m_recvOps st" "reports st' = reports st"
proof -
  have wf: "ops_wf st" using assms(1) by (simp add: client_inv_def)
  have "msteps E False st st'" unfolding assms(7) by (intro ev_ClientImpl_dispatch msteps_refl)
  then show "client_inv st'" using assms(1) client_inv_msteps by (auto simp: msteps_def)
  show "reports st' = reports st"
    using reports_handle_Publish [OF wf assms(2), of E m] assms(4,5,7) by (auto simp: accepts_def)
  obtain t where t: "dispatch_keepAlives (MPublish m) st = st\<lparr>timerMgr := t\<rparr>"
    using dispatch_keepAlives_timers by blast
  let ?s = "st\<lparr>timerMgr := t\<rparr>"
  have wf2: "ops_wf (errorLog E ?s)"
    using wf ops_wf_cong [of "errorLog E ?s" st] by (simp add: live_ops_def all_ptrs_def)
  have cb: "Some BDR_ProtocolError = None \<or> has_brokerDisconnectReportCb (errorLog E ?s)" using assms(3) by simp
  have b: "m_recvOps (recv_protocolError E ?s) = m_recvOps st"
    using brokerDisconnected_effect [OF wf2 cb refl, of E ST_BrokerDisconnected]
    by (simp add: recv_protocolError_def brokerDisconnected_def)
  have u: "unreported ?s (recv_protocolError E ?s)" by (intro unreported_recv_error unrep.R_refl)
  have "st' = st \<or> st' = recv_protocolError E ?s \<or>
      (\<exists>op. st' = snd (sendMessage E (MPubrec (pm_packetId m)) (RecvOp_resetTimer E op ?s)))"
    using assms(4-7) by (auto simp: ClientImpl_handle_Publish_def t Let_def findRecvOp_def split: option.split)
  then show "m_recvOps st' = m_recvOps st" "has_messageReceivedReportCb st'" "has_brokerDisconnectReportCb st'"
    using assms(2,3) b u by (auto simp: RecvOp_resetTimer_def unreported_def)
qed

text \<open>Time passes without reports.\<close>

lemma unreported_timeout: "unreported a b \<Longrightarrow> unreported a (run_timeout E c b)"
  by (cases "(E, c, b)" rule: run_timeout.cases)
    (auto simp: ConnectOp_opTimeoutInternal_def SubscribeOp_opTimeoutInternal_def UnsubscribeOp_opTimeoutInternal_def
      KeepAliveOp_sendPing_def KeepAliveOp_pingTimeoutInternal_def RecvOp_responseTimeoutInternal_def
      SendOp_responseTimeoutInternal_def unrep.on_ops Let_def
      intro!: unrep.R_follow unrep.R_on_send unrep.R_completeOpInternal unrep.R_then unrep.R_sendMessage unrep.R_errorLog
        unrep.R_brokerDisconnected unrep.R_opComplete unrep.R_resendDupMsg)

lemma unreported_tick: "unreported st (tick E ms st)"
proof -
  have "unreported a b \<Longrightarrow> unreported a (fold (run_timeout E) cbs b)" for a b cbs
    by (induction cbs arbitrary: b) (simp_all add: unreported_timeout)
  then have "unreported st (TimerMgr_tick E ms (st\<lparr>m_apiEnterCount := m_apiEnterCount st + 1\<rparr>))"
    by (simp add: TimerMgr_tick_def split_def Let_def unreported_def reports_def)
  moreover have "unreported b (doApiExit b)" for b
    by (simp add: doApiExit_def cleanOps_def Let_def unreported_def reports_emit) (simp add: reports_def)
  ultimately show ?thesis unfolding tick_def using unrep.R_trans by blast
qed

text \<open>
  What can happen while a message of QoS 2 is being received: time passes, or the broker sends the
  message again, which arrives while the receiving operation still exists.
\<close>

fun exchange_step :: "env \<Rightarrow> u32 + PublishMsg \<Rightarrow> client \<Rightarrow> client" where
  "exchange_step E (Inl ms) st = tick E ms st"
| "exchange_step E (Inr m) st = ClientImpl_dispatch E (MPublish m) st"

fun being_received :: "env \<Rightarrow> u16 \<Rightarrow> (u32 + PublishMsg) list \<Rightarrow> client \<Rightarrow> bool" where
  "being_received E pid [] st \<longleftrightarrow> True"
| "being_received E pid (Inl ms # steps) st \<longleftrightarrow> being_received E pid steps (tick E ms st)"
| "being_received E pid (Inr m # steps) st \<longleftrightarrow> pm_qos m = 2 \<and> pm_packetId m = pid \<and> findRecvOp pid st \<noteq> None \<and>
     being_received E pid steps (ClientImpl_dispatch E (MPublish m) st)"

lemma exchange_unreported:
  assumes "client_inv st" "has_messageReceivedReportCb st" "has_brokerDisconnectReportCb st" "2 \<le> MaxQos E"
    "being_received E pid steps st" "st' = fold (exchange_step E) steps st"
  shows "reports st' = reports st \<and> client_inv st' \<and> has_messageReceivedReportCb st'"
  using assms
proof (induction steps arbitrary: st)
  case (Cons s steps)
  show ?case
  proof (cases s)
    case (Inl ms)
    have t: "unreported st (tick E ms st)" by (rule unreported_tick)
    have "msteps E False st (tick E ms st)" by (intro ev_calls msteps_refl)
    then have "client_inv (tick E ms st)" using Cons.prems(1) client_inv_msteps by (auto simp: msteps_def)
    from Cons.IH [OF this] Cons.prems t Inl show ?thesis by (simp add: unreported_def)
  next
    case (Inr m)
    note d = duplicate_step [OF Cons.prems(1-3), of m, OF _ _ Cons.prems(4) refl]
    have d: "client_inv (ClientImpl_dispatch E (MPublish m) st)" "has_messageReceivedReportCb (ClientImpl_dispatch E (MPublish m) st)"
      "has_brokerDisconnectReportCb (ClientImpl_dispatch E (MPublish m) st)" "reports (ClientImpl_dispatch E (MPublish m) st) = reports st"
      using d Cons.prems(5) Inr by (auto simp del: ClientImpl_dispatch.simps)
    from Cons.IH [OF d(1-3)] Cons.prems(4-6) d(4) Inr show ?thesis by (simp del: ClientImpl_dispatch.simps)
  qed
qed simp



end
