(* ===== verification/Input_Props.thy ===== *)
theory Input_Props
  imports Recv_Props
begin

text \<open>
  The input of the client is a stream of bytes that arrives in pieces. The application keeps the
  bytes \<open>processData\<close> has not consumed and passes them again together with the next ones.
\<close>

section \<open>Frames\<close>

text \<open>
  What the framing of MQTT provides: a packet carries its length, so a complete packet at the front
  of the input is recognised whatever follows it.
\<close>

definition delimited :: "env \<Rightarrow> bool" where
  "delimited E \<longleftrightarrow>
     (\<forall>a b msg k. frame_read E a = FR_Msg msg k \<longrightarrow> frame_read E (a @ b) = FR_Msg msg k) \<and>
     (\<forall>a b. size_read E a = RS_Success \<longrightarrow> size_read E (a @ b) = RS_Success)"

lemma codec_ok_read: "codec_ok E \<Longrightarrow> frame_read E data = FR_Msg msg k \<Longrightarrow> 0 < k \<and> k \<le> length data"
  by (simp add: codec_ok_def)

text \<open>The number of bytes is always enough fuel.\<close>

lemma process_loop_fuel:
  assumes "codec_ok E" "length data < n" "length data < n'"
  shows "process_loop n E data c st = process_loop n' E data c st"
  using assms(2,3)
proof (induction n arbitrary: n' data c st)
  case (Suc n)
  then obtain m where m: "n' = Suc m" by (cases n') auto
  have "process_loop n E (drop k data) (c + k) s = process_loop m E (drop k data) (c + k) s"
    if "frame_read E data = FR_Msg msg k" for msg k s
    using codec_ok_read [OF assms(1) that] Suc.prems m by (intro Suc.IH) auto
  then show ?case unfolding m by (simp split: read_status.split frame_result.split)
qed simp

lemma process_loop_append:
  assumes "codec_ok E" "delimited E" "length a < n" "process_loop n E a c st = (False, d, st')"
    "length (a @ b) < N"
  shows "c \<le> d \<and> d - c \<le> length a \<and> process_loop N E (a @ b) c st = process_loop N E (drop (d - c) a @ b) d st'"
  using assms(3-5)
proof (induction n arbitrary: a c st N)
  case (Suc n)
  show ?case
  proof (cases "\<exists>msg k. a \<noteq> [] \<and> \<not> length a \<le> idAndFlags_len E \<and>
      size_read E (drop (idAndFlags_len E) a) = RS_Success \<and> frame_read E a = FR_Msg msg k")
    case True
    then obtain msg k where a: "a \<noteq> []" "idAndFlags_len E < length a"
      "size_read E (drop (idAndFlags_len E) a) = RS_Success" "frame_read E a = FR_Msg msg k"
      by (auto simp: not_le)
    obtain M where N: "N = Suc M" using Suc.prems(3) by (cases N) auto
    have k: "0 < k" "k \<le> length a" using codec_ok_read [OF assms(1) a(4)] by auto
    let ?s = "ClientImpl_dispatch E msg st"
    have "size_read E (drop (idAndFlags_len E) (a @ b)) = RS_Success" "frame_read E (a @ b) = FR_Msg msg k"
      using assms(2) a by (simp_all add: delimited_def)
    then have ab: "process_loop N E (a @ b) c st = process_loop M E (drop k a @ b) (c + k) ?s"
      using a k by (simp add: N del: ClientImpl_dispatch.simps)
    have l: "process_loop n E (drop k a) (c + k) ?s = (False, d, st')"
      using Suc.prems(2) a by (simp del: ClientImpl_dispatch.simps)
    have "length (drop k a) < n" "length (drop k a @ b) < M" using Suc.prems k N by auto
    from Suc.IH [OF this(1) l this(2)] have IH: "c + k \<le> d" "d - (c + k) \<le> length (drop k a)"
      "process_loop M E (drop k a @ b) (c + k) ?s = process_loop M E (drop (d - (c + k)) (drop k a) @ b) d st'"
      by auto
    have "process_loop M E (drop (d - c) a @ b) d st' = process_loop N E (drop (d - c) a @ b) d st'"
      using IH(1) Suc.prems(3) k N by (intro process_loop_fuel [OF assms(1)]) auto
    moreover have "drop (d - (c + k)) (drop k a) = drop (d - c) a" using IH(1) by simp
    ultimately show ?thesis using IH ab k by auto
  next
    case False
    then have "d = c" "st' = st"
      using Suc.prems(2) by (auto split: if_splits read_status.splits frame_result.splits)
    then show ?thesis by simp
  qed
qed simp

text \<open>
  C14. The pieces in which the input arrives make no difference to the messages that are handled:
  processing some bytes and then the unconsumed rest followed by more bytes handles the same
  messages, with the same resulting state, as processing everything at once. Nothing beyond the
  given bytes is consumed.
\<close>

theorem input_in_pieces:
  assumes "codec_ok E" "delimited E" "process_loop (length a + 1) E a 0 st = (False, consumed, st1)"
  shows "consumed \<le> length a \<and>
    process_loop (length (a @ b) + 1) E (a @ b) 0 st =
      process_loop (length (drop consumed a @ b) + 1) E (drop consumed a @ b) consumed st1"
proof -
  note p = process_loop_append [OF assms(1,2) _ assms(3), of b "length (a @ b) + 1"]
  have "process_loop (length (a @ b) + 1) E (drop consumed a @ b) consumed st1 =
      process_loop (length (drop consumed a @ b) + 1) E (drop consumed a @ b) consumed st1"
    by (intro process_loop_fuel [OF assms(1)]) auto
  with p show ?thesis by simp
qed

lemma delimited_demo: "delimited demo_env"
proof -
  have "demo_read (a @ b) = FR_Msg msg k" if "demo_read a = FR_Msg msg k" for a b msg k
    using that by (cases a rule: demo_read.cases) (auto split: if_splits option.splits)
  then show ?thesis by (auto simp: delimited_def demo_env_def split: if_splits)
qed

theorem input_in_pieces_witness:
  "let (bad, consumed, st1) = process_loop 6 demo_env [0x40, 2, 0, 1, 0x50] 0 demo_session_st
   in consumed = 4 \<and> process_loop 9 demo_env ([0x40, 2, 0, 1, 0x50] @ [2, 0, 2]) 0 demo_session_st =
      process_loop 5 demo_env [0x50, 2, 0, 2] 4 st1"
proof -
  define st1 where "st1 = ClientImpl_dispatch demo_env (MPuback 1) demo_session_st"
  have "frame_read demo_env [0x40, 2, 0, 1, 0x50] = FR_Msg (MPuback 1) 4"
    "size_read demo_env (drop (idAndFlags_len demo_env) [0x40, 2, 0, 1, 0x50]) = RS_Success"
    "idAndFlags_len demo_env = 1"
    by (simp_all add: demo_env_def rd16_def)
  then have p: "process_loop (length [0x40, 2, 0, 1, 0x50 :: u8] + 1) demo_env [0x40, 2, 0, 1, 0x50] 0 demo_session_st =
      (False, 4, st1)"
    by (simp add: st1_def numeral_eq_Suc del: ClientImpl_dispatch.simps)
  have n: "length [0x40, 2, 0, 1, 0x50 :: u8] + 1 = 6" "length ([0x40, 2, 0, 1, 0x50 :: u8] @ [2, 0, 2]) + 1 = 9"
    "drop 4 [0x40, 2, 0, 1, 0x50 :: u8] @ [2, 0, 2] = [0x50, 2, 0, 2]" "length [0x50, 2, 0, 2 :: u8] + 1 = 5"
    by simp_all
  from input_in_pieces [OF codec_ok_demo delimited_demo p, of "[2, 0, 2]"] p [unfolded n(1)]
  show ?thesis unfolding n Let_def by (simp del: process_loop.simps append.simps)
qed

end
