(* ===== verification/App_Session.thy ===== *)
theory App_Session
  imports Input_Props
begin

text \<open>
  The network side of the example applications: \<open>app/common/Session.cpp\<close>, \<open>TcpSession.cpp\<close> and
  \<open>TlsSession.cpp\<close>. The sockets, the resolver and the TLS context belong to \<open>boost::asio\<close>; what their
  calls return is an argument of the definitions. The application is the type \<open>'c\<close> of the two
  callbacks a session is given.
\<close>

section \<open>Sessions\<close>

record app_session =
  ses_buf :: bytes
  ses_networkDisconnected :: bool

definition app_session_init :: app_session where
  "app_session_init = \<lparr>ses_buf = [], ses_networkDisconnected = False\<rparr>"

text \<open>The result of an asynchronous or synchronous operation on the socket.\<close>

datatype io_status = IO_Success | IO_Aborted | IO_Failed

type_synonym 'c data_report = "bytes \<Rightarrow> app_session \<times> 'c \<Rightarrow> nat \<times> app_session \<times> 'c"
type_synonym 'c net_report = "app_session \<times> 'c \<Rightarrow> app_session \<times> 'c"

definition Session_reportNetworkDisconnected :: "'c net_report \<Rightarrow> app_session \<times> 'c \<Rightarrow> app_session \<times> 'c" where
  "Session_reportNetworkDisconnected cb sc =
     (if ses_networkDisconnected (fst sc) then sc
      else cb ((fst sc)\<lparr>ses_networkDisconnected := True\<rparr>, snd sc))"

text \<open>The types of connection; the limit of the enumeration stands for a name that is not known.\<close>

datatype ConnectionType = ConnectionType_Tcp | ConnectionType_Tls | ConnectionType_ValuesLimit

definition Session_create :: "bool \<Rightarrow> ConnectionType \<Rightarrow> ConnectionType option" where
  "Session_create has_openssl t =
     (case t of ConnectionType_Tcp \<Rightarrow> Some ConnectionType_Tcp
      | ConnectionType_Tls \<Rightarrow> if has_openssl then Some ConnectionType_Tls else None
      | ConnectionType_ValuesLimit \<Rightarrow> None)"

section \<open>Plain connections\<close>

text \<open>Both steps of the start; the reading is started when both succeed.\<close>

definition TcpSession_startImpl :: "io_status \<Rightarrow> io_status \<Rightarrow> bool" where
  "TcpSession_startImpl resolved connected =
     (if resolved \<noteq> IO_Success then False else if connected \<noteq> IO_Success then False else True)"

definition TcpSession_sendDataImpl ::
  "'c net_report \<Rightarrow> io_status \<Rightarrow> nat \<Rightarrow> bytes \<Rightarrow> app_session \<times> 'c \<Rightarrow> app_session \<times> 'c" where
  "TcpSession_sendDataImpl cb ec written buf sc =
     (case ec of
        IO_Aborted \<Rightarrow> sc
      | IO_Failed \<Rightarrow> Session_reportNetworkDisconnected cb sc
      | IO_Success \<Rightarrow> if written \<noteq> length buf then Session_reportNetworkDisconnected cb sc else sc)"

text \<open>
  The handler of \<open>doRead\<close>; its first result tells whether it starts the next read. The bytes read are
  put behind those left over, unless nothing is left over, and what is not consumed is kept.
\<close>

definition TcpSession_onRead ::
  "'c data_report \<Rightarrow> 'c net_report \<Rightarrow> io_status \<Rightarrow> bytes \<Rightarrow> app_session \<times> 'c \<Rightarrow> bool \<times> app_session \<times> 'c" where
  "TcpSession_onRead report cb ec inData sc =
     (case ec of
        IO_Aborted \<Rightarrow> (False, sc)
      | IO_Failed \<Rightarrow> (False, Session_reportNetworkDisconnected cb sc)
      | IO_Success \<Rightarrow>
          let s = fst sc;
              s1 = (if ses_buf s \<noteq> [] then s\<lparr>ses_buf := ses_buf s @ inData\<rparr> else s);
              buf = (if ses_buf s \<noteq> [] then ses_buf s1 else inData);
              (consumed, s2, c2) = report buf (s1, snd sc);
              s3 = (if length buf \<le> consumed then s2\<lparr>ses_buf := []\<rparr>
                    else if ses_buf s2 \<noteq> [] then s2\<lparr>ses_buf := drop consumed (ses_buf s2)\<rparr>
                    else s2\<lparr>ses_buf := ses_buf s2 @ drop consumed inData\<rparr>)
          in (True, s3, c2))"

section \<open>Secured connections\<close>

text \<open>The calls of the TLS context, in the order they are made; \<open>tls\<close> tells which succeed.\<close>

datatype tls_call = Load_verify_file string | Set_verify_peer bool | Set_password_callback string
  | Use_private_key_file string | Use_certificate_file string

text \<open>The first call that fails ends the sequence.\<close>

fun tls_calls :: "(tls_call \<Rightarrow> bool) \<Rightarrow> tls_call list \<Rightarrow> bool \<times> tls_call list" where
  "tls_calls tls [] = (True, [])"
| "tls_calls tls (c # cs) = (if tls c then let (r, done) = tls_calls tls cs in (r, c # done) else (False, [c]))"

definition TlsSession_configureSslCaCert :: "(tls_call \<Rightarrow> bool) \<Rightarrow> string \<Rightarrow> bool \<times> tls_call list" where
  "TlsSession_configureSslCaCert tls tlsCa =
     tls_calls tls (if tlsCa \<noteq> [] then [Load_verify_file tlsCa, Set_verify_peer True] else [Set_verify_peer False])"

definition TlsSession_configureSslKey :: "(tls_call \<Rightarrow> bool) \<Rightarrow> string \<Rightarrow> string \<Rightarrow> bool \<times> tls_call list" where
  "TlsSession_configureSslKey tls key pass =
     (if key = [] then (True, [])
      else tls_calls tls ((if pass \<noteq> [] then [Set_password_callback pass] else []) @ [Use_private_key_file key]))"

text \<open>What the password callback answers.\<close>

definition password_answer :: "string \<Rightarrow> nat \<Rightarrow> string" where
  "password_answer pass maxLen = take (min (length pass) maxLen) pass"

definition TlsSession_configureSslCert :: "(tls_call \<Rightarrow> bool) \<Rightarrow> string \<Rightarrow> bool \<times> tls_call list" where
  "TlsSession_configureSslCert tls cert = (if cert = [] then (True, []) else tls_calls tls [Use_certificate_file cert])"

definition and_then :: "bool \<times> 'a list \<Rightarrow> bool \<times> 'a list \<Rightarrow> bool \<times> 'a list" where
  "and_then x y = (if fst x then (fst y, snd x @ snd y) else x)"

definition TlsSession_configureSslContext ::
  "(tls_call \<Rightarrow> bool) \<Rightarrow> string \<Rightarrow> string \<Rightarrow> string \<Rightarrow> string \<Rightarrow> bool \<times> tls_call list" where
  "TlsSession_configureSslContext tls ca key pass cert =
     and_then (TlsSession_configureSslCaCert tls ca)
       (and_then (TlsSession_configureSslKey tls key pass) (TlsSession_configureSslCert tls cert))"

text \<open>The start, with the calls of the context it made before it connected.\<close>

definition TlsSession_startImpl ::
  "io_status \<Rightarrow> (tls_call \<Rightarrow> bool) \<Rightarrow> string \<Rightarrow> string \<Rightarrow> string \<Rightarrow> string \<Rightarrow> io_status \<Rightarrow> io_status \<Rightarrow>
     bool \<times> tls_call list" where
  "TlsSession_startImpl resolved tls ca key pass cert connected handshaken =
     (if resolved \<noteq> IO_Success then (False, [])
      else let (ok, done) = TlsSession_configureSslContext tls ca key pass cert in
        if \<not> ok then (False, done)
        else if connected \<noteq> IO_Success then (False, done)
        else if handshaken \<noteq> IO_Success then (False, done)
        else (True, done))"

definition TlsSession_sendDataImpl ::
  "'c net_report \<Rightarrow> io_status \<Rightarrow> nat \<Rightarrow> bytes \<Rightarrow> app_session \<times> 'c \<Rightarrow> app_session \<times> 'c" where
  "TlsSession_sendDataImpl cb ec written buf sc =
     (if ec = IO_Aborted then sc
      else if ec \<noteq> IO_Success \<or> written \<noteq> length buf then Session_reportNetworkDisconnected cb sc
      else sc)"

definition TlsSession_onRead ::
  "'c data_report \<Rightarrow> 'c net_report \<Rightarrow> io_status \<Rightarrow> bytes \<Rightarrow> app_session \<times> 'c \<Rightarrow> bool \<times> app_session \<times> 'c" where
  "TlsSession_onRead report cb ec inData sc =
     (if ec = IO_Aborted then (False, sc)
      else if ec \<noteq> IO_Success then (False, Session_reportNetworkDisconnected cb sc)
      else
        let s = fst sc; old = (ses_buf s \<noteq> []);
            s1 = (if old then s\<lparr>ses_buf := ses_buf s @ inData\<rparr> else s);
            buf = (if old then ses_buf s1 else inData);
            (consumed, s2, c2) = report buf (s1, snd sc);
            s3 = (if length buf \<le> consumed then s2\<lparr>ses_buf := []\<rparr>
                  else if ses_buf s2 \<noteq> [] then s2\<lparr>ses_buf := drop consumed (ses_buf s2)\<rparr>
                  else s2\<lparr>ses_buf := ses_buf s2 @ drop consumed inData\<rparr>)
        in (True, s3, c2))"

text \<open>The two kinds of connection treat what is read and written alike.\<close>

lemma Tls_as_Tcp: "TlsSession_onRead = TcpSession_onRead" "TlsSession_sendDataImpl = TcpSession_sendDataImpl"
  by (auto simp: fun_eq_iff TlsSession_onRead_def TcpSession_onRead_def TlsSession_sendDataImpl_def
      TcpSession_sendDataImpl_def Let_def split: io_status.split)

section \<open>Reading a stream in portions\<close>

text \<open>The data report callback of a consumer that leaves the session alone.\<close>

definition report_to :: "(bytes \<Rightarrow> 'c \<Rightarrow> nat \<times> 'c) \<Rightarrow> 'c data_report" where
  "report_to consume buf sc = (let (k, c) = consume buf (snd sc) in (k, fst sc, c))"

text \<open>Every portion is accepted behind what is left over from the ones before.\<close>

fun portions_ok :: "(bytes \<Rightarrow> 'c \<Rightarrow> bool) \<Rightarrow> (bytes \<Rightarrow> 'c \<Rightarrow> nat \<times> 'c) \<Rightarrow> bytes \<Rightarrow> bytes list \<Rightarrow> 'c \<Rightarrow> bool" where
  "portions_ok takes consume left [] c = True"
| "portions_ok takes consume left (b # bs) c =
     (takes (left @ b) c \<and>
      (let (k, c') = consume (left @ b) c in portions_ok takes consume (drop k (left @ b)) bs c'))"

text \<open>A consumer of bytes for which the portions do not matter as long as it takes them.\<close>

locale stream_consumer =
  fixes valid :: bool
    and takes :: "bytes \<Rightarrow> 'c \<Rightarrow> bool"
    and consume :: "bytes \<Rightarrow> 'c \<Rightarrow> nat \<times> 'c"
  assumes empty_input: "valid \<Longrightarrow> takes [] c \<and> consume [] c = (0, c)"
    and rest: "valid \<Longrightarrow> takes a c \<Longrightarrow> consume a c = (k, c1) \<Longrightarrow> k \<le> length a \<and>
      takes (a @ b) c = takes (drop k a @ b) c1 \<and>
      consume (a @ b) c = (k + fst (consume (drop k a @ b) c1), snd (consume (drop k a @ b) c1))"
begin

definition read_one :: "bytes \<Rightarrow> app_session \<times> 'c \<Rightarrow> app_session \<times> 'c" where
  "read_one b sc = snd (TcpSession_onRead (report_to consume) id IO_Success b sc)"

lemma read_one_step:
  "read_one b (s, c) = (let (k, c') = consume (ses_buf s @ b) c in (s\<lparr>ses_buf := drop k (ses_buf s @ b)\<rparr>, c'))"
  by (cases s) (auto simp: read_one_def TcpSession_onRead_def report_to_def Let_def split_def)

lemma read_stream:
  assumes valid "takes a c0" "consume a c0 = (k, c)" "portions_ok takes consume (drop k a) bs c"
  shows "takes (a @ concat bs) c0 \<and> fold read_one bs (s\<lparr>ses_buf := drop k a\<rparr>, c) =
    (let (k', c') = consume (a @ concat bs) c0 in (s\<lparr>ses_buf := drop k' (a @ concat bs)\<rparr>, c'))"
  using assms(2-)
proof (induction bs arbitrary: a k c)
  case (Cons b bs)
  obtain k1 c1 where 1: "consume (drop k a @ b) c = (k1, c1)" by (metis surj_pair)
  note r = rest [OF assms(1) Cons.prems(1,2), of b]
  have "takes (a @ b) c0" "consume (a @ b) c0 = (k + k1, c1)" using r 1 Cons.prems(3) by auto
  moreover have d: "drop k1 (drop k a @ b) = drop (k + k1) (a @ b)" using r by (simp add: add.commute)
  then have "read_one b (s\<lparr>ses_buf := drop k a\<rparr>, c) = (s\<lparr>ses_buf := drop (k + k1) (a @ b)\<rparr>, c1)"
    by (simp add: read_one_step 1 del: drop_append)
  ultimately show ?case using Cons.IH [of "a @ b" "k + k1" c1] Cons.prems(3) 1 d by (simp del: drop_append)
qed simp

lemma stream_delivered:
  assumes valid "portions_ok takes consume [] bs c0" "consume (concat bs) c0 = (k, c)"
  shows "k \<le> length (concat bs) \<and> fold read_one bs (app_session_init, c0) =
    (app_session_init\<lparr>ses_buf := drop k (concat bs)\<rparr>, c)"
proof -
  have i: "app_session_init\<lparr>ses_buf := drop 0 []\<rparr> = app_session_init" by (simp add: app_session_init_def)
  have n: "takes [] c0 \<and> consume [] c0 = (0, c0)" by (rule empty_input [OF assms(1)])
  from read_stream [OF assms(1) n [THEN conjunct1] n [THEN conjunct2], of bs app_session_init, unfolded i, simplified, OF assms(2)] assms(3)
  have r: "takes (concat bs) c0" "fold read_one bs (app_session_init, c0) =
      (app_session_init\<lparr>ses_buf := drop k (concat bs)\<rparr>, c)" by simp_all
  with rest [OF assms(1) r(1) assms(3), of "[]"] show ?thesis by blast
qed

end

lemma process_loop_shift:
  "process_loop n E data (c + d) st = (let (bad, k, st') = process_loop n E data d st in (bad, c + k, st'))"
  by (induction n arbitrary: data d st)
    (simp_all add: add.assoc del: ClientImpl_dispatch.simps split: read_status.split frame_result.split)

text \<open>The messages of the client's input: what it has consumed, and whether the input was malformed.\<close>

definition handle_input :: "env \<Rightarrow> bytes \<Rightarrow> client \<Rightarrow> nat \<times> client" where
  "handle_input E data st = snd (process_loop (length data + 1) E data 0 st)"

definition wellformed_input :: "env \<Rightarrow> bytes \<Rightarrow> client \<Rightarrow> bool" where
  "wellformed_input E data st \<longleftrightarrow> \<not> fst (process_loop (length data + 1) E data 0 st)"

interpretation input: stream_consumer "codec_ok E \<and> delimited E" "wellformed_input E" "handle_input E"
proof
  fix a b c k c1
  assume v: "codec_ok E \<and> delimited E" and "wellformed_input E a c" "handle_input E a c = (k, c1)"
  then have p: "process_loop (length a + 1) E a 0 c = (False, k, c1)"
    by (auto simp: wellformed_input_def handle_input_def prod_eq_iff)
  have app: "k \<le> length a" "process_loop (length (a @ b) + 1) E (a @ b) 0 c =
      process_loop (length (a @ b) + 1) E (drop k a @ b) k c1"
    using process_loop_append [OF _ _ _ p, of b "length (a @ b) + 1"] v by (simp_all del: process_loop.simps)
  have "process_loop (length (a @ b) + 1) E (drop k a @ b) k c1 = process_loop (length (drop k a @ b) + 1) E (drop k a @ b) (k + 0) c1"
    using v process_loop_fuel [of E "drop k a @ b" "length (a @ b) + 1" "length (drop k a @ b) + 1" k c1] by (simp del: process_loop.simps)
  then show "k \<le> length a \<and> wellformed_input E (a @ b) c = wellformed_input E (drop k a @ b) c1 \<and>
      handle_input E (a @ b) c = (k + fst (handle_input E (drop k a @ b) c1), snd (handle_input E (drop k a @ b) c1))"
    using app process_loop_shift [of "length (drop k a @ b) + 1" E "drop k a @ b" k 0 c1]
    by (simp add: wellformed_input_def handle_input_def Let_def split_def del: process_loop.simps)
qed (simp add: wellformed_input_def handle_input_def)

text \<open>
  C15. Bytes read from the network reach the client as one stream, whatever the portions in which the
  socket delivers them. When no portion is malformed input, the session hands the client every byte
  once and in order: afterwards the client is as if all bytes had been given to it at once, and the
  session keeps exactly those that are not consumed. This holds for plain and for secured connections.
\<close>

theorem session_delivers_stream:
  assumes "codec_ok E" "delimited E" "portions_ok (wellformed_input E) (handle_input E) [] portions st"
    "process_loop (length (concat portions) + 1) E (concat portions) 0 st = (bad, consumed, st')"
    "onRead = TcpSession_onRead \<or> onRead = TlsSession_onRead"
  shows "consumed \<le> length (concat portions) \<and>
    fold (\<lambda>b sc. snd (onRead (report_to (handle_input E)) id IO_Success b sc)) portions (app_session_init, st) =
      (\<lparr>ses_buf = drop consumed (concat portions), ses_networkDisconnected = False\<rparr>, st')"
proof -
  have on: "onRead = TcpSession_onRead" using assms(5) by (auto simp: Tls_as_Tcp)
  have "handle_input E (concat portions) st = (consumed, st')" using assms(4) by (simp add: handle_input_def del: process_loop.simps)
  from input.stream_delivered [OF conjI [OF assms(1,2)] assms(3) this]
  show ?thesis by (simp add: on app_session_init_def flip: input.read_one_def)
qed

theorem session_delivers_stream_witness:
  "fold (\<lambda>b sc. snd (TlsSession_onRead (report_to (handle_input demo_env)) id IO_Success b sc)) [[0x40, 2], [0, 1]]
     (app_session_init, demo_session_st) = (app_session_init, ClientImpl_dispatch demo_env (MPuback 1) demo_session_st)"
proof -
  let ?st = "ClientImpl_dispatch demo_env (MPuback 1) demo_session_st"
  have f: "frame_read demo_env [0x40, 2] = FR_NotEnoughData" "frame_read demo_env [0x40, 2, 0, 1] = FR_Msg (MPuback 1) 4"
    "size_read demo_env [2] = RS_Success" "size_read demo_env [2, 0, 1] = RS_Success" "idAndFlags_len demo_env = 1"
    by (simp_all add: demo_env_def rd16_def)
  then have p: "process_loop (Suc (Suc (Suc 0))) demo_env [0x40, 2] 0 demo_session_st = (False, 0, demo_session_st)"
    "process_loop (Suc (Suc (Suc (Suc (Suc 0))))) demo_env [0x40, 2, 0, 1] 0 demo_session_st = (False, 4, ?st)"
    by (simp_all del: ClientImpl_dispatch.simps)
  have "portions_ok (wellformed_input demo_env) (handle_input demo_env) [] [[0x40, 2], [0, 1]] demo_session_st"
    using p by (simp add: wellformed_input_def handle_input_def del: process_loop.simps ClientImpl_dispatch.simps)
  from session_delivers_stream [OF codec_ok_demo delimited_demo this, of False 4 ?st TlsSession_onRead] p(2)
  show ?thesis by (simp add: app_session_init_def del: process_loop.simps ClientImpl_dispatch.simps)
qed

end
