(* ===== verification/App_Options.thy ===== *)
theory App_Options
  imports App_Session
begin

text \<open>
  The command line options of the example applications, \<open>app/common/ProgramOptions.cpp\<close>. The parser of
  \<open>boost::program_options\<close> is an argument; what is relied on is that the variables it stores have the
  types and the defaults of the descriptions. A getter that asks for a variable that is missing or of
  another type throws, which is \<open>None\<close>.
\<close>

section \<open>Descriptions\<close>

datatype opt_val = VFlag | VString string | VUnsigned u32 | VUint16 u16 | VBool bool
  | VStrings "string list" | VUnsigneds "u32 list"

text \<open>The kinds of options: no value, a value with a default, a value without one.\<close>

datatype opt_kind = Flag | Default opt_val | NoDefault opt_val

text \<open>Long name, short name, kind; the texts of the help message are left out.\<close>

type_synonym opt_desc = "string \<times> char option \<times> opt_kind"

definition addCommon :: "opt_desc list" where
  "addCommon = [(''help'', Some CHR ''h'', Flag), (''verbose'', Some CHR ''v'', Flag)]"

definition addConnect :: "opt_desc list" where
  "addConnect = [
     (''client-id'', Some CHR ''i'', Default (VString [])),
     (''username'', None, Default (VString [])),
     (''password'', None, Default (VString [])),
     (''keep-alive'', None, Default (VUnsigned 60)),
     (''will-topic'', None, Default (VString [])),
     (''will-msg'', None, Default (VString [])),
     (''will-qos'', None, Default (VUnsigned 0)),
     (''will-retain'', None, Flag)]"

definition DefaultPort :: u16 where "DefaultPort = 1883"

definition addNetwork :: "u16 \<Rightarrow> opt_desc list" where
  "addNetwork port = [
     (''broker'', Some CHR ''b'', Default (VString ''127.0.0.1'')),
     (''port'', Some CHR ''p'', Default (VUint16 port))]"

definition addTls :: "bool \<Rightarrow> opt_desc list" where
  "addTls has_openssl = (if has_openssl then [
     (''tls'', None, Flag),
     (''tls-ca'', None, Default (VString [])),
     (''tls-key'', None, Default (VString [])),
     (''tls-key-pass'', None, Default (VString [])),
     (''tls-cert'', None, Default (VString []))] else [])"

definition addPublish :: "opt_desc list" where
  "addPublish = [
     (''pub-topic'', Some CHR ''t'', Default (VString [])),
     (''pub-msg'', Some CHR ''m'', Default (VString [])),
     (''pub-qos'', Some CHR ''q'', Default (VUnsigned 0)),
     (''pub-retain'', None, Default (VBool False))]"

definition addSubscribe :: "opt_desc list" where
  "addSubscribe = [
     (''sub-topic'', Some CHR ''t'', NoDefault (VStrings [])),
     (''sub-qos'', Some CHR ''q'', NoDefault (VUnsigneds [])),
     (''sub-no-retained'', None, Flag),
     (''sub-binary'', None, Flag)]"

text \<open>The options of the two applications, as their constructors collect them.\<close>

definition Pub_options :: "bool \<Rightarrow> opt_desc list" where
  "Pub_options ssl = addCommon @ addNetwork DefaultPort @ addTls ssl @ addConnect @ addPublish"

definition Sub_options :: "bool \<Rightarrow> opt_desc list" where
  "Sub_options ssl = addCommon @ addNetwork DefaultPort @ addTls ssl @ addConnect @ addSubscribe"

section \<open>Variables\<close>

type_synonym opt_vars = "string \<rightharpoonup> opt_val"

fun same_type :: "opt_val \<Rightarrow> opt_val \<Rightarrow> bool" where
  "same_type VFlag VFlag = True"
| "same_type (VString _) (VString _) = True"
| "same_type (VUnsigned _) (VUnsigned _) = True"
| "same_type (VUint16 _) (VUint16 _) = True"
| "same_type (VBool _) (VBool _) = True"
| "same_type (VStrings _) (VStrings _) = True"
| "same_type (VUnsigneds _) (VUnsigneds _) = True"
| "same_type _ _ = False"

text \<open>What the parser promises of the variables of one option and of all options.\<close>

fun conforms_kind :: "opt_kind \<Rightarrow> opt_val option \<Rightarrow> bool" where
  "conforms_kind Flag v = (v = None \<or> v = Some VFlag)"
| "conforms_kind (Default d) v = (case v of None \<Rightarrow> False | Some x \<Rightarrow> same_type d x)"
| "conforms_kind (NoDefault d) v = (case v of None \<Rightarrow> True | Some x \<Rightarrow> same_type d x)"

definition conforms :: "opt_desc list \<Rightarrow> opt_vars \<Rightarrow> bool" where
  "conforms desc vm \<longleftrightarrow> list_all (\<lambda>(name, _, kind). conforms_kind kind (vm name)) desc"

text \<open>The variables of a command line with no arguments.\<close>

fun default_of :: "opt_kind \<Rightarrow> opt_val option" where
  "default_of (Default v) = Some v"
| "default_of _ = None"

definition default_vars :: "opt_desc list \<Rightarrow> opt_vars" where
  "default_vars desc name = (case map_of desc name of None \<Rightarrow> None | Some (_, kind) \<Rightarrow> default_of kind)"

text \<open>\<open>parseArgs\<close>: the parser throws or stores the variables.\<close>

definition parseArgs :: "(opt_desc list \<Rightarrow> string list \<Rightarrow> opt_vars option) \<Rightarrow> opt_desc list \<Rightarrow> string list \<Rightarrow> (bool \<times> opt_vars) option" where
  "parseArgs parser desc argv = (case parser desc argv of None \<Rightarrow> None | Some vm \<Rightarrow> Some (True, vm))"

section \<open>Getters\<close>

definition given :: "string \<Rightarrow> opt_vars \<Rightarrow> bool" where
  "given name vm = (vm name \<noteq> None)"

definition as_string :: "string \<Rightarrow> opt_vars \<Rightarrow> string option" where
  "as_string name vm = (case vm name of Some (VString s) \<Rightarrow> Some s | _ \<Rightarrow> None)"

definition as_unsigned :: "string \<Rightarrow> opt_vars \<Rightarrow> u32 option" where
  "as_unsigned name vm = (case vm name of Some (VUnsigned n) \<Rightarrow> Some n | _ \<Rightarrow> None)"

definition helpRequested :: "opt_vars \<Rightarrow> bool" where "helpRequested vm = given ''help'' vm"

definition verbose :: "opt_vars \<Rightarrow> bool" where "verbose vm = given ''verbose'' vm"

definition isTls :: "bool \<Rightarrow> opt_vars \<Rightarrow> bool" where
  "isTls has_openssl vm = (if has_openssl then given ''tls'' vm else False)"

definition connectionType :: "bool \<Rightarrow> opt_vars \<Rightarrow> ConnectionType" where
  "connectionType has_openssl vm = (if has_openssl \<and> isTls has_openssl vm then ConnectionType_Tls else ConnectionType_Tcp)"

definition networkAddress :: "opt_vars \<Rightarrow> string option" where "networkAddress vm = as_string ''broker'' vm"

definition networkPort :: "opt_vars \<Rightarrow> u16 option" where
  "networkPort vm = (case vm ''port'' of Some (VUint16 n) \<Rightarrow> Some n | _ \<Rightarrow> None)"

definition tlsCa :: "bool \<Rightarrow> opt_vars \<Rightarrow> string option" where
  "tlsCa has_openssl vm = (if has_openssl then as_string ''tls-ca'' vm else Some [])"

definition tlsPrivateKey :: "bool \<Rightarrow> opt_vars \<Rightarrow> string option" where
  "tlsPrivateKey has_openssl vm = (if has_openssl then as_string ''tls-key'' vm else Some [])"

definition tlsPrivateKeyPass :: "bool \<Rightarrow> opt_vars \<Rightarrow> string option" where
  "tlsPrivateKeyPass has_openssl vm = (if has_openssl then as_string ''tls-key-pass'' vm else Some [])"

definition tlsCert :: "bool \<Rightarrow> opt_vars \<Rightarrow> string option" where
  "tlsCert has_openssl vm = (if has_openssl then as_string ''tls-cert'' vm else Some [])"

definition opt_clientId :: "opt_vars \<Rightarrow> string option" where "opt_clientId vm = as_string ''client-id'' vm"
definition opt_username :: "opt_vars \<Rightarrow> string option" where "opt_username vm = as_string ''username'' vm"
definition opt_password :: "opt_vars \<Rightarrow> string option" where "opt_password vm = as_string ''password'' vm"
definition opt_keepAlive :: "opt_vars \<Rightarrow> u32 option" where "opt_keepAlive vm = as_unsigned ''keep-alive'' vm"
definition willTopic :: "opt_vars \<Rightarrow> string option" where "willTopic vm = as_string ''will-topic'' vm"
definition willMessage :: "opt_vars \<Rightarrow> string option" where "willMessage vm = as_string ''will-msg'' vm"
definition willQos :: "opt_vars \<Rightarrow> u32 option" where "willQos vm = as_unsigned ''will-qos'' vm"
definition willRetain :: "opt_vars \<Rightarrow> bool" where "willRetain vm = given ''will-retain'' vm"
definition pubTopic :: "opt_vars \<Rightarrow> string option" where "pubTopic vm = as_string ''pub-topic'' vm"
definition pubMessage :: "opt_vars \<Rightarrow> string option" where "pubMessage vm = as_string ''pub-msg'' vm"
definition pubQos :: "opt_vars \<Rightarrow> u32 option" where "pubQos vm = as_unsigned ''pub-qos'' vm"

definition pubRetain :: "opt_vars \<Rightarrow> bool option" where
  "pubRetain vm = (case vm ''pub-retain'' of Some (VBool b) \<Rightarrow> Some b | _ \<Rightarrow> None)"

definition stringListOpts :: "string \<Rightarrow> opt_vars \<Rightarrow> string list option" where
  "stringListOpts name vm = (if given name vm then (case vm name of Some (VStrings ss) \<Rightarrow> Some ss | _ \<Rightarrow> None) else Some [])"

definition subTopics :: "opt_vars \<Rightarrow> string list option" where "subTopics vm = stringListOpts ''sub-topic'' vm"

definition subQoses :: "opt_vars \<Rightarrow> u32 list option" where
  "subQoses vm = (if given ''sub-qos'' vm then (case vm ''sub-qos'' of Some (VUnsigneds ns) \<Rightarrow> Some ns | _ \<Rightarrow> None) else Some [])"

definition subNoRetained :: "opt_vars \<Rightarrow> bool" where "subNoRetained vm = given ''sub-no-retained'' vm"
definition subBinary :: "opt_vars \<Rightarrow> bool" where "subBinary vm = given ''sub-binary'' vm"

section \<open>The getters fit the descriptions\<close>

fun_cases same_type_elims: "same_type (VString a) x" "same_type (VUnsigned b) x" "same_type (VUint16 c) x"
  "same_type (VBool d) x" "same_type (VStrings e) x" "same_type (VUnsigneds f) x"

lemma conformsD:
  assumes "conforms desc vm" "(name, sh, kind) \<in> set desc"
  shows "conforms_kind kind (vm name)"
  using assms by (auto simp: conforms_def list_all_iff)

lemma conforms_string: "conforms_kind (Default (VString d)) (vm name) \<Longrightarrow> \<exists>s. as_string name vm = Some s"
  by (auto simp: as_string_def split: option.splits elim: same_type_elims)

lemma conforms_unsigned: "conforms_kind (Default (VUnsigned d)) (vm name) \<Longrightarrow> \<exists>n. as_unsigned name vm = Some n"
  by (auto simp: as_unsigned_def split: option.splits elim: same_type_elims)

lemmas common_options = addCommon_def addNetwork_def addTls_def addConnect_def

lemma connect_getters:
  assumes "conforms desc vm" "set (addCommon @ addNetwork port @ addTls ssl @ addConnect) \<subseteq> set desc"
  shows "networkAddress vm \<noteq> None" "networkPort vm \<noteq> None" "tlsCa ssl vm \<noteq> None" "tlsPrivateKey ssl vm \<noteq> None"
    "tlsPrivateKeyPass ssl vm \<noteq> None" "tlsCert ssl vm \<noteq> None" "opt_clientId vm \<noteq> None" "opt_username vm \<noteq> None"
    "opt_password vm \<noteq> None" "opt_keepAlive vm \<noteq> None" "willTopic vm \<noteq> None" "willMessage vm \<noteq> None" "willQos vm \<noteq> None"
proof -
  note c = conformsD [OF assms(1)]
  have m: "x \<in> set (addCommon @ addNetwork port @ addTls ssl @ addConnect) \<Longrightarrow> x \<in> set desc" for x
    using assms(2) by blast
  have s: "(name, sh, Default (VString d)) \<in> set (addCommon @ addNetwork port @ addTls ssl @ addConnect) \<Longrightarrow>
      as_string name vm \<noteq> None" for name sh d
    using conforms_string [OF c [OF m]] by force
  have u: "(name, sh, Default (VUnsigned d)) \<in> set (addCommon @ addNetwork port @ addTls ssl @ addConnect) \<Longrightarrow>
      as_unsigned name vm \<noteq> None" for name sh d
    using conforms_unsigned [OF c [OF m]] by force
  show "networkAddress vm \<noteq> None" "tlsCa ssl vm \<noteq> None" "tlsPrivateKey ssl vm \<noteq> None"
    "tlsPrivateKeyPass ssl vm \<noteq> None" "tlsCert ssl vm \<noteq> None" "opt_clientId vm \<noteq> None" "opt_username vm \<noteq> None"
    "opt_password vm \<noteq> None" "willTopic vm \<noteq> None" "willMessage vm \<noteq> None"
    unfolding networkAddress_def tlsCa_def tlsPrivateKey_def tlsPrivateKeyPass_def tlsCert_def opt_clientId_def
      opt_username_def opt_password_def willTopic_def willMessage_def
    using s by (auto simp: common_options split: if_splits)
  show "opt_keepAlive vm \<noteq> None" "willQos vm \<noteq> None"
    unfolding opt_keepAlive_def willQos_def using u by (auto simp: common_options)
  have "conforms_kind (Default (VUint16 port)) (vm ''port'')" by (rule c, rule m) (simp add: common_options)
  then show "networkPort vm \<noteq> None" by (auto simp: networkPort_def split: option.splits elim: same_type_elims)
qed

lemma publish_getters:
  assumes "conforms desc vm" "set addPublish \<subseteq> set desc"
  shows "pubTopic vm \<noteq> None" "pubMessage vm \<noteq> None" "pubQos vm \<noteq> None" "pubRetain vm \<noteq> None"
proof -
  note c = conformsD [OF assms(1) subsetD [OF assms(2)]]
  have "conforms_kind (Default (VString [])) (vm ''pub-topic'')" "conforms_kind (Default (VString [])) (vm ''pub-msg'')"
    "conforms_kind (Default (VUnsigned 0)) (vm ''pub-qos'')" "conforms_kind (Default (VBool False)) (vm ''pub-retain'')"
    by (rule c, simp add: addPublish_def)+
  note k = conforms_string [where vm = vm, OF this(1)] conforms_string [where vm = vm, OF this(2)]
    conforms_unsigned [where vm = vm, OF this(3)] this(4)
  show "pubTopic vm \<noteq> None" "pubMessage vm \<noteq> None" "pubQos vm \<noteq> None" "pubRetain vm \<noteq> None"
    using k by (auto simp: pubTopic_def pubMessage_def pubQos_def pubRetain_def split: option.splits elim: same_type_elims)
qed

lemma subscribe_getters:
  assumes "conforms desc vm" "set addSubscribe \<subseteq> set desc"
  shows "subTopics vm \<noteq> None" "subQoses vm \<noteq> None"
proof -
  note c = conformsD [OF assms(1) subsetD [OF assms(2)]]
  have "conforms_kind (NoDefault (VStrings [])) (vm ''sub-topic'')" "conforms_kind (NoDefault (VUnsigneds [])) (vm ''sub-qos'')"
    by (rule c, simp add: addSubscribe_def)+
  then show "subTopics vm \<noteq> None" "subQoses vm \<noteq> None"
    by (auto simp: subTopics_def stringListOpts_def subQoses_def given_def split: option.splits elim: same_type_elims)
qed

text \<open>
  C34. The options fit their use. In both applications, with and without TLS, the long and the short names
  of the options are different from each other, and for all variables that conform to the descriptions no
  getter the application calls throws: each variable exists whenever it is asked for, with the
  type that is asked for.
\<close>

theorem options_well_typed:
  assumes "desc = Pub_options ssl \<or> desc = Sub_options ssl" "conforms desc vm"
  shows "distinct (map fst desc) \<and> distinct (List.map_filter (\<lambda>(_, sh, _). sh) desc) \<and>
    networkAddress vm \<noteq> None \<and> networkPort vm \<noteq> None \<and> tlsCa ssl vm \<noteq> None \<and> tlsPrivateKey ssl vm \<noteq> None \<and>
    tlsPrivateKeyPass ssl vm \<noteq> None \<and> tlsCert ssl vm \<noteq> None \<and> opt_clientId vm \<noteq> None \<and> opt_username vm \<noteq> None \<and>
    opt_password vm \<noteq> None \<and> opt_keepAlive vm \<noteq> None \<and> willTopic vm \<noteq> None \<and> willMessage vm \<noteq> None \<and> willQos vm \<noteq> None \<and>
    (desc = Pub_options ssl \<longrightarrow> pubTopic vm \<noteq> None \<and> pubMessage vm \<noteq> None \<and> pubQos vm \<noteq> None \<and> pubRetain vm \<noteq> None) \<and>
    (desc = Sub_options ssl \<longrightarrow> subTopics vm \<noteq> None \<and> subQoses vm \<noteq> None)"
proof -
  have "set (addCommon @ addNetwork DefaultPort @ addTls ssl @ addConnect) \<subseteq> set desc"
    using assms(1) by (auto simp: Pub_options_def Sub_options_def)
  note c = connect_getters [OF assms(2) this]
  have p: "desc = Pub_options ssl \<Longrightarrow> set addPublish \<subseteq> set desc" and s: "desc = Sub_options ssl \<Longrightarrow> set addSubscribe \<subseteq> set desc"
    by (auto simp: Pub_options_def Sub_options_def)
  have "distinct (map fst desc)" "distinct (List.map_filter (\<lambda>(_, sh, _). sh) desc)"
    using assms(1) by (auto simp: Pub_options_def Sub_options_def common_options addPublish_def addSubscribe_def
        List.map_filter_simps)
  with c publish_getters [OF assms(2) p] subscribe_getters [OF assms(2) s] show ?thesis by simp
qed

theorem options_well_typed_witness:
  "conforms (Sub_options True) (default_vars (Sub_options True)) \<and> subTopics (default_vars (Sub_options True)) \<noteq> None \<and>
   opt_keepAlive (default_vars (Sub_options True)) \<noteq> None"
proof -
  have c: "conforms (Sub_options True) (default_vars (Sub_options True))"
    by (simp add: conforms_def default_vars_def Sub_options_def common_options addSubscribe_def)
  from options_well_typed [OF disjI2 [OF refl] c] c show ?thesis by simp
qed

end
