(* ===== verification/App_Text.thy ===== *)
theory App_Text
  imports Client_Types
begin

text \<open>
  The texts of the example applications, \<open>app/common/AppClient.cpp\<close>: the names of codes, the dump of
  binary data, and the parser of data on the command line with its escapes.
\<close>

section \<open>Numbers\<close>

definition digit_char :: "nat \<Rightarrow> char" where
  "digit_char n = (if n < 10 then char_of (48 + n) else char_of (87 + n))"

text \<open>\<open>std::to_string\<close>.\<close>

fun to_string :: "nat \<Rightarrow> string" where
  "to_string n = (if n < 10 then [digit_char n] else to_string (n div 10) @ [digit_char (n mod 10)])"

declare to_string.simps [simp del]

text \<open>A byte with \<open>std::hex\<close>, \<open>setw(2)\<close> and \<open>setfill('0')\<close>.\<close>

definition hex_byte :: "u8 \<Rightarrow> string" where
  "hex_byte b = [digit_char (unat b div 16), digit_char (unat b mod 16)]"

section \<open>The names of codes\<close>

text \<open>The look-up the functions \<open>toString\<close> have in common; the tables are indexed by the code.\<close>

definition name_of :: "string list \<Rightarrow> nat \<Rightarrow> string" where
  "name_of tab val = (if length tab \<le> val then to_string val
     else tab ! val @ '' ('' @ to_string val @ '')'')"

definition toString_QoS :: "nat \<Rightarrow> string" where
  "toString_QoS = name_of [''QoS0 - At Most Once Delivery'', ''QoS1 - At Least Once Delivery'', ''QoS2 - Exactly Once Delivery'']"

definition toString_ErrorCode :: "nat \<Rightarrow> string" where
  "toString_ErrorCode = name_of [''Success'', ''Internal Error'', ''Not Intitialized'', ''Busy'', ''Not Connected'',
     ''Already Connected'', ''Bad Param'', ''Insufficient Config'', ''Out Of Memory'', ''Buffer Overflow'', ''Not Supported'',
     ''Retry Later'', ''Disconnecting'', ''Network Disconnected'', ''Preparation Locked'']"

definition toString_AsyncOpStatus :: "nat \<Rightarrow> string" where
  "toString_AsyncOpStatus = name_of [''Complete'', ''Internal Error'', ''Timeout'', ''Protocol Error'', ''Aborted'',
     ''Broker Disconnected'', ''Out Of Memory'', ''Bad Param'']"

definition toString_ConnectReturnCode :: "nat \<Rightarrow> string" where
  "toString_ConnectReturnCode = name_of [''Accepted'', ''Invalid ProtocolVersion'', ''Id Rejected'', ''Server Unavailable'',
     ''Bad Auth'', ''Not Authorized'']"

definition toString_SubscribeReturnCode :: "nat \<Rightarrow> string" where
  "toString_SubscribeReturnCode val =
     (case map_of [(0, ''Success - Qos0''), (1, ''Success - Qos1''), (2, ''Success - Qos2''), (128, ''Failure'')] val of
        None \<Rightarrow> to_string val
      | Some s \<Rightarrow> s @ '' ('' @ to_string val @ '')'')"

section \<open>The dump of data\<close>

text \<open>\<open>std::isprint\<close> in the C locale.\<close>

definition isprint :: "u8 \<Rightarrow> bool" where
  "isprint b \<longleftrightarrow> 32 \<le> b \<and> b \<le> 126"

definition byte_char :: "u8 \<Rightarrow> char" where
  "byte_char b = char_of (unat b)"

definition char_byte :: "char \<Rightarrow> u8" where
  "char_byte c = of_nat (of_char c)"

definition toString_data :: "u8 list \<Rightarrow> bool \<Rightarrow> string" where
  "toString_data data forceBinary =
     (let binary = (forceBinary \<or> list_ex (\<lambda>byte. \<not> isprint byte \<or> 126 < byte) data)
      in if \<not> binary then map byte_char data else concat (map (\<lambda>b. hex_byte b @ '' '') data))"

section \<open>Data with escapes\<close>

text \<open>
  \<open>std::stoul(s, nullptr, 16)\<close> converted to a byte: leading white space, a sign, a prefix, then as many
  digits as there are; without a digit it throws. It is only called on two characters, so that the value is in
  range, and a C string ends at a null character.
\<close>

definition isspace :: "char \<Rightarrow> bool" where
  "isspace c \<longleftrightarrow> c = CHR '' '' \<or> of_char c \<in> {9 .. 13 :: nat}"

definition hex_val :: "char \<Rightarrow> nat option" where
  "hex_val c = (let n = of_char c :: nat in
     if 48 \<le> n \<and> n \<le> 57 then Some (n - 48) else if 97 \<le> n \<and> n \<le> 102 then Some (n - 87)
     else if 65 \<le> n \<and> n \<le> 70 then Some (n - 55) else None)"

fun hex_digits :: "nat \<Rightarrow> string \<Rightarrow> nat" where
  "hex_digits acc [] = acc"
| "hex_digits acc (c # cs) = (case hex_val c of None \<Rightarrow> acc | Some d \<Rightarrow> hex_digits (16 * acc + d) cs)"

definition stoul16 :: "string \<Rightarrow> u8 option" where
  "stoul16 s =
     (let s1 = dropWhile isspace (takeWhile (\<lambda>c. c \<noteq> CHR 0x00) s);
          neg = (s1 \<noteq> [] \<and> hd s1 = CHR ''-'');
          s2 = (if s1 \<noteq> [] \<and> (hd s1 = CHR ''-'' \<or> hd s1 = CHR ''+'') then tl s1 else s1);
          s3 = (case s2 of z # x # d # r \<Rightarrow>
                  if z = CHR ''0'' \<and> (x = CHR ''x'' \<or> x = CHR ''X'') \<and> hex_val d \<noteq> None then d # r else s2
                | _ \<Rightarrow> s2)
      in if s3 = [] \<or> hex_val (hd s3) = None then None
         else let v = of_nat (hex_digits 0 s3) in Some (if neg then - v else v))"

text \<open>\<open>parseBinaryData\<close>; the position in the source is the rest of the text here.\<close>

definition Backslash :: char where "Backslash = CHR 0x5C"

function parseBinaryData :: "string \<Rightarrow> u8 list" where
  "parseBinaryData val =
     (case val of
        [] \<Rightarrow> []
      | ch # rest \<Rightarrow>
          let addChar = char_byte ch # parseBinaryData rest in
          if ch \<noteq> Backslash then addChar
          else case rest of
            [] \<Rightarrow> addChar
          | nextChar # rest2 \<Rightarrow>
              if nextChar = Backslash then char_byte ch # parseBinaryData rest2
              else if nextChar \<noteq> CHR ''x'' then addChar
              else if length rest2 < 2 then addChar
              else case stoul16 (take 2 rest2) of
                None \<Rightarrow> addChar
              | Some byte \<Rightarrow> byte # parseBinaryData (drop 2 rest2))"
  by pat_completeness auto
termination by (relation "measure length") auto

declare parseBinaryData.simps [simp del]

lemma parse_Nil [simp]: "parseBinaryData [] = []"
  by (simp add: parseBinaryData.simps)

lemma parse_plain: "ch \<noteq> Backslash \<Longrightarrow> parseBinaryData (ch # rest) = char_byte ch # parseBinaryData rest"
  by (subst parseBinaryData.simps) simp

lemma parse_hex:
  "stoul16 [a, b] = Some v \<Longrightarrow> parseBinaryData (Backslash # CHR ''x'' # a # b # rest) = v # parseBinaryData rest"
  by (subst parseBinaryData.simps) (simp add: Backslash_def)

lemma parse_quoted: "parseBinaryData (Backslash # Backslash # rest) = char_byte Backslash # parseBinaryData rest"
  by (subst parseBinaryData.simps) simp

section \<open>Quoting and parsing\<close>

lemma hex_val_digit: "n < 16 \<Longrightarrow> hex_val (digit_char n) = Some n"
  by (auto simp: hex_val_def digit_char_def Let_def)

lemma digit_char_plain:
  assumes "n < 16"
  shows "digit_char n \<noteq> CHR 0x00" "digit_char n \<noteq> CHR ''-''" "digit_char n \<noteq> CHR ''+''" "\<not> isspace (digit_char n)"
proof -
  have "list_all (\<lambda>n. digit_char n \<noteq> CHR 0x00 \<and> digit_char n \<noteq> CHR ''-'' \<and> digit_char n \<noteq> CHR ''+'' \<and>
      \<not> isspace (digit_char n)) [0..<16]" by code_simp
  then show "digit_char n \<noteq> CHR 0x00" "digit_char n \<noteq> CHR ''-''" "digit_char n \<noteq> CHR ''+''" "\<not> isspace (digit_char n)"
    using assms by (auto simp: list_all_iff)
qed

text \<open>Reading what \<open>hex_byte\<close> prints.\<close>

lemma stoul16_hex_byte: "stoul16 (hex_byte b) = Some b"
proof -
  have "unat b < 256" using unsigned_less [of b] by simp
  then have b: "unat b div 16 < 16" "unat b mod 16 < 16" by (simp_all add: less_mult_imp_div_less)
  note d = digit_char_plain [OF b(1)] digit_char_plain [OF b(2)] hex_val_digit [OF b(1)] hex_val_digit [OF b(2)]
  have "16 * (unat b div 16) + unat b mod 16 = unat b" by (rule mult_div_mod_eq)
  then show ?thesis using d by (simp add: stoul16_def hex_byte_def Let_def)
qed

lemma char_byte_char [simp]: "char_byte (byte_char b) = b"
proof -
  have "unat b < 256" using unsigned_less [of b] by simp
  then show ?thesis by (simp add: char_byte_def byte_char_def)
qed

text \<open>A text for any data: printable bytes but the backslash as they are, the others in hexadecimal.\<close>

definition quote_byte :: "u8 \<Rightarrow> string" where
  "quote_byte b = (if isprint b \<and> byte_char b \<noteq> Backslash then [byte_char b] else Backslash # CHR ''x'' # hex_byte b)"

text \<open>
  C30. Every message can be given on the command line. Parsing the text in which the bytes that are not
  printable, and the backslash, are written as escapes with two hexadecimal digits gives the bytes
  back. A text without backslashes is taken as it is, a doubled backslash stands for one,
  and no text gives more bytes than it has characters.
\<close>

theorem parseBinaryData_quoted:
  "parseBinaryData (concat (map quote_byte data)) = data \<and>
   (Backslash \<notin> set val \<longrightarrow> parseBinaryData val = map char_byte val) \<and>
   parseBinaryData (concat (map (\<lambda>c. if c = Backslash then [c, c] else [c]) val)) = map char_byte val \<and>
   length (parseBinaryData val) \<le> length val"
proof -
  have "parseBinaryData (concat (map quote_byte data)) = data"
  proof (induction data)
    case (Cons b data)
    show ?case
      using Cons stoul16_hex_byte [of b] by (simp add: quote_byte_def parse_plain hex_byte_def parse_hex)
  qed simp
  moreover have "Backslash \<notin> set val \<Longrightarrow> parseBinaryData val = map char_byte val"
    by (induction val) (auto simp: parse_plain)
  moreover have "parseBinaryData (concat (map (\<lambda>c. if c = Backslash then [c, c] else [c]) val)) = map char_byte val"
    by (induction val) (simp_all add: parse_plain parse_quoted)
  moreover have "length (parseBinaryData val) \<le> length val"
  proof (induction val rule: parseBinaryData.induct)
    case (1 val0)
    then show ?case by (subst parseBinaryData.simps) (force simp: Let_def split: list.split option.split)
  qed
  ultimately show ?thesis by blast
qed

theorem parseBinaryData_quoted_witness:
  "parseBinaryData ''plain'' = map char_byte ''plain'' \<and> parseBinaryData (concat (map quote_byte [65, 92, 0])) = [65, 92, 0]"
  using parseBinaryData_quoted [of "[65, 92, 0]" "''plain''"] by (simp add: Backslash_def)

text \<open>
  A malformed escape is not always taken as it is: the conversion accepts a blank or a sign in front of one digit,
  and one digit in front of any character.
\<close>

theorem malformed_escapes_accepted:
  "parseBinaryData [Backslash, CHR ''x'', CHR ''1'', CHR ''g''] = [1]"
  "parseBinaryData [Backslash, CHR ''x'', CHR '' '', CHR ''1''] = [1]"
  "parseBinaryData [Backslash, CHR ''x'', CHR ''-'', CHR ''1''] = [255]"
  "parseBinaryData [Backslash, CHR ''x'', CHR ''g'', CHR ''1''] = [92, 120, 103, 49]"
  by code_simp+

end
