(* ===== verification/C_Interface.thy ===== *)
theory C_Interface
  imports Client_Api
begin

text \<open>
  The C interface, \<open>templ/client.cpp.templ\<close>: checks of the handles around the members of the client
  and of the operations, default configurations, and the functions that prepare, configure and send
  an operation in one go.

  A handle of a client is the client itself or null, a handle of an operation is the operation's
  identity or null; null is \<open>None\<close> in both cases.
\<close>

type_synonym client_handle = "client option"

fun on_client :: "'r \<Rightarrow> (client \<Rightarrow> 'r \<times> client) \<Rightarrow> client_handle \<Rightarrow> 'r \<times> client_handle" where
  "on_client bad f None = (bad, None)"
| "on_client bad f (Some st) = (let (r, st') = f st in (r, Some st'))"

fun on_op :: "'r \<Rightarrow> (op_id \<Rightarrow> client \<Rightarrow> 'r \<times> client) \<Rightarrow> op_id option \<Rightarrow> client_handle \<Rightarrow> 'r \<times> client_handle" where
  "on_op bad f None h = (bad, h)"
| "on_op bad f (Some i) h = on_client bad (f i) h"

definition read_client :: "'r \<Rightarrow> (client \<Rightarrow> 'r) \<Rightarrow> client_handle \<Rightarrow> 'r" where
  "read_client bad f h = (case h of None \<Rightarrow> bad | Some st \<Rightarrow> f st)"

section \<open>Configuration of the client\<close>

definition client_set_default_response_timeout :: "u32 \<Rightarrow> client_handle \<Rightarrow> ErrorCode \<times> client_handle" where
  "client_set_default_response_timeout ms = on_client EC_BadParam (set_default_response_timeout ms)"

definition client_get_default_response_timeout :: "client_handle \<Rightarrow> u32" where
  "client_get_default_response_timeout = read_client 0 (\<lambda>st. m_responseTimeoutMs (configState st))"

definition client_set_verify_outgoing_topic_enabled :: "env \<Rightarrow> bool \<Rightarrow> client_handle \<Rightarrow> ErrorCode \<times> client_handle" where
  "client_set_verify_outgoing_topic_enabled E b = on_client EC_BadParam (set_verify_outgoing_topic_enabled E b)"

definition client_set_verify_incoming_topic_enabled :: "env \<Rightarrow> bool \<Rightarrow> client_handle \<Rightarrow> ErrorCode \<times> client_handle" where
  "client_set_verify_incoming_topic_enabled E b = on_client EC_BadParam (set_verify_incoming_topic_enabled E b)"

definition client_set_verify_incoming_msg_subscribed :: "env \<Rightarrow> bool \<Rightarrow> client_handle \<Rightarrow> ErrorCode \<times> client_handle" where
  "client_set_verify_incoming_msg_subscribed E b = on_client EC_BadParam (set_verify_incoming_msg_subscribed E b)"

definition client_get_verify_outgoing_topic_enabled :: "env \<Rightarrow> client \<Rightarrow> bool" where
  "client_get_verify_outgoing_topic_enabled E st =
     (if HasTopicFormatVerification E then m_verifyOutgoingTopic (configState st) else False)"

definition client_get_verify_incoming_topic_enabled :: "env \<Rightarrow> client \<Rightarrow> bool" where
  "client_get_verify_incoming_topic_enabled E st =
     (if HasTopicFormatVerification E then m_verifyIncomingTopic (configState st) else False)"

definition client_get_verify_incoming_msg_subscribed :: "env \<Rightarrow> client \<Rightarrow> bool" where
  "client_get_verify_incoming_msg_subscribed E st =
     (if HasSubTopicVerification E then m_verifySubFilter (configState st) else False)"

text \<open>
  The entry points below do not check the handle (at most by an assertion), so the model takes the client.
\<close>

definition client_tick :: "env \<Rightarrow> u32 \<Rightarrow> client \<Rightarrow> client" where
  "client_tick E ms st = tick E ms st"

definition client_process_data :: "env \<Rightarrow> u32 \<Rightarrow> bytes \<Rightarrow> client \<Rightarrow> nat \<times> client" where
  "client_process_data E elapsed buf st = processData E elapsed buf st"

definition client_notify_network_disconnected :: "env \<Rightarrow> u32 \<Rightarrow> client \<Rightarrow> client" where
  "client_notify_network_disconnected E elapsed st = notifyNetworkDisconnected E elapsed st"

definition client_is_network_disconnected :: "client \<Rightarrow> bool" where
  "client_is_network_disconnected st = isNetworkDisconnected st"

definition client_is_connected :: "client_handle \<Rightarrow> bool" where
  "client_is_connected = read_client False (\<lambda>st. m_connected (sessionState st))"

section \<open>Connect\<close>

definition client_connect_prepare :: "env \<Rightarrow> u32 \<Rightarrow> client_handle \<Rightarrow> (op_id option \<times> ErrorCode) \<times> client_handle" where
  "client_connect_prepare E elapsed = on_client (None, EC_BadParam) (connectPrepare E elapsed)"

definition client_connect_init_config :: ConnectConfig where
  "client_connect_init_config = \<lparr>cc_clientId = None, cc_username = None, cc_password = None,
     cc_passwordLen = 0, cc_keepAlive = 60, cc_cleanSession = False\<rparr>"

definition client_connect_init_config_will :: ConnectWillConfig where
  "client_connect_init_config_will = \<lparr>wc_topic = None, wc_data = None, wc_dataLen = 0, wc_qos = 0, wc_retain = False\<rparr>"

definition client_connect_set_response_timeout :: "u32 \<Rightarrow> op_id option \<Rightarrow> client_handle \<Rightarrow> ErrorCode \<times> client_handle" where
  "client_connect_set_response_timeout ms =
     on_op EC_BadParam (\<lambda>i st. (EC_Success, ConnectOp_setResponseTimeout ms i st))"

definition client_connect_get_response_timeout :: "op_id option \<Rightarrow> client_handle \<Rightarrow> u32 \<times> client_handle" where
  "client_connect_get_response_timeout =
     on_op 0 (\<lambda>i. on_connect_ret i 0 (\<lambda>op st. (con_responseTimeoutMs op, st)))"

definition client_connect_config ::
  "env \<Rightarrow> ConnectConfig option \<Rightarrow> op_id option \<Rightarrow> client_handle \<Rightarrow> ErrorCode \<times> client_handle" where
  "client_connect_config E config op h =
     (case config of None \<Rightarrow> (EC_BadParam, h) | Some c \<Rightarrow> on_op EC_BadParam (ConnectOp_config E c) op h)"

definition client_connect_config_will ::
  "env \<Rightarrow> ConnectWillConfig option \<Rightarrow> op_id option \<Rightarrow> client_handle \<Rightarrow> ErrorCode \<times> client_handle" where
  "client_connect_config_will E config op h =
     (case config of None \<Rightarrow> (EC_BadParam, h) | Some c \<Rightarrow> on_op EC_BadParam (ConnectOp_configWill E c) op h)"

definition client_connect_send ::
  "env \<Rightarrow> u32 \<Rightarrow> app_cb option \<Rightarrow> op_id option \<Rightarrow> client_handle \<Rightarrow> ErrorCode \<times> client_handle" where
  "client_connect_send E elapsed cb = on_op EC_BadParam (ConnectOp_send E elapsed cb)"

definition client_connect_cancel :: "env \<Rightarrow> op_id option \<Rightarrow> client_handle \<Rightarrow> ErrorCode \<times> client_handle" where
  "client_connect_cancel E = on_op EC_BadParam (ConnectOp_cancel E)"

text \<open>
  The scope guard of the functions below: what is prepared is cancelled when the configuration fails.
  The result of the cancellation is ignored.
\<close>

definition or_cancel ::
  "(client_handle \<Rightarrow> ErrorCode \<times> client_handle) \<Rightarrow> ErrorCode \<times> client_handle \<Rightarrow>
     (client_handle \<Rightarrow> ErrorCode \<times> client_handle) \<Rightarrow> ErrorCode \<times> client_handle" where
  "or_cancel cancel res next = (let (ec, h) = res in if ec \<noteq> EC_Success then (ec, snd (cancel h)) else next h)"

text \<open>A configuration that is skipped when the pointer to it is null.\<close>

definition if_given ::
  "('c option \<Rightarrow> client_handle \<Rightarrow> ErrorCode \<times> client_handle) \<Rightarrow> 'c option \<Rightarrow> client_handle \<Rightarrow> ErrorCode \<times> client_handle" where
  "if_given f config h = (if config = None then (EC_Success, h) else f config h)"

text \<open>The time passed is asked for once in \<open>prepare\<close> and once in \<open>send\<close>.\<close>

definition client_connect ::
  "env \<Rightarrow> u32 \<Rightarrow> u32 \<Rightarrow> ConnectConfig option \<Rightarrow> ConnectWillConfig option \<Rightarrow> app_cb option \<Rightarrow> client_handle \<Rightarrow>
     ErrorCode \<times> client_handle" where
  "client_connect E elapsed1 elapsed2 config willConfig cb h =
     (let ((connect, ec), h1) = client_connect_prepare E elapsed1 h in
      if connect = None then (ec, h1)
      else or_cancel (client_connect_cancel E connect)
             (if_given (\<lambda>c. client_connect_config E c connect) config h1) (\<lambda>h2.
           or_cancel (client_connect_cancel E connect)
             (if_given (\<lambda>c. client_connect_config_will E c connect) willConfig h2)
             (client_connect_send E elapsed2 cb connect)))"

section \<open>Disconnect\<close>

definition client_disconnect_prepare :: "env \<Rightarrow> client_handle \<Rightarrow> (op_id option \<times> ErrorCode) \<times> client_handle" where
  "client_disconnect_prepare E = on_client (None, EC_BadParam) (disconnectPrepare E)"

definition client_disconnect_send :: "env \<Rightarrow> u32 \<Rightarrow> op_id option \<Rightarrow> client_handle \<Rightarrow> ErrorCode \<times> client_handle" where
  "client_disconnect_send E elapsed = on_op EC_BadParam (DisconnectOp_send E elapsed)"

definition client_disconnect_cancel :: "env \<Rightarrow> op_id option \<Rightarrow> client_handle \<Rightarrow> ErrorCode \<times> client_handle" where
  "client_disconnect_cancel E = on_op EC_BadParam (DisconnectOp_cancel E)"

definition client_disconnect :: "env \<Rightarrow> u32 \<Rightarrow> client_handle \<Rightarrow> ErrorCode \<times> client_handle" where
  "client_disconnect E elapsed h =
     (let ((disconnect, ec), h1) = client_disconnect_prepare E h in
      if disconnect = None then (ec, h1) else client_disconnect_send E elapsed disconnect h1)"

section \<open>Subscribe\<close>

definition client_subscribe_prepare :: "env \<Rightarrow> client_handle \<Rightarrow> (op_id option \<times> ErrorCode) \<times> client_handle" where
  "client_subscribe_prepare E = on_client (None, EC_BadParam) (subscribePrepare E)"

definition client_subscribe_set_response_timeout :: "u32 \<Rightarrow> op_id option \<Rightarrow> client_handle \<Rightarrow> ErrorCode \<times> client_handle" where
  "client_subscribe_set_response_timeout ms =
     on_op EC_BadParam (\<lambda>i st. (EC_Success, SubscribeOp_setResponseTimeout ms i st))"

definition client_subscribe_get_response_timeout :: "op_id option \<Rightarrow> client_handle \<Rightarrow> u32 \<times> client_handle" where
  "client_subscribe_get_response_timeout =
     on_op 0 (\<lambda>i. on_subscribe_ret i 0 (\<lambda>op st. (sub_responseTimeoutMs op, st)))"

definition client_subscribe_init_config_topic :: "env \<Rightarrow> SubscribeTopicConfig" where
  "client_subscribe_init_config_topic E = \<lparr>stc_topic = None, stc_maxQos = MaxQos E\<rparr>"

definition client_subscribe_config_topic ::
  "env \<Rightarrow> SubscribeTopicConfig option \<Rightarrow> op_id option \<Rightarrow> client_handle \<Rightarrow> ErrorCode \<times> client_handle" where
  "client_subscribe_config_topic E config op h =
     (case config of None \<Rightarrow> (EC_BadParam, h) | Some c \<Rightarrow> on_op EC_BadParam (SubscribeOp_configTopic E c) op h)"

definition client_subscribe_send ::
  "env \<Rightarrow> u32 \<Rightarrow> app_cb option \<Rightarrow> op_id option \<Rightarrow> client_handle \<Rightarrow> ErrorCode \<times> client_handle" where
  "client_subscribe_send E elapsed cb = on_op EC_BadParam (SubscribeOp_send E elapsed cb)"

definition client_subscribe_cancel :: "env \<Rightarrow> op_id option \<Rightarrow> client_handle \<Rightarrow> ErrorCode \<times> client_handle" where
  "client_subscribe_cancel E = on_op EC_BadParam (SubscribeOp_cancel E)"

text \<open>The loop over the topics, which the first failure ends.\<close>

fun config_topics ::
  "('c \<Rightarrow> client_handle \<Rightarrow> ErrorCode \<times> client_handle) \<Rightarrow> 'c list \<Rightarrow> client_handle \<Rightarrow> ErrorCode \<times> client_handle" where
  "config_topics f [] h = (EC_Success, h)"
| "config_topics f (c # cs) h = (let (ec, h1) = f c h in if ec \<noteq> EC_Success then (ec, h1) else config_topics f cs h1)"

definition client_subscribe ::
  "env \<Rightarrow> u32 \<Rightarrow> SubscribeTopicConfig list \<Rightarrow> app_cb option \<Rightarrow> client_handle \<Rightarrow> ErrorCode \<times> client_handle" where
  "client_subscribe E elapsed topicConfigs cb h =
     (let ((subscribe, ec), h1) = client_subscribe_prepare E h in
      if subscribe = None then (ec, h1)
      else or_cancel (client_subscribe_cancel E subscribe)
             (config_topics (\<lambda>c. client_subscribe_config_topic E (Some c) subscribe) topicConfigs h1)
             (client_subscribe_send E elapsed cb subscribe))"

section \<open>Unsubscribe\<close>

definition client_unsubscribe_prepare :: "env \<Rightarrow> client_handle \<Rightarrow> (op_id option \<times> ErrorCode) \<times> client_handle" where
  "client_unsubscribe_prepare E = on_client (None, EC_BadParam) (unsubscribePrepare E)"

definition client_unsubscribe_set_response_timeout :: "u32 \<Rightarrow> op_id option \<Rightarrow> client_handle \<Rightarrow> ErrorCode \<times> client_handle" where
  "client_unsubscribe_set_response_timeout ms =
     on_op EC_BadParam (\<lambda>i st. (EC_Success, UnsubscribeOp_setResponseTimeout ms i st))"

definition client_unsubscribe_get_response_timeout :: "op_id option \<Rightarrow> client_handle \<Rightarrow> u32 \<times> client_handle" where
  "client_unsubscribe_get_response_timeout =
     on_op 0 (\<lambda>i. on_unsubscribe_ret i 0 (\<lambda>op st. (unsub_responseTimeoutMs op, st)))"

definition client_unsubscribe_init_config_topic :: UnsubscribeTopicConfig where
  "client_unsubscribe_init_config_topic = \<lparr>utc_topic = None\<rparr>"

definition client_unsubscribe_config_topic ::
  "env \<Rightarrow> UnsubscribeTopicConfig option \<Rightarrow> op_id option \<Rightarrow> client_handle \<Rightarrow> ErrorCode \<times> client_handle" where
  "client_unsubscribe_config_topic E config op h =
     (case config of None \<Rightarrow> (EC_BadParam, h) | Some c \<Rightarrow> on_op EC_BadParam (UnsubscribeOp_configTopic E c) op h)"

definition client_unsubscribe_send ::
  "env \<Rightarrow> u32 \<Rightarrow> app_cb option \<Rightarrow> op_id option \<Rightarrow> client_handle \<Rightarrow> ErrorCode \<times> client_handle" where
  "client_unsubscribe_send E elapsed cb = on_op EC_BadParam (UnsubscribeOp_send E elapsed cb)"

definition client_unsubscribe_cancel :: "env \<Rightarrow> op_id option \<Rightarrow> client_handle \<Rightarrow> ErrorCode \<times> client_handle" where
  "client_unsubscribe_cancel E = on_op EC_BadParam (UnsubscribeOp_cancel E)"

definition client_unsubscribe ::
  "env \<Rightarrow> u32 \<Rightarrow> UnsubscribeTopicConfig list \<Rightarrow> app_cb option \<Rightarrow> client_handle \<Rightarrow> ErrorCode \<times> client_handle" where
  "client_unsubscribe E elapsed topicConfigs cb h =
     (let ((unsubscribe, ec), h1) = client_unsubscribe_prepare E h in
      if unsubscribe = None then (ec, h1)
      else or_cancel (client_unsubscribe_cancel E unsubscribe)
             (config_topics (\<lambda>c. client_unsubscribe_config_topic E (Some c) unsubscribe) topicConfigs h1)
             (client_unsubscribe_send E elapsed cb unsubscribe))"

section \<open>Publish\<close>

definition client_publish_prepare :: "env \<Rightarrow> client_handle \<Rightarrow> (op_id option \<times> ErrorCode) \<times> client_handle" where
  "client_publish_prepare E = on_client (None, EC_BadParam) (publishPrepare E)"

definition client_publish_count :: "client_handle \<Rightarrow> nat" where
  "client_publish_count = read_client 0 sendsCount"

definition client_publish_init_config :: PublishConfig where
  "client_publish_init_config = \<lparr>pc_topic = None, pc_data = None, pc_dataLen = 0, pc_qos = 0, pc_retain = False\<rparr>"

definition client_publish_set_response_timeout :: "u32 \<Rightarrow> op_id option \<Rightarrow> client_handle \<Rightarrow> ErrorCode \<times> client_handle" where
  "client_publish_set_response_timeout ms =
     on_op EC_BadParam (\<lambda>i st. (EC_Success, SendOp_setResponseTimeout ms i st))"

definition client_publish_get_response_timeout :: "op_id option \<Rightarrow> client_handle \<Rightarrow> u32 \<times> client_handle" where
  "client_publish_get_response_timeout =
     on_op 0 (\<lambda>i. on_send_ret i 0 (\<lambda>op st. (snd_responseTimeoutMs op, st)))"

definition client_publish_set_resend_attempts ::
  "env \<Rightarrow> u32 \<Rightarrow> op_id option \<Rightarrow> client_handle \<Rightarrow> ErrorCode \<times> client_handle" where
  "client_publish_set_resend_attempts E attempts = on_op EC_BadParam (SendOp_setResendAttempts E attempts)"

definition client_publish_get_resend_attempts :: "op_id option \<Rightarrow> client_handle \<Rightarrow> u32 \<times> client_handle" where
  "client_publish_get_resend_attempts = on_op 0 SendOp_getResendAttempts"

definition client_publish_config ::
  "env \<Rightarrow> PublishConfig option \<Rightarrow> op_id option \<Rightarrow> client_handle \<Rightarrow> ErrorCode \<times> client_handle" where
  "client_publish_config E config op h =
     (case config of None \<Rightarrow> (EC_BadParam, h) | Some c \<Rightarrow> on_op EC_BadParam (SendOp_config E c) op h)"

definition client_publish_send ::
  "env \<Rightarrow> u32 \<Rightarrow> app_cb option \<Rightarrow> op_id option \<Rightarrow> client_handle \<Rightarrow> ErrorCode \<times> client_handle" where
  "client_publish_send E elapsed cb = on_op EC_BadParam (SendOp_send E elapsed cb)"

definition client_publish_cancel :: "env \<Rightarrow> op_id option \<Rightarrow> client_handle \<Rightarrow> ErrorCode \<times> client_handle" where
  "client_publish_cancel E = on_op EC_BadParam (SendOp_cancel E)"

definition client_publish_was_initiated :: "op_id option \<Rightarrow> client_handle \<Rightarrow> bool \<times> client_handle" where
  "client_publish_was_initiated = on_op False (\<lambda>i. on_send_ret i False (\<lambda>op st. (snd_published op, st)))"

definition client_publish ::
  "env \<Rightarrow> u32 \<Rightarrow> PublishConfig option \<Rightarrow> app_cb option \<Rightarrow> client_handle \<Rightarrow> ErrorCode \<times> client_handle" where
  "client_publish E elapsed config cb h =
     (let ((publish, ec), h1) = client_publish_prepare E h in
      if publish = None then (ec, h1)
      else or_cancel (client_publish_cancel E publish)
             (if_given (\<lambda>c. client_publish_config E c publish) config h1)
             (client_publish_send E elapsed cb publish))"

definition client_publish_set_ordering :: "env \<Rightarrow> PublishOrdering \<Rightarrow> client_handle \<Rightarrow> ErrorCode \<times> client_handle" where
  "client_publish_set_ordering E order = on_client EC_BadParam (setPublishOrdering E order)"

definition client_publish_get_ordering :: "client_handle \<Rightarrow> PublishOrdering" where
  "client_publish_get_ordering = read_client PO_ValuesLimit getPublishOrdering"

end
