(* ===== verification/App_Client.thy ===== *)
theory App_Client
  imports App_Options App_Text C_Interface "HOL-Library.Monad_Syntax"
begin

text \<open>
  The example applications, \<open>app/common/AppClient.cpp\<close>, \<open>app/pub/Pub.cpp\<close> and \<open>app/sub/Sub.cpp\<close>, on top
  of the C interface. Every function is a function of the application at the moment it is called; the
  library calls some of them from inside its own functions, and that nesting is not part of the
  model. \<open>None\<close> is an exception, which ends the program in \<open>main\<close>.
\<close>

section \<open>The application\<close>

record app =
  app_client :: client
  app_result :: int
  app_stopped :: bool
  app_posted :: "int list"
  app_timer :: "u32 option"
  app_lastWaitProgram :: nat
  app_cout :: string
  app_cerr :: string

definition say :: "string \<Rightarrow> app \<Rightarrow> app" where
  "say s a = a\<lparr>app_cout := app_cout a @ s\<rparr>"

definition Newline :: string where "Newline = [CHR 0x0A]"

definition Tab :: string where "Tab = [CHR 0x09]"

definition logError :: "string \<Rightarrow> app \<Rightarrow> app" where
  "logError s a = a\<lparr>app_cerr := app_cerr a @ ''ERROR: '' @ s @ Newline\<rparr>"

text \<open>The values of the enumerations.\<close>

fun ErrorCode_val :: "ErrorCode \<Rightarrow> nat" where
  "ErrorCode_val EC_Success = 0" | "ErrorCode_val EC_InternalError = 1" | "ErrorCode_val EC_NotIntitialized = 2"
| "ErrorCode_val EC_Busy = 3" | "ErrorCode_val EC_NotConnected = 4" | "ErrorCode_val EC_AlreadyConnected = 5"
| "ErrorCode_val EC_BadParam = 6" | "ErrorCode_val EC_InsufficientConfig = 7" | "ErrorCode_val EC_OutOfMemory = 8"
| "ErrorCode_val EC_BufferOverflow = 9" | "ErrorCode_val EC_NotSupported = 10" | "ErrorCode_val EC_RetryLater = 11"
| "ErrorCode_val EC_Disconnecting = 12" | "ErrorCode_val EC_NetworkDisconnected = 13"
| "ErrorCode_val EC_PreparationLocked = 14"

fun AsyncOpStatus_val :: "AsyncOpStatus \<Rightarrow> nat" where
  "AsyncOpStatus_val ST_Complete = 0" | "AsyncOpStatus_val ST_InternalError = 1" | "AsyncOpStatus_val ST_Timeout = 2"
| "AsyncOpStatus_val ST_ProtocolError = 3" | "AsyncOpStatus_val ST_Aborted = 4"
| "AsyncOpStatus_val ST_BrokerDisconnected = 5" | "AsyncOpStatus_val ST_OutOfMemory = 6" | "AsyncOpStatus_val ST_BadParam = 7"

text \<open>A call of the C interface on the application's client.\<close>

definition with_client :: "(client_handle \<Rightarrow> 'r \<times> client_handle) \<Rightarrow> app \<Rightarrow> 'r \<times> app" where
  "with_client f a = (let (r, h) = f (Some (app_client a))
     in (r, case h of None \<Rightarrow> a | Some st \<Rightarrow> a\<lparr>app_client := st\<rparr>))"

section \<open>Output\<close>

definition printQos :: "string \<Rightarrow> nat \<Rightarrow> string" where
  "printQos prefix val = Tab @ prefix @ '': '' @ toString_QoS val @ Newline"

definition printBool :: "string \<Rightarrow> bool \<Rightarrow> string" where
  "printBool prefix val = Tab @ prefix @ '': '' @ (if val then ''true'' else ''false'') @ Newline"

definition printConnectReturnCode :: "nat \<Rightarrow> string" where
  "printConnectReturnCode val = Tab @ ''Return Code: '' @ toString_ConnectReturnCode val @ Newline"

definition printSubscribeReturnCode :: "nat \<Rightarrow> string" where
  "printSubscribeReturnCode val = Tab @ ''Return Code: '' @ toString_SubscribeReturnCode val @ Newline"

definition print_MessageInfo :: "opt_vars \<Rightarrow> MessageInfo \<Rightarrow> bool \<Rightarrow> app \<Rightarrow> app" where
  "print_MessageInfo vm info printMessage =
     say (''[INFO]: Message Info:'' @ Newline @
       (if printMessage then Tab @ ''Topic: '' @ mi_topic info @ Newline @
          Tab @ ''Data: '' @ toString_data (mi_data info) (subBinary vm) @ Newline else []) @
       printQos ''QoS'' (mi_qos info) @ printBool ''Retained'' (mi_retained info) @ Newline)"

definition print_ConnectResponse :: "ConnectResponse \<Rightarrow> app \<Rightarrow> app" where
  "print_ConnectResponse response =
     say (''[INFO]: Connection Response:'' @ Newline @ printConnectReturnCode (cr_returnCode response) @
       printBool ''Session Present'' (cr_sessionPresent response) @ Newline)"

definition print_SubscribeResponse :: "nat list \<Rightarrow> app \<Rightarrow> app" where
  "print_SubscribeResponse codes =
     say (''[INFO]: Subscribe Response:'' @ Newline @ concat (map printSubscribeReturnCode codes) @ Newline)"

section \<open>Termination\<close>

definition doTerminate :: "int \<Rightarrow> app \<Rightarrow> app" where
  "doTerminate result a = a\<lparr>app_result := result, app_stopped := True\<rparr>"

text \<open>\<open>doComplete\<close> posts the termination behind the handlers that are pending.\<close>

definition doComplete :: "env \<Rightarrow> u32 \<Rightarrow> opt_vars \<Rightarrow> app \<Rightarrow> app option" where
  "doComplete E elapsed vm a = do {
     topic \<leftarrow> willTopic vm;
     let (ec, a1) = (if topic = [] then with_client (client_disconnect E elapsed) a else (EC_Success, a));
     Some (if ec \<noteq> EC_Success
           then doTerminate 1 (logError (''Failed to send disconnect with ec='' @ toString_ErrorCode (ErrorCode_val ec)) a1)
           else a1\<lparr>app_posted := app_posted a1 @ [0]\<rparr>) }"

section \<open>Timing\<close>

text \<open>Times of the clock are in milliseconds; the system's own error messages are left out.\<close>

definition nextTickProgramInternal :: "nat \<Rightarrow> u32 \<Rightarrow> app \<Rightarrow> app" where
  "nextTickProgramInternal now duration a = a\<lparr>app_lastWaitProgram := now, app_timer := Some duration\<rparr>"

definition onTimer :: "env \<Rightarrow> io_status \<Rightarrow> u32 \<Rightarrow> app \<Rightarrow> app" where
  "onTimer E ec duration a =
     (case ec of
        IO_Aborted \<Rightarrow> a
      | IO_Failed \<Rightarrow> doTerminate 1 (a\<lparr>app_cerr := app_cerr a @ ''ERROR: Timer error: ''\<rparr>)
      | IO_Success \<Rightarrow> a\<lparr>app_timer := None, app_client := client_tick E duration (app_client a)\<rparr>)"

definition cancelNextTickWaitInternal :: "nat \<Rightarrow> app \<Rightarrow> u32 \<times> app" where
  "cancelNextTickWaitInternal now a = (of_nat (now - app_lastWaitProgram a), a\<lparr>app_timer := None\<rparr>)"

section \<open>Start\<close>

definition AppClient_init :: "env \<Rightarrow> app" where
  "AppClient_init E =
     \<lparr>app_client = setCancelNextTickWaitCallback True (setNextTickProgramCallback True (setErrorLogCallback True
        (setMessageReceivedCallback True (setBrokerDisconnectReportCallback True (setSendOutputDataCallback True
          (ClientImpl_init E)))))),
      app_result = 0, app_stopped = False, app_posted = [], app_timer = None, app_lastWaitProgram = 0,
      app_cout = [], app_cerr = []\<rparr>"

text \<open>The callbacks are told apart by numbers.\<close>

definition connectCompleteCb :: app_cb where "connectCompleteCb = 0"
definition publishCompleteCb :: app_cb where "publishCompleteCb = 1"
definition subscribeCompleteCb :: app_cb where "subscribeCompleteCb = 2"

definition sendConnect :: "env \<Rightarrow> u32 \<Rightarrow> op_id option \<Rightarrow> app \<Rightarrow> bool \<times> app" where
  "sendConnect E elapsed connect a =
     (let (ec, a1) = with_client (client_connect_send E elapsed (Some connectCompleteCb) connect) a in
      if ec \<noteq> EC_Success
        then (False, logError (''Failed to send connect request with ec='' @ toString_ErrorCode (ErrorCode_val ec)) a1)
      else (True, a1))"

definition str_arg :: "string \<Rightarrow> string option" where "str_arg s = (if s \<noteq> [] then Some s else None)"
definition data_arg :: "u8 list \<Rightarrow> bytes option" where "data_arg d = (if d \<noteq> [] then Some d else None)"

definition connect_config :: "opt_vars \<Rightarrow> ConnectConfig option" where
  "connect_config vm = do {
     clientId \<leftarrow> opt_clientId vm; username \<leftarrow> opt_username vm; password \<leftarrow> opt_password vm; keepAlive \<leftarrow> opt_keepAlive vm;
     let pass = parseBinaryData password;
     Some (client_connect_init_config\<lparr>cc_keepAlive := unat keepAlive, cc_cleanSession := True,
       cc_clientId := str_arg clientId, cc_username := str_arg username,
       cc_password := data_arg pass, cc_passwordLen := length pass\<rparr>) }"

definition will_config :: "opt_vars \<Rightarrow> string \<Rightarrow> ConnectWillConfig option" where
  "will_config vm topic = do {
     msg \<leftarrow> willMessage vm; qos \<leftarrow> willQos vm;
     let data = parseBinaryData msg;
     Some (client_connect_init_config_will\<lparr>wc_topic := Some topic, wc_data := data_arg data,
       wc_dataLen := length data, wc_qos := unat qos, wc_retain := willRetain vm\<rparr>) }"

definition AppClient_startImpl :: "env \<Rightarrow> u32 \<Rightarrow> u32 \<Rightarrow> opt_vars \<Rightarrow> app \<Rightarrow> (bool \<times> app) option" where
  "AppClient_startImpl E elapsed1 elapsed2 vm a =
     (let ((connect, ec), a1) = with_client (client_connect_prepare E elapsed1) a in
      if connect = None
        then Some (False, logError (''Failed to prepare connect with ec='' @ toString_ErrorCode (ErrorCode_val ec)) a1)
      else do {
        config \<leftarrow> connect_config vm;
        let (ec2, a2) = with_client (client_connect_config E (Some config) connect) a1;
        if ec2 \<noteq> EC_Success
          then Some (False, logError (''Failed to apply basic connect configuration with ec='' @ toString_ErrorCode (ErrorCode_val ec2)) a2)
        else do {
          topic \<leftarrow> willTopic vm;
          if topic = [] then Some (sendConnect E elapsed2 connect a2)
          else do {
            will \<leftarrow> will_config vm topic;
            let (ec3, a3) = with_client (client_connect_config_will E (Some will) connect) a2;
            Some (if ec3 \<noteq> EC_Success
                  then (False, logError (''Failed to apply will configuration with ec='' @ toString_ErrorCode (ErrorCode_val ec3)) a3)
                  else sendConnect E elapsed2 connect a3) } } })"

text \<open>The session is created and started; what its start gives is an argument.\<close>

definition AppClient_createSession :: "bool \<Rightarrow> bool \<Rightarrow> opt_vars \<Rightarrow> app \<Rightarrow> bool \<times> app" where
  "AppClient_createSession has_openssl started vm a =
     (case Session_create has_openssl (connectionType has_openssl vm) of
        None \<Rightarrow> (False, logError ''Failed to create network connection session.'' a)
      | Some _ \<Rightarrow> if \<not> started then (False, logError ''Failed to connect to the broker.'' a) else (True, a))"

definition AppClient_start ::
  "env \<Rightarrow> bool \<Rightarrow> bool \<Rightarrow> u32 \<Rightarrow> u32 \<Rightarrow> string \<Rightarrow> string \<Rightarrow> (bool \<times> opt_vars) option \<Rightarrow> app \<Rightarrow> (bool \<times> app) option" where
  "AppClient_start E has_openssl started elapsed1 elapsed2 prog help parsed a = do {
     (ok, vm) \<leftarrow> parsed;
     if \<not> ok then Some (False, logError ''Failed to parse arguments.'' a)
     else if helpRequested vm
       then Some (True, (say (''Usage: '' @ prog @ '' [options...]'' @ Newline @ help @ Newline) a)\<lparr>app_stopped := True\<rparr>)
     else let (created, a1) = AppClient_createSession has_openssl started vm a in
       if \<not> created then Some (False, a1) else AppClient_startImpl E elapsed1 elapsed2 vm a1 }"

section \<open>Reports of the library and of the session\<close>

definition brokerDisconnectedImpl :: "BrokerDisconnectReason \<Rightarrow> app \<Rightarrow> app" where
  "brokerDisconnectedImpl reason a = doTerminate 1 (logError ''Broker disconnected.'' a)"

definition onNetworkDisconnected :: "env \<Rightarrow> u32 \<Rightarrow> app \<Rightarrow> app" where
  "onNetworkDisconnected E elapsed a =
     doTerminate 1 (a\<lparr>app_client := client_notify_network_disconnected E elapsed (app_client a)\<rparr>)"

definition onData :: "env \<Rightarrow> u32 \<Rightarrow> bytes \<Rightarrow> app \<Rightarrow> nat \<times> app" where
  "onData E elapsed buf a =
     (let (n, st) = client_process_data E elapsed buf (app_client a) in (n, a\<lparr>app_client := st\<rparr>))"

text \<open>
  \<open>connectCompleteImpl\<close>; the function the applications override is an argument. A completed
  operation comes with a response.
\<close>

definition connectCompleteImpl ::
  "(app \<Rightarrow> app option) \<Rightarrow> opt_vars \<Rightarrow> AsyncOpStatus \<Rightarrow> ConnectResponse option \<Rightarrow> app \<Rightarrow> app option" where
  "connectCompleteImpl connectedImpl vm status response a =
     (if status \<noteq> ST_Complete
        then Some (doTerminate 1 (logError (''Connection operation was not properly completed: status='' @
               to_string (AsyncOpStatus_val status)) a))
      else case response of
        None \<Rightarrow> None
      | Some r \<Rightarrow>
          let a1 = (if verbose vm then print_ConnectResponse r a else a) in
          if 0 < cr_returnCode r then Some (doTerminate 1 (logError ''Connection attempt was rejected'' a1))
          else connectedImpl a1)"

section \<open>The publisher\<close>

definition publish_config :: "opt_vars \<Rightarrow> PublishConfig option" where
  "publish_config vm = do {
     topic \<leftarrow> pubTopic vm; msg \<leftarrow> pubMessage vm; qos \<leftarrow> pubQos vm; retain \<leftarrow> pubRetain vm;
     let data = parseBinaryData msg;
     Some (client_publish_init_config\<lparr>pc_topic := Some topic, pc_data := data_arg data, pc_dataLen := length data,
       pc_qos := unat qos, pc_retain := retain\<rparr>) }"

definition Pub_brokerConnectedImpl :: "env \<Rightarrow> u32 \<Rightarrow> opt_vars \<Rightarrow> app \<Rightarrow> app option" where
  "Pub_brokerConnectedImpl E elapsed vm a = do {
     config \<leftarrow> publish_config vm;
     let (ec, a1) = with_client (client_publish E elapsed (Some config) (Some publishCompleteCb)) a;
     Some (if ec \<noteq> EC_Success
           then doTerminate 1 (logError (''Failed to send PUBLISH message: '' @ toString_ErrorCode (ErrorCode_val ec)) a1)
           else a1) }"

definition publishCompleteInternal :: "AsyncOpStatus \<Rightarrow> app \<Rightarrow> app" where
  "publishCompleteInternal status a =
     (if status \<noteq> ST_Complete
        then doTerminate 1 (logError (''Publish failed: '' @ toString_AsyncOpStatus (AsyncOpStatus_val status)) a)
      else doTerminate 0 (say (''Publish successful'' @ Newline) a))"

section \<open>The subscriber\<close>

text \<open>The topic at a position with the QoS at the same position, or with the default of the library.\<close>

definition sub_topic_config :: "env \<Rightarrow> u32 list \<Rightarrow> nat \<Rightarrow> string \<Rightarrow> SubscribeTopicConfig" where
  "sub_topic_config E qoses idx topic =
     (let c = (client_subscribe_init_config_topic E)\<lparr>stc_topic := Some topic\<rparr>
      in if idx < length qoses then c\<lparr>stc_maxQos := unat (qoses ! idx)\<rparr> else c)"

fun sub_config_loop :: "env \<Rightarrow> u32 list \<Rightarrow> op_id option \<Rightarrow> nat \<Rightarrow> string list \<Rightarrow> app \<Rightarrow> bool \<times> app" where
  "sub_config_loop E qoses op idx [] a = (True, a)"
| "sub_config_loop E qoses op idx (topic # topics) a =
     (let (ec, a1) = with_client (client_subscribe_config_topic E (Some (sub_topic_config E qoses idx topic)) op) a in
      if ec \<noteq> EC_Success
        then (False, doTerminate 1 (logError (''Failed to configure topic '' @ [CHR 0x22] @ topic @ [CHR 0x22] @ '': '' @
               toString_ErrorCode (ErrorCode_val ec)) a1))
      else sub_config_loop E qoses op (idx + 1) topics a1)"

definition Sub_brokerConnectedImpl :: "env \<Rightarrow> u32 \<Rightarrow> opt_vars \<Rightarrow> app \<Rightarrow> app option" where
  "Sub_brokerConnectedImpl E elapsed vm a = do {
     topics \<leftarrow> subTopics vm; qoses \<leftarrow> subQoses vm;
     let ((subscribe, ec), a1) = with_client (client_subscribe_prepare E) a;
     Some (if subscribe = None
           then doTerminate 1 (logError (''Failed to allocate subscribe message: '' @ toString_ErrorCode (ErrorCode_val ec)) a1)
           else
             let (ok, a2) = sub_config_loop E qoses subscribe 0 topics a1 in
             if \<not> ok then a2
             else
               let (ec2, a3) = with_client (client_subscribe_send E elapsed (Some subscribeCompleteCb) subscribe) a2
               in if ec2 \<noteq> EC_Success
                  then doTerminate 1 (logError (''Failed to send SUBSCRIBE message: '' @ toString_ErrorCode (ErrorCode_val ec2)) a3)
                  else a3) }"

definition Sub_messageReceivedImpl :: "opt_vars \<Rightarrow> MessageInfo \<Rightarrow> app \<Rightarrow> app" where
  "Sub_messageReceivedImpl vm info a =
     (if mi_retained info \<and> subNoRetained vm then a
      else if verbose vm then print_MessageInfo vm info True a
      else say (mi_topic info @ '': '' @ toString_data (mi_data info) (subBinary vm) @ Newline) a)"

text \<open>The failures of the answer, with the topics at the same positions; \<open>cerr\<close> has no prefix here.\<close>

fun sub_failures :: "string list \<Rightarrow> nat list \<Rightarrow> string" where
  "sub_failures (topic # topics) (code # codes) =
     (if 2 < code then ''Failed to subscribe to topic '' @ [CHR 0x22] @ topic @ [CHR 0x22] @ '' with return code: '' @
        toString_SubscribeReturnCode code @ Newline else []) @ sub_failures topics codes"
| "sub_failures _ _ = []"

definition subscribeCompleteInternal ::
  "opt_vars \<Rightarrow> AsyncOpStatus \<Rightarrow> nat list option \<Rightarrow> app \<Rightarrow> app option" where
  "subscribeCompleteInternal vm status response a =
     (if status \<noteq> ST_Complete
        then Some (doTerminate 1 (logError (''Subscribe failed: '' @ toString_AsyncOpStatus (AsyncOpStatus_val status)) a))
      else do {
        codes \<leftarrow> response;
        topics \<leftarrow> (if list_ex (\<lambda>code. 2 < code) codes then subTopics vm else Some []);
        let a1 = a\<lparr>app_cerr := app_cerr a @ sub_failures topics codes\<rparr>;
        Some (if verbose vm then print_SubscribeResponse codes a1 else a1) })"

section \<open>How the publisher ends\<close>

text \<open>What the publisher reacts to once it has started.\<close>

datatype pub_event = PE_ConnectComplete u32 AsyncOpStatus "ConnectResponse option" | PE_PublishComplete AsyncOpStatus
  | PE_BrokerDisconnected BrokerDisconnectReason | PE_NetworkDisconnected u32 | PE_Timer io_status u32
  | PE_Data u32 bytes | PE_NextTick nat u32 | PE_CancelTick nat

fun pub_handle :: "env \<Rightarrow> opt_vars \<Rightarrow> pub_event \<Rightarrow> app \<Rightarrow> app option" where
  "pub_handle E vm (PE_ConnectComplete elapsed status response) a =
     connectCompleteImpl (Pub_brokerConnectedImpl E elapsed vm) vm status response a"
| "pub_handle E vm (PE_PublishComplete status) a = Some (publishCompleteInternal status a)"
| "pub_handle E vm (PE_BrokerDisconnected reason) a = Some (brokerDisconnectedImpl reason a)"
| "pub_handle E vm (PE_NetworkDisconnected elapsed) a = Some (onNetworkDisconnected E elapsed a)"
| "pub_handle E vm (PE_Timer ec duration) a = Some (onTimer E ec duration a)"
| "pub_handle E vm (PE_Data elapsed buf) a = Some (snd (onData E elapsed buf a))"
| "pub_handle E vm (PE_NextTick now duration) a = Some (nextTickProgramInternal now duration a)"
| "pub_handle E vm (PE_CancelTick now) a = Some (snd (cancelNextTickWaitInternal now a))"

text \<open>Whether and how an application has ended: the result counts once it is stopped.\<close>

definition ended :: "app \<Rightarrow> int option" where
  "ended a = (if app_stopped a then Some (app_result a) else None)"

lemma ended_simps [simp]:
  "ended (doTerminate r a) = Some r" "ended (logError s a) = ended a" "ended (say s a) = ended a"
  "ended (a\<lparr>app_client := st\<rparr>) = ended a" "ended (a\<lparr>app_timer := t\<rparr>) = ended a"
  by (simp_all add: ended_def doTerminate_def logError_def say_def)

lemma ended_with_client [simp]: "ended (snd (with_client f a)) = ended a"
  by (auto simp: with_client_def split_def Let_def split: option.split)

lemma ended_Pub_connected:
  assumes "Pub_brokerConnectedImpl E elapsed vm a = Some a'" shows "ended a' = ended a \<or> ended a' = Some 1"
proof -
  obtain config where c: "publish_config vm = Some config" using assms by (cases "publish_config vm") (auto simp: Pub_brokerConnectedImpl_def)
  obtain ec a1 where w: "with_client (client_publish E elapsed (Some config) (Some publishCompleteCb)) a = (ec, a1)"
    by (metis surj_pair)
  then have "ended a1 = ended a" by (metis ended_with_client snd_conv)
  then show ?thesis using assms c w by (auto simp: Pub_brokerConnectedImpl_def Let_def split: if_splits)
qed

lemma connectComplete_ended:
  assumes "connectCompleteImpl f vm status response a = Some a'"
  shows "ended a' = Some 1 \<or> (\<exists>b. ended b = ended a \<and> f b = Some a')"
proof (cases "status = ST_Complete")
  case False
  then have "a' = doTerminate 1 (logError (''Connection operation was not properly completed: status='' @
      to_string (AsyncOpStatus_val status)) a)"
    using assms by (simp add: connectCompleteImpl_def del: to_string.simps)
  then show ?thesis by simp
next
  case True
  then obtain r where r: "response = Some r" using assms by (cases response) (simp_all add: connectCompleteImpl_def)
  define b where "b = (if verbose vm then print_ConnectResponse r a else a)"
  have "ended b = ended a" by (simp add: b_def print_ConnectResponse_def)
  then show ?thesis using assms
    by (cases "0 < cr_returnCode r") (auto simp: connectCompleteImpl_def True r Let_def simp flip: b_def)
qed

lemma ended_pub_handle:
  assumes "pub_handle E vm e a = Some a'"
  shows "ended a' = ended a \<or> ended a' = Some 1 \<or> ended a' = Some 0 \<and> e = PE_PublishComplete ST_Complete"
proof (cases e)
  case (PE_ConnectComplete el status response)
  with assms have "connectCompleteImpl (Pub_brokerConnectedImpl E el vm) vm status response a = Some a'" by simp
  from connectComplete_ended [OF this] show ?thesis using ended_Pub_connected by metis
next
  case (PE_Timer ec d)
  then show ?thesis using assms by (auto simp: onTimer_def split: io_status.splits)
qed (use assms in \<open>auto simp: publishCompleteInternal_def brokerDisconnectedImpl_def onNetworkDisconnected_def onData_def
    nextTickProgramInternal_def cancelNextTickWaitInternal_def Let_def split_def ended_def doTerminate_def split: if_splits\<close>)

end
