(* ===== verification/Delivery_Props.thy ===== *)
theory Delivery_Props
  imports Recv_Props
begin

text \<open>
  Delivery of a publish: the order in which publishes may be sent, and what happens to one the broker
  does not acknowledge.
\<close>

section \<open>Retransmission\<close>

definition packets :: "event list \<Rightarrow> bytes list" where
  "packets es = List.map_filter (\<lambda>e. case e of EvSendOutputData buf \<Rightarrow> Some buf | _ \<Rightarrow> None) es"

lemma packets_simps [simp]:
  "packets [] = []" "packets (es @ fs) = packets es @ packets fs" "packets (EvSendOutputData buf # es) = buf # packets es"
  "packets (EvErrorLog # es) = packets es" "packets (EvNextTickProgram w # es) = packets es"
  "packets (EvCancelNextTickWait # es) = packets es"
  by (simp_all add: packets_def List.map_filter_simps)

text \<open>What is sent when the broker does not answer: the publish as a duplicate, or its \<open>PUBREL\<close>.\<close>

definition resend_msg :: "SendOp \<Rightarrow> prot_msg" where
  "resend_msg op = (if snd_acked op then MPubrel (pm_packetId (snd_pubMsg op)) True
     else MPublish ((snd_pubMsg op)\<lparr>pm_dup := True\<rparr>))"

text \<open>The operation after some more attempts.\<close>

definition retried :: "SendOp \<Rightarrow> nat \<Rightarrow> SendOp \<Rightarrow> bool" where
  "retried op n op' \<longleftrightarrow> snd_id op' = snd_id op \<and> snd_cb op' = snd_cb op \<and>
     snd_responseTimer op' = snd_responseTimer op \<and>
     snd_totalSendAttempts op' = snd_totalSendAttempts op \<and>
     unat (snd_sendAttempts op') = unat (snd_sendAttempts op) + n \<and> resend_msg op' = resend_msg op"

lemma upd_by_mem: "x \<in> set xs \<Longrightarrow> key x = i \<Longrightarrow> f x \<in> set (upd_by key i f xs)"
  by (force simp: upd_by_def)

text \<open>The state in which the duplicate is sent, and the outcome of an expiration.\<close>

definition marked :: "env \<Rightarrow> SendOp \<Rightarrow> client \<Rightarrow> client" where
  "marked E op st = (if snd_acked op then errorLog E st
     else upd_pub (snd_id op) (\<lambda>m. m\<lparr>pm_dup := True\<rparr>) (errorLog E st))"

lemma marked_kept [simp]:
  "timerMgr (marked E op st) = timerMgr st" "sessionState (marked E op st) = sessionState st"
  "configState (marked E op st) = configState st" "has_sendOutputDataCb (marked E op st) = has_sendOutputDataCb st"
  "packets (out (marked E op st)) = packets (out st)"
  by (simp_all add: marked_def upd_pub_def upd_send_def errorLog_def emit_def)

lemma retry_eq:
  assumes "client_inv st" "op \<in> set (m_sendOps st)" "snd_sendAttempts op < snd_totalSendAttempts op"
    "transmits E (resend_msg op) buf st"
  shows "SendOp_responseTimeoutInternal E (snd_id op) st = SendOp_restartResponseTimer op
      (upd_send (snd_id op) (\<lambda>op. op\<lparr>snd_sendAttempts := snd_sendAttempts op + 1\<rparr>)
        (snd (sendMessage E (resend_msg op) (marked E op st))))"
proof -
  have f: "find_by snd_id (snd_id op) (m_sendOps st) = Some op"
    using find_by_distinct [OF ops_wf_distinct(7) assms(2)] assms(1) by (simp add: client_inv_def)
  have "transmits E (resend_msg op) buf (marked E op st)" using assms(4) by (simp add: transmits_def)
  from sendMessage_transmits(1) [OF this] f assms(3) show ?thesis
    by (auto simp: SendOp_responseTimeoutInternal_def SendOp_resendDupMsg_def on_send_def follow_def Let_def split_def
        marked_def resend_msg_def not_le)
qed

lemma retry_step:
  assumes "client_inv st" "op \<in> set (m_sendOps st)" "snd_sendAttempts op < snd_totalSendAttempts op"
    "transmits E (resend_msg op) buf st" "st' = SendOp_responseTimeoutInternal E (snd_id op) st"
  shows "\<exists>op' \<in> set (m_sendOps st'). retried op 1 op'" "client_inv st'"
    "packets (out st') = packets (out st) @ [buf]" "has_sendOutputDataCb st' = has_sendOutputDataCb st"
    "sessionState st' = sessionState st" "configState st' = configState st"
    "timerMgr st' = timerWait (snd_responseTimer op) (ucast (m_responseTimeoutMs (configState st)))
       SendOp_recvTimeoutCb (snd_id op) (timerMgr (snd (sendMessage E (resend_msg op) (marked E op st))))"
proof -
  note st' = assms(5) [unfolded retry_eq [OF assms(1-4)]]
  have "msteps E False st st'" unfolding assms(5) by (intro ev_resends msteps_refl)
  then show "client_inv st'" using assms(1) client_inv_msteps by (auto simp: msteps_def)
  have "transmits E (resend_msg op) buf (marked E op st)" using assms(4) by (simp add: transmits_def)
  from sendMessage_transmits(2) [OF this] show "packets (out st') = packets (out st) @ [buf]"
    by (simp add: st' SendOp_restartResponseTimer_def upd_send_def)
  show "has_sendOutputDataCb st' = has_sendOutputDataCb st" "sessionState st' = sessionState st"
    "configState st' = configState st"
    "timerMgr st' = timerWait (snd_responseTimer op) (ucast (m_responseTimeoutMs (configState st)))
       SendOp_recvTimeoutCb (snd_id op) (timerMgr (snd (sendMessage E (resend_msg op) (marked E op st))))"
    by (simp_all add: st' SendOp_restartResponseTimer_def upd_send_def on_timers_def)
  let ?op = "(if snd_acked op then op else op\<lparr>snd_pubMsg := (snd_pubMsg op)\<lparr>pm_dup := True\<rparr>\<rparr>)
    \<lparr>snd_sendAttempts := snd_sendAttempts op + 1\<rparr>"
  have "?op \<in> set (m_sendOps st')"
    using upd_by_mem [OF assms(2), of snd_id "snd_id op" "\<lambda>op. op\<lparr>snd_sendAttempts := snd_sendAttempts op + 1\<rparr>"]
      upd_by_mem [OF upd_by_mem [OF assms(2), of snd_id "snd_id op" "\<lambda>op. op\<lparr>snd_pubMsg := (snd_pubMsg op)\<lparr>pm_dup := True\<rparr>\<rparr>"],
        of snd_id "snd_id op" "\<lambda>op. op\<lparr>snd_sendAttempts := snd_sendAttempts op + 1\<rparr>"]
    by (simp add: st' SendOp_restartResponseTimer_def marked_def upd_pub_def upd_send_def)
  moreover have "unat (snd_sendAttempts op + 1) = unat (snd_sendAttempts op) + 1"
  proof -
    have "unat (snd_totalSendAttempts op) < 2 ^ 32" using unsigned_less [of "snd_totalSendAttempts op"] by simp
    then show ?thesis using assms(3) by (simp add: word_less_nat_alt unat_word_ariths)
  qed
  then have "retried op 1 ?op" by (auto simp: retried_def resend_msg_def)
  ultimately show "\<exists>op' \<in> set (m_sendOps st'). retried op 1 op'" by blast
qed

lemma retried_trans: "retried op n op' \<Longrightarrow> retried op' m op'' \<Longrightarrow> retried op (n + m) op''"
  by (auto simp: retried_def)

text \<open>The response timer of a publish is running, with at most some time left.\<close>

definition awaits :: "u32 \<Rightarrow> SendOp \<Rightarrow> client \<Rightarrow> bool" where
  "awaits d op st \<longleftrightarrow> snd_responseTimer op < length (m_timers (timerMgr st)) \<and>
     (let info = m_timers (timerMgr st) ! snd_responseTimer op
      in running info \<and> m_timeoutMs info \<le> ucast d \<and> callback info = (SendOp_recvTimeoutCb, Some (snd_id op)))"

text \<open>
  Nothing else is due for some time: no other timer is, nor will be when keep-alive timers are
  restarted by the packets that are sent.
\<close>

definition calm :: "nat \<Rightarrow> SendOp \<Rightarrow> client \<Rightarrow> bool" where
  "calm b op st \<longleftrightarrow>
     (\<forall>j < length (m_timers (timerMgr st)). j \<noteq> snd_responseTimer op \<and> running (m_timers (timerMgr st) ! j) \<longrightarrow>
        b < unat (m_timeoutMs (m_timers (timerMgr st) ! j))) \<and>
     (m_keepAliveMs (sessionState st) = 0 \<or> b < unat (m_keepAliveMs (sessionState st)))"

lemma calm_mono: "a \<le> b \<Longrightarrow> calm b op st \<Longrightarrow> calm a op st"
  unfolding calm_def by (meson le_less_trans)

lemma filter_single:
  "k < length xs \<Longrightarrow> P (xs ! k) \<Longrightarrow> (\<And>j. j < length xs \<Longrightarrow> j \<noteq> k \<Longrightarrow> \<not> P (xs ! j)) \<Longrightarrow> filter P xs = [xs ! k]"
proof (induction xs arbitrary: k)
  case (Cons x xs)
  show ?case
  proof (cases k)
    case 0
    then have "\<forall>y \<in> set xs. \<not> P y" using Cons.prems(3) [of "Suc j" for j] by (auto simp: in_set_conv_nth)
    then show ?thesis using 0 Cons.prems(2) by simp
  next
    case (Suc i)
    then have "filter P xs = [xs ! i]"
      using Cons.IH [of i] Cons.prems(1,2) Cons.prems(3) [of "Suc j" for j] by simp
    then show ?thesis using Suc Cons.prems(3) [of 0] by simp
  qed
qed simp

lemma tick_alone:
  assumes "awaits d op st" "calm (unat d) op st"
  shows "tick E d st = doApiExit (SendOp_responseTimeoutInternal E (snd_id op)
    (st\<lparr>m_apiEnterCount := m_apiEnterCount st + 1, timerMgr := snd (tick_collect d (timerMgr st))\<rparr>))"
proof -
  let ?xs = "m_timers (timerMgr st)" and ?k = "snd_responseTimer op"
  have "filter (expired d) ?xs = [?xs ! ?k]"
  proof (rule filter_single)
    show "?k < length ?xs" "expired d (?xs ! ?k)" using assms(1) by (simp_all add: awaits_def expired_def Let_def)
    show "\<not> expired d (?xs ! j)" if "j < length ?xs" "j \<noteq> ?k" for j
      using assms(2) that by (auto simp: calm_def expired_def word_le_nat_alt)
  qed
  then have "fst (tick_collect d (timerMgr st)) = [(SendOp_recvTimeoutCb, Some (snd_id op))]"
    using assms(1) by (simp add: tick_collect_eq awaits_def Let_def)
  then show ?thesis
    by (simp add: tick_def TimerMgr_tick_def split_def Let_def)
qed

text \<open>Slots stay as they are, or are restarted with more than some time.\<close>

definition rewaits :: "nat \<Rightarrow> timers \<Rightarrow> timers \<Rightarrow> bool" where
  "rewaits b tm tm' \<longleftrightarrow> length (m_timers tm') = length (m_timers tm) \<and>
     (\<forall>j < length (m_timers tm). m_allocated (m_timers tm' ! j) = m_allocated (m_timers tm ! j) \<and>
        m_suspended (m_timers tm' ! j) = m_suspended (m_timers tm ! j) \<and>
        (m_timers tm' ! j = m_timers tm ! j \<or> b < unat (m_timeoutMs (m_timers tm' ! j))))"

lemma rewaits_wait: "rewaits b tm tm' \<Longrightarrow> b < unat t \<Longrightarrow> rewaits b tm (timerWait k t cb d tm')"
  by (auto simp: rewaits_def timerWait_def nth_list_update)

lemma rewaits_sendMessage:
  assumes "m_keepAliveMs (sessionState st) = 0 \<or> b < unat (m_keepAliveMs (sessionState st))"
  shows "rewaits b (timerMgr st) (timerMgr (snd (sendMessage E msg st)))"
proof -
  have "rewaits b tm (timerMgr s) \<Longrightarrow> sessionState s = sessionState st \<Longrightarrow>
      rewaits b tm (timerMgr (fold KeepAliveOp_messageSent kas s))" for kas s tm
    using assms
    by (induction kas arbitrary: s)
      (auto simp: KeepAliveOp_messageSent_def KeepAliveOp_restartPingTimer_def on_timers_def rewaits_wait)
  moreover have "rewaits b (timerMgr st) (timerMgr st)" by (simp add: rewaits_def)
  ultimately show ?thesis
    by (auto simp: sendMessage_def Let_def errorLog_def split: option.split)
qed

lemma doApiExit_kept [simp]:
  "m_sendOps (doApiExit st) = m_sendOps st" "timerMgr (doApiExit st) = timerMgr st"
  "sessionState (doApiExit st) = sessionState st" "configState (doApiExit st) = configState st"
  "has_sendOutputDataCb (doApiExit st) = has_sendOutputDataCb st" "packets (out (doApiExit st)) = packets (out st)"
  "all_ptrs (doApiExit st) = all_ptrs st"
  by (simp_all add: doApiExit_def cleanOps_def emit_def Let_def all_ptrs_def)

lemma out_grows: "\<exists>es. out (errorLog E st) = out st @ es" "\<exists>es. out (doApiExit st) = out st @ es"
  by (simp_all add: errorLog_def doApiExit_def cleanOps_def emit_def Let_def)

lemma ticked_inv:
  assumes "client_inv st"
  shows "client_inv (st\<lparr>m_apiEnterCount := n, timerMgr := snd (tick_collect d (timerMgr st))\<rparr>)"
proof -
  have "client_inv (st\<lparr>timerMgr := snd (tick_collect d (timerMgr st))\<rparr>)"
    by (rule client_inv_mstep [OF ms_quiet assms]) (rule quiet_tick)
  then show ?thesis
    by (rule client_inv_cong [rotated -1])
      (simp_all add: view_eq_def live_ops_def all_ptrs_def timer_slots_def op_pids_def filters_wf_def)
qed

lemma doApiExit_inv: "client_inv st \<Longrightarrow> client_inv (doApiExit st)"
  using ev_api(2) [OF msteps_refl, of undefined False st] client_inv_msteps by (auto simp: msteps_def)

lemma tick_retry:
  assumes "client_inv st" "op \<in> set (m_sendOps st)" "snd_sendAttempts op < snd_totalSendAttempts op"
    "transmits E (resend_msg op) buf st" "awaits d op st" "calm (unat d + b) op st"
    "d = m_responseTimeoutMs (configState st)" "st' = tick E d st"
  shows "\<exists>op' \<in> set (m_sendOps st'). retried op 1 op' \<and> awaits d op' st' \<and> calm b op' st'" "client_inv st'"
    "packets (out st') = packets (out st) @ [buf]" "has_sendOutputDataCb st' = has_sendOutputDataCb st"
    "configState st' = configState st"
proof -
  define s where "s = st\<lparr>m_apiEnterCount := m_apiEnterCount st + 1, timerMgr := snd (tick_collect d (timerMgr st))\<rparr>"
  have s: "client_inv s" "op \<in> set (m_sendOps s)" "transmits E (resend_msg op) buf s" "configState s = configState st"
    "packets (out s) = packets (out st)" "has_sendOutputDataCb s = has_sendOutputDataCb st" "sessionState s = sessionState st"
    "timerMgr s = snd (tick_collect d (timerMgr st))"
    using ticked_inv [OF assms(1)] assms(2,4) by (simp_all add: s_def transmits_def)
  define s1 where "s1 = SendOp_responseTimeoutInternal E (snd_id op) s"
  note r = retry_step [OF s(1,2) assms(3) s(3) s1_def]
  have "calm (unat d) op st" by (rule calm_mono [OF _ assms(6)]) simp
  from tick_alone [OF assms(5) this] have st': "st' = doApiExit s1" by (simp add: assms(8) s1_def s_def)
  show "client_inv st'" "packets (out st') = packets (out st) @ [buf]" "has_sendOutputDataCb st' = has_sendOutputDataCb st"
    "configState st' = configState st" using r s doApiExit_inv by (simp_all add: st')
  obtain op' where op': "op' \<in> set (m_sendOps s1)" "retried op 1 op'" using r(1) by blast
  let ?k = "snd_responseTimer op" and ?tm = "timerMgr st"
  let ?tm1 = "timerMgr (snd (sendMessage E (resend_msg op) (marked E op s)))"
  have k: "?k < length (m_timers ?tm)" "running (m_timers ?tm ! ?k)" using assms(5) by (simp_all add: awaits_def Let_def)
  have ka: "m_keepAliveMs (sessionState st) = 0 \<or> unat d + b < unat (m_keepAliveMs (sessionState st))"
    using assms(6) by (simp add: calm_def)
  then have w: "rewaits b (timerMgr s) ?tm1"
    using rewaits_sendMessage [of "marked E op s" b E "resend_msg op"] s(7) by auto
  have tm: "timerMgr st' = timerWait ?k (ucast d) SendOp_recvTimeoutCb (snd_id op) ?tm1"
    using r(7) s(4) assms(7) by (simp add: st')
  have len: "length (m_timers ?tm1) = length (m_timers ?tm)" using w s(8) by (simp add: rewaits_def tick_collect_eq)
  have "awaits d op' st'"
    using w k op'(2) len s(8)
    by (auto simp: awaits_def tm timerWait_def retried_def running_def callback_def rewaits_def tick_collect_eq
        tick_info_def cancel_info_def Let_def)
  moreover have "b < unat (m_timeoutMs (m_timers (timerMgr st') ! j))"
    if j: "j < length (m_timers (timerMgr st'))" "j \<noteq> ?k" "running (m_timers (timerMgr st') ! j)" for j
  proof -
    have l: "j < length (m_timers ?tm)" using j(1) len by (simp add: tm timerWait_def split: if_splits)
    have e: "m_timers (timerMgr st') ! j = m_timers ?tm1 ! j" using j(2) by (simp add: tm timerWait_def)
    have "m_timers ?tm1 ! j = tick_info d (m_timers ?tm ! j) \<or> b < unat (m_timeoutMs (m_timers ?tm1 ! j))"
      using w l s(8) by (auto simp: rewaits_def tick_collect_eq)
    moreover have "b < unat (m_timeoutMs (tick_info d (m_timers ?tm ! j)))" if "running (tick_info d (m_timers ?tm ! j))"
      using assms(6) l j(2) that
      by (auto simp: calm_def tick_info_def running_def cancel_info_def word_le_nat_alt unat_sub split: if_splits)
    ultimately show ?thesis using j(3) e by auto
  qed
  then have "calm b op' st'" using op'(2) ka r(5) s(7) by (auto simp: calm_def retried_def st')
  ultimately show "\<exists>op' \<in> set (m_sendOps st'). retried op 1 op' \<and> awaits d op' st' \<and> calm b op' st'"
    using op' by (auto simp: st')
qed

lemma tick_retries:
  assumes "client_inv st" "op \<in> set (m_sendOps st)" "transmits E (resend_msg op) buf st" "awaits d op st"
    "calm (n * unat d + b) op st" "d = m_responseTimeoutMs (configState st)"
    "n \<le> unat (snd_totalSendAttempts op) - unat (snd_sendAttempts op)" "st' = (tick E d ^^ n) st"
  shows "client_inv st' \<and> (\<exists>op' \<in> set (m_sendOps st'). retried op n op' \<and> awaits d op' st' \<and> calm b op' st') \<and>
    packets (out st') = packets (out st) @ replicate n buf \<and> has_sendOutputDataCb st' = has_sendOutputDataCb st \<and>
    configState st' = configState st"
  using assms(5,7,8)
proof (induction n arbitrary: b st')
  case 0
  have "retried op 0 op" by (simp add: retried_def)
  then show ?case using assms(1,2,4) 0 by auto
next
  case (Suc n)
  let ?s = "(tick E d ^^ n) st"
  have "calm (n * unat d + (unat d + b)) op st" using Suc.prems(1) by (simp add: algebra_simps)
  from Suc.IH [OF this _ refl] Suc.prems(2) obtain op' where IH: "client_inv ?s" "op' \<in> set (m_sendOps ?s)"
    "retried op n op'" "awaits d op' ?s" "calm (unat d + b) op' ?s"
    "packets (out ?s) = packets (out st) @ replicate n buf" "has_sendOutputDataCb ?s = has_sendOutputDataCb st"
    "configState ?s = configState st" by auto
  have op': "snd_sendAttempts op' < snd_totalSendAttempts op'" "transmits E (resend_msg op') buf ?s"
    using IH(3,7) Suc.prems(2) assms(3) by (auto simp: retried_def word_less_nat_alt transmits_def)
  have "d = m_responseTimeoutMs (configState ?s)" using assms(6) IH(8) by simp
  note r = tick_retry [OF IH(1,2) op' IH(4,5) this, of st']
  have "st' = tick E d ?s" using Suc.prems(3) by simp
  note r = r [OF this]
  then obtain op'' where "op'' \<in> set (m_sendOps st')" "retried op (n + 1) op''" "awaits d op'' st'" "calm b op'' st'"
    using retried_trans [OF IH(3)] by blast
  moreover have "replicate n buf @ [buf] = replicate (Suc n) buf" by (simp add: replicate_append_same)
  ultimately show ?case using r IH(6-8) by auto
qed



section \<open>Ordering\<close>

text \<open>
  The rule for the full ordering: a publish waits while the one directly before it is postponed or an
  earlier one of a higher QoS is incomplete.
\<close>

definition waits :: "SendOp list \<Rightarrow> SendOp \<Rightarrow> bool" where
  "waits earlier op \<longleftrightarrow> earlier \<noteq> [] \<and> snd_paused (last earlier) \<or>
     (\<exists>o' \<in> set earlier. pm_qos (snd_pubMsg op) < pm_qos (snd_pubMsg o'))"

lemma hasHigherQos_earlier:
  "snd_id op \<notin> snd_id ` set earlier \<Longrightarrow>
   hasHigherQos_loop (snd_id op) q (earlier @ op # later) \<longleftrightarrow> (\<exists>o' \<in> set earlier. q < pm_qos (snd_pubMsg o'))"
  by (induction earlier) auto

lemma find_index_append: "\<forall>x \<in> set xs. \<not> P x \<Longrightarrow> P y \<Longrightarrow> find_index P (xs @ y # ys) = length xs"
  by (induction xs) auto

lemma hasPaused_earlier:
  assumes "m_sendOps st = earlier @ op # later" "distinct (send_ids st)"
  shows "hasPausedSendsBefore (snd_id op) st \<longleftrightarrow> earlier \<noteq> [] \<and> snd_paused (last earlier)"
proof -
  have "\<forall>o' \<in> set (rev later). snd_id o' \<noteq> snd_id op" using assms by (simp add: image_iff) metis
  from find_index_append [OF this] have "find_index (\<lambda>o'. snd_id o' = snd_id op) (rev later @ op # rev earlier) = length later"
    by simp
  then show ?thesis
    using assms(1) by (auto simp: hasPausedSendsBefore_def Let_def last_conv_nth nth_append)
qed

lemma canSend_iff:
  assumes "m_sendOps st = earlier @ op # later" "distinct (send_ids st)"
  shows "SendOp_canSend op st \<longleftrightarrow> m_publishOrdering (configState st) = PO_SameQos \<or> \<not> waits earlier op"
proof -
  have "snd_id op \<notin> snd_id ` set earlier" using assms(1,2) by auto
  from hasHigherQos_earlier [OF this] hasPaused_earlier [OF assms(1,2)] assms(1) show ?thesis
    by (auto simp: SendOp_canSend_def hasHigherQosSendsBefore_def waits_def)
qed

lemma upd_by_middle:
  assumes "distinct (map key (xs @ x # ys))" shows "upd_by key (key x) f (xs @ x # ys) = xs @ f x # ys"
proof -
  have "upd_by key (key x) f zs = zs" if "key x \<notin> key ` set zs" for zs
    using that by (induction zs) (auto simp: upd_by_def)
  from this [of xs] this [of ys] assms show ?thesis by (auto simp: upd_by_def)
qed

text \<open>The packets sent only grow.\<close>

definition sends_more :: "client \<Rightarrow> client \<Rightarrow> bool" where
  "sends_more a b \<longleftrightarrow> (\<exists>ps. packets (out b) = packets (out a) @ ps)"

interpretation more: op_frame sends_more
proof
  show "sends_more a b \<Longrightarrow> sends_more b c \<Longrightarrow> sends_more a c" for a b c by (auto simp: sends_more_def)
qed (auto simp: sends_more_def upd_send_def drop_op_frame emit_def)

lemma assigned:
  assumes "SendOp_assign E cb op st = (op', st1)"
  shows "snd_id op' = snd_id op" "m_sendOps st1 = upd_by snd_id (snd_id op) (\<lambda>_. op') (m_sendOps st)"
    "packets (out st1) = packets (out st)" "configState st1 = configState st"
    "has_cancelNextTickWaitCb st1 = has_cancelNextTickWaitCb st" "has_sendOutputDataCb st1 = has_sendOutputDataCb st"
proof -
  have "m_sendOps (snd (client_allocPacketId E st)) = m_sendOps st"
    "packets (out (snd (client_allocPacketId E st))) = packets (out st)"
    "configState (snd (client_allocPacketId E st)) = configState st"
    "has_cancelNextTickWaitCb (snd (client_allocPacketId E st)) = has_cancelNextTickWaitCb st"
    "has_sendOutputDataCb (snd (client_allocPacketId E st)) = has_sendOutputDataCb st"
    by (simp_all add: client_allocPacketId_def Let_def errorLog_def emit_def set_fault_def split: option.split)
  with assms show "snd_id op' = snd_id op" "m_sendOps st1 = upd_by snd_id (snd_id op) (\<lambda>_. op') (m_sendOps st)"
    "packets (out st1) = packets (out st)" "configState st1 = configState st"
    "has_cancelNextTickWaitCb st1 = has_cancelNextTickWaitCb st" "has_sendOutputDataCb st1 = has_sendOutputDataCb st"
    by (auto simp: SendOp_assign_def Let_def split_def upd_send_def split: if_splits)
qed

lemma doSend_transmits:
  assumes "m_sendOps st = earlier @ op # later" "distinct (send_ids st)" "transmits E (MPublish (snd_pubMsg op)) buf st"
    "SendOp_doSendInternal E (snd_id op) st = (ec, st')"
  shows "ec = EC_Success \<and> (\<exists>ps. packets (out st') = packets (out st) @ buf # ps)"
proof -
  have k: "length earlier < length (m_sendOps st)" "op = m_sendOps st ! length earlier" using assms(1) by simp_all
  let ?st1 = "upd_send (snd_id op) (\<lambda>op. op\<lparr>snd_sendAttempts := 0\<rparr>) st"
  let ?m = "sendMessage E (MPublish (snd_pubMsg op)) ?st1"
  have m: "(fst ?m, snd ?m) = ?m" by simp
  have "transmits E (MPublish (snd_pubMsg op)) buf ?st1" using assms(3) by (simp add: transmits_def upd_send_def)
  note r = sendMessage_transmits [OF this]
  then have "packets (out (sent_state E (snd_id op) op st)) = packets (out st) @ [buf]"
    by (simp add: sent_state_def upd_send_def)
  moreover have "sends_more (sent_state E (snd_id op) op st)
      (SendOp_completeWithCb E (snd_id op) ST_Complete (sent_state E (snd_id op) op st))"
    "sends_more (sent_state E (snd_id op) op st) (SendOp_restartResponseTimer op (sent_state E (snd_id op) op st))"
    by (simp_all add: more.R_completeWithCb more.R_refl SendOp_restartResponseTimer_def more.R_then)
  ultimately show ?thesis
    using doSendInternal_with_eq [OF assms(2) k refl m, of "resumeSendOpsSince E"] assms(4) r(1)
    by (auto simp: SendOp_doSendInternal_def SendOp_completeWithCb_def sends_more_def split: if_splits)
qed


text \<open>
  A publish of QoS 0 is postponed behind one of QoS 2. The next one of QoS 2 waits as well, although no
  earlier one has a higher QoS: it would overtake the one of QoS 0.
\<close>

definition demo_ordered_st :: client where
  "demo_ordered_st = fold (run_call demo_env) ([CPublishOrdering PO_Full] @ demo_publish 2 2 @ demo_publish 0 3 @
       [CPublishPrepare, CPublishConfig (pub_cfg 2) 4])
     (demo_connected_st\<lparr>has_nextTickProgramCb := False, has_cancelNextTickWaitCb := False\<rparr>)"


section \<open>Resumption\<close>

text \<open>The resumption from a position on leaves the publishes before it alone.\<close>

definition keeps_front :: "nat \<Rightarrow> client \<Rightarrow> client \<Rightarrow> bool" where
  "keeps_front k st st' \<longleftrightarrow> k \<le> length (m_sendOps st') \<and> take k (m_sendOps st') = take k (m_sendOps st)"

lemma keeps_front_trans: "keeps_front k a b \<Longrightarrow> keeps_front k b c \<Longrightarrow> keeps_front k a c"
  by (simp add: keeps_front_def)

lemma keeps_front_same: "keeps_front k a b \<Longrightarrow> m_sendOps c = m_sendOps b \<Longrightarrow> keeps_front k a c"
  by (simp add: keeps_front_def)

lemma upd_by_distinct:
  "distinct (map key xs) \<Longrightarrow> k < length xs \<Longrightarrow> upd_by key (key (xs ! k)) f xs = xs[k := f (xs ! k)]"
  by (rule nth_equalityI) (auto simp: upd_by_def nth_list_update distinct_conv_nth)

text \<open>The operation at a position, which changes of the operation itself leave there.\<close>

definition sits :: "nat \<Rightarrow> op_id \<Rightarrow> client \<Rightarrow> bool" where
  "sits k i st \<longleftrightarrow> distinct (send_ids st) \<and> k < length (m_sendOps st) \<and> snd_id (m_sendOps st ! k) = i"

lemma sits_same: "m_sendOps a = m_sendOps b \<Longrightarrow> sits k i a = sits k i b"
  by (simp add: sits_def)

lemma sits_upd:
  assumes "sits k i st" "\<And>op. snd_id (f op) = snd_id op"
  shows "sits k i (upd_send i f st)" "keeps_front k st (upd_send i f st)"
proof -
  have "m_sendOps (upd_send i f st) = (m_sendOps st)[k := f (m_sendOps st ! k)]"
    using assms(1) upd_by_distinct [of snd_id "m_sendOps st" k f] by (auto simp: sits_def)
  moreover have "send_ids (upd_send i f st) = send_ids st"
    using assms(2) by (auto simp: upd_by_def)
  ultimately show "sits k i (upd_send i f st)" "keeps_front k st (upd_send i f st)"
    using assms by (auto simp: sits_def keeps_front_def)
qed

definition fronts :: "(nat \<Rightarrow> client \<Rightarrow> client) \<Rightarrow> bool" where
  "fronts rs \<longleftrightarrow> (\<forall>k st. distinct (send_ids st) \<longrightarrow> k \<le> length (m_sendOps st) \<longrightarrow>
     distinct (send_ids (rs k st)) \<and> keeps_front k st (rs k st))"

lemma front_complete:
  assumes "fronts rs" "sits k i st"
  shows "distinct (send_ids (SendOp_completeWithCb_with rs i status st)) \<and>
    keeps_front k st (SendOp_completeWithCb_with rs i status st)"
proof -
  let ?idx = "find_index (\<lambda>p. p = Some (Type_Send, i)) (m_ops st)"
  let ?st2 = "erase_Send i (forget_op ?idx st)"
  have k: "distinct (send_ids st)" "k < length (m_sendOps st)" "i = snd_id (m_sendOps st ! k)"
    using assms(2) by (auto simp: sits_def)
  have ops: "m_sendOps ?st2 = erase_at k (m_sendOps st)"
    using m_sendOps_erase_Send [of "forget_op ?idx st" k] k by (simp add: forget_op_def)
  then have 2: "distinct (send_ids ?st2)" "k \<le> length (m_sendOps ?st2)"
    using k(1,2) by (simp_all add: distinct_erase_at length_erase_at)
  moreover have 3: "keeps_front k st ?st2" using ops k(2) by (simp add: keeps_front_def erase_at_def)
  ultimately have "distinct (send_ids (rs k ?st2))" "keeps_front k st (rs k ?st2)"
    using assms(1) keeps_front_trans unfolding fronts_def by blast+
  moreover have "keeps_front k st st" using k(2) by (simp add: keeps_front_def)
  ultimately have "distinct (send_ids (opComplete_with rs (Type_Send, i) st)) \<and>
      keeps_front k st (opComplete_with rs (Type_Send, i) st)"
    using k 2(1) 3 by (simp add: opComplete_with_Send Let_def eraseFromList_distinct)
  then show ?thesis
    using k by (auto simp: SendOp_completeWithCb_with_def on_send_found Let_def
        intro: keeps_front_same split: option.split)
qed

lemma front_send:
  assumes "fronts rs" "sits k i st" "SendOp_doSendInternal_with rs E i st = (ec, st')"
  shows "distinct (send_ids st') \<and> keeps_front k st st'" "ec \<noteq> EC_Success \<Longrightarrow> sits k i st'"
proof -
  let ?op = "m_sendOps st ! k" and ?st1 = "upd_send i (\<lambda>op. op\<lparr>snd_sendAttempts := 0\<rparr>) st"
  have k: "distinct (send_ids st)" "k < length (m_sendOps st)" "i = snd_id ?op"
    using assms(2) by (auto simp: sits_def)
  obtain result st2 where m: "(result, st2) = sendMessage E (MPublish (snd_pubMsg ?op)) ?st1" by (metis surj_pair)
  note eq = doSendInternal_with_eq [OF k(1,2) refl k(3) m, of rs]
  have ops: "m_sendOps st2 = m_sendOps ?st1"
    using arg_cong [OF m, of "\<lambda>p. m_sendOps (snd p)"] by simp
  have 2: "sits k i st2" "keeps_front k st st2"
    using sits_upd [OF assms(2), of "\<lambda>op. op\<lparr>snd_sendAttempts := 0\<rparr>"] sits_same [OF ops] keeps_front_same [OF _ ops]
    by simp_all
  let ?st3 = "sent_state E i ?op st"
  have st3: "?st3 = upd_send i (\<lambda>op. op\<lparr>snd_published := True, snd_sendAttempts := snd_sendAttempts op + 1\<rparr>) st2"
    using m by (simp add: sent_state_def) (metis snd_conv)
  have 3: "sits k i ?st3" "keeps_front k st ?st3"
    unfolding st3 using sits_upd [OF 2(1)] keeps_front_trans [OF 2(2)] by simp_all
  have 4: "distinct (send_ids (SendOp_restartResponseTimer ?op ?st3)) \<and> keeps_front k st (SendOp_restartResponseTimer ?op ?st3)"
    using 3 keeps_front_same [OF 3(2)] by (simp add: sits_def SendOp_restartResponseTimer_def)
  have 5: "distinct (send_ids (SendOp_completeWithCb_with rs i ST_Complete ?st3)) \<and>
      keeps_front k st (SendOp_completeWithCb_with rs i ST_Complete ?st3)"
    using front_complete [OF assms(1) 3(1)] keeps_front_trans [OF 3(2)] by blast
  show "distinct (send_ids st') \<and> keeps_front k st st'"
    using assms(3) eq 2 4 5 by (auto simp: sits_def split: if_splits)
  show "ec \<noteq> EC_Success \<Longrightarrow> sits k i st'"
    using assms(3) eq 2(1) by (auto split: if_splits)
qed

lemma front_resume:
  assumes "fronts rs" "sits k i st" "SendOp_resume_with rs E i st = (r, st')"
  shows "distinct (send_ids st') \<and> keeps_front k st st'"
proof -
  let ?op = "m_sendOps st ! k" and ?st1 = "upd_send i (\<lambda>op. op\<lparr>snd_paused := False\<rparr>) st"
  have k: "distinct (send_ids st)" "k < length (m_sendOps st)" "i = snd_id ?op"
    using assms(2) by (auto simp: sits_def)
  have u: "sits k i ?st1" "keeps_front k st ?st1" by (rule sits_upd [OF assms(2)], simp)+
  obtain ec st2 where d: "SendOp_doSendInternal_with rs E i ?st1 = (ec, st2)" by (metis surj_pair)
  note s = front_send [OF assms(1) u(1) d]
  have c: "distinct (send_ids (SendOp_completeWithCb_with rs i status st2)) \<and>
      keeps_front k st (SendOp_completeWithCb_with rs i status st2)" if "ec \<noteq> EC_Success" for status
    using front_complete [OF assms(1) s(2) [OF that]] s(1) keeps_front_trans u(2) by blast
  have "keeps_front k st st2" "distinct (send_ids st2)" "keeps_front k st st"
    using s(1) keeps_front_trans u(2) k(2) by (auto simp: keeps_front_def)
  then show ?thesis
    using assms(3) d c k by (auto simp: SendOp_resume_with_def on_send_found Let_def split: if_splits)
qed

lemma fronts_fuel: "fronts (resumeSendOpsSince_fuel n E)"
proof (induction n)
  case (Suc n)
  have "distinct (send_ids (resumeSendOpsSince_fuel (Suc n) E k st)) \<and> keeps_front k st (resumeSendOpsSince_fuel (Suc n) E k st)"
    if d: "distinct (send_ids st)" "k \<le> length (m_sendOps st)" for k st
  proof (cases "k < length (m_sendOps st)")
    case True
    let ?op = "m_sendOps st ! k" and ?rs = "resumeSendOpsSince_fuel n E"
    obtain r st1 where r: "SendOp_resume_with ?rs E (snd_id ?op) st = (r, st1)" by (metis surj_pair)
    have 1: "distinct (send_ids st1) \<and> keeps_front k st st1"
      using front_resume [OF Suc _ r] d(1) True by (auto simp: sits_def)
    then have 2: "distinct (send_ids (?rs k st1)) \<and> keeps_front k st (?rs k st1)"
      using Suc keeps_front_trans [of k st st1] by (simp add: fronts_def) (simp add: keeps_front_def)
    have 3: "distinct (send_ids (?rs (k + 1) st)) \<and> keeps_front (k + 1) st (?rs (k + 1) st)"
      using Suc d(1) True unfolding fronts_def by auto
    then have "keeps_front k st (?rs (k + 1) st)"
      unfolding keeps_front_def by (metis Suc_eq_plus1 Suc_leD min.absorb1 take_take le_add1)
    then show ?thesis using True r 1 2 3 by (simp add: Let_def)
  qed (use d in \<open>simp add: keeps_front_def\<close>)
  then show ?case by (simp add: fronts_def)
qed (simp add: fronts_def keeps_front_def set_fault_def)

text \<open>The first publish still postponed from a position on may not be sent.\<close>

definition first_postponed_waits :: "nat \<Rightarrow> client \<Rightarrow> bool" where
  "first_postponed_waits idx st \<longleftrightarrow> (\<forall>k < length (m_sendOps st). idx \<le> k \<and> snd_paused (m_sendOps st ! k) \<and>
     (\<forall>j. idx \<le> j \<and> j < k \<longrightarrow> \<not> snd_paused (m_sendOps st ! j)) \<longrightarrow> \<not> SendOp_canSend (m_sendOps st ! k) st)"

lemma first_postponed_waits_skip:
  assumes "first_postponed_waits (idx + 1) st" "\<not> snd_paused (m_sendOps st ! idx)"
  shows "first_postponed_waits idx st"
  using assms unfolding first_postponed_waits_def by (metis Suc_eq_plus1 Suc_leD not_less_eq_eq le_antisym)

lemma resume_fuel_waits:
  assumes "distinct (send_ids st)" "resume_measure idx st < n"
  shows "first_postponed_waits idx (resumeSendOpsSince_fuel n E idx st)"
  using assms
proof (induction n arbitrary: idx st)
  case (Suc n)
  let ?ops = "m_sendOps st" and ?rs = "resumeSendOpsSince_fuel n E"
  consider (over) "\<not> idx < length ?ops"
    | (skip) "idx < length ?ops" "\<not> snd_paused (?ops ! idx)"
    | (postponed) "idx < length ?ops" "snd_paused (?ops ! idx)" by blast
  then show ?case
  proof cases
    case over
    then show ?thesis by (simp add: first_postponed_waits_def)
  next
    case skip
    then have "resume_measure (idx + 1) st < n" using Suc.prems by (simp add: resume_measure_def)
    note w = Suc.IH [OF Suc.prems(1) this]
    have "keeps_front (idx + 1) st (?rs (idx + 1) st)"
      using fronts_fuel [of n E] Suc.prems(1) skip(1) by (simp add: fronts_def)
    then have "m_sendOps (?rs (idx + 1) st) ! idx = ?ops ! idx"
      unfolding keeps_front_def by (metis less_add_one nth_take)
    then show ?thesis using first_postponed_waits_skip [OF w] skip by simp
  next
    case postponed
    let ?i = "snd_id (?ops ! idx)"
    have rb: "resumes_below ?rs idx (resume_measure idx st)"
      unfolding resumes_below_def using resume_fuel_enough Suc.prems(2) by (metis less_Suc_eq_le order_less_le_trans)
    obtain r st1 where r: "SendOp_resume_with ?rs E ?i st = (r, st1)" by (metis surj_pair)
    note s = resume_with_shrinks [OF Suc.prems(1) postponed(1) refl postponed(2) rb r]
    have "resume_measure idx st1 < n" if r
    proof -
      have "length (m_sendOps st1) \<le> length ?ops" using s(1) by (simp add: shrinks_def)
      then show ?thesis using s(2) [OF that] Suc.prems(2) unfolding resume_measure_def by linarith
    qed
    moreover have "distinct (send_ids st1)" using s(1) by (simp add: shrinks_def)
    moreover have "st1 = st \<and> \<not> SendOp_canSend (?ops ! idx) st" if "\<not> r"
      using r that Suc.prems(1) postponed by (auto simp: SendOp_resume_with_def on_send_found Let_def split_def split: if_splits)
    moreover have "first_postponed_waits idx st" if "\<not> SendOp_canSend (?ops ! idx) st"
      unfolding first_postponed_waits_def
    proof (intro allI impI, elim conjE)
      fix k assume "idx \<le> k" "\<forall>j. idx \<le> j \<and> j < k \<longrightarrow> \<not> snd_paused (?ops ! j)"
      then have "k = idx" using postponed(2) le_neq_implies_less by blast
      then show "\<not> SendOp_canSend (?ops ! k) st" using that by simp
    qed
    ultimately show ?thesis using Suc.IH postponed r by (cases r) (simp_all add: Let_def)
  qed
qed simp

text \<open>
  C18. The loop that resumes postponed publishes ends, whatever the publishes it sends complete and
  the resumptions these completions call in turn: it is not stopped by the bound of the model, and it
  satisfies the equation of the loop in the source. It stops in the right place: the first publish
  still postponed after it is one the ordering forbids to send.
\<close>

theorem resumption_ends:
  assumes "distinct (send_ids st)" "fault st \<noteq> Some OutOfFuel" "st' = resumeSendOpsSince E idx st"
  shows "fault st' \<noteq> Some OutOfFuel \<and> first_postponed_waits idx st' \<and>
    st' = (if idx < length (m_sendOps st) then
       if \<not> snd_paused (m_sendOps st ! idx) then resumeSendOpsSince E (idx + 1) st
       else let (resumed, st1) = SendOp_resume E (snd_id (m_sendOps st ! idx)) st
            in if \<not> resumed then st1 else resumeSendOpsSince E idx st1
     else st)"
proof (intro conjI)
  show "fault st' \<noteq> Some OutOfFuel"
    using resumeSendOpsSince_shrinks [OF assms(1), of E idx] assms(2,3) by (auto simp: shrinks_def)
  show "first_postponed_waits idx st'"
    unfolding assms(3) resumeSendOpsSince_def by (rule resume_fuel_waits [OF assms(1) resume_measure_fuel])
qed (unfold assms(3), rule resumeSendOpsSince_unfold [OF assms(1)])

text \<open>
  Three publishes are postponed behind one of QoS 2; the ordering is relaxed: all of them are sent.
\<close>

definition demo_postponed_st :: client where
  "demo_postponed_st = fold (run_call demo_env) ([CPublishOrdering PO_Full] @ demo_publish 2 2 @ demo_publish 1 3 @
     demo_publish 0 4 @ demo_publish 1 5) demo_connected_st"

theorem resumption_ends_witness:
  "let st = snd (setPublishOrdering demo_env PO_SameQos demo_postponed_st); st' = resumeSendOpsSince demo_env 0 st
   in map snd_paused (m_sendOps st) = [False, True, True, True] \<and> fault st' \<noteq> Some OutOfFuel \<and>
      first_postponed_waits 0 st' \<and> map snd_id (m_sendOps st') = [2, 3, 5] \<and> map snd_paused (m_sendOps st') = [False, False, False]"
proof -
  let ?st = "snd (setPublishOrdering demo_env PO_SameQos demo_postponed_st)"
  have st: "map snd_id (m_sendOps ?st) = [2, 3, 4, 5]" "map snd_paused (m_sendOps ?st) = [False, True, True, True]"
    "fault ?st = None" by code_simp+
  have "map snd_id (m_sendOps (resumeSendOpsSince demo_env 0 ?st)) = [2, 3, 5]"
    "map snd_paused (m_sendOps (resumeSendOpsSince demo_env 0 ?st)) = [False, False, False]" by code_simp+
  moreover have "distinct (send_ids ?st)" "fault ?st \<noteq> Some OutOfFuel" unfolding st by simp_all
  note resumption_ends [OF this refl, of demo_env 0]
  ultimately show ?thesis unfolding Let_def using st(2) by blast
qed

end
