(* ===== verification/One_Shot.thy ===== *)
theory One_Shot
  imports C_Interface Session_Props
begin

text \<open>
  The calls that prepare, configure and send an operation in one go, for the operations whose failures
  all come before the guard of the interface is entered: when such a call fails, nothing of it is left.
\<close>

section \<open>What a failed call leaves\<close>

definition pool_ids :: "client \<Rightarrow> u16 set" where
  "pool_ids st = set (m_allocatedPacketIds (m_packetIds (clientState st))) - {0}"

definition same_but :: "op_type \<Rightarrow> client \<Rightarrow> client \<Rightarrow> bool" where
  "same_but t a b \<longleftrightarrow> sessionState b = sessionState a \<and> configState b = configState a \<and>
     reuseState b = reuseState a \<and>
     m_connectOps b = m_connectOps a \<and> m_keepAliveOps b = m_keepAliveOps a \<and> m_disconnectOps b = m_disconnectOps a \<and>
     (t \<noteq> Type_Subscribe \<longrightarrow> m_subscribeOps b = m_subscribeOps a) \<and>
     (t \<noteq> Type_Unsubscribe \<longrightarrow> m_unsubscribeOps b = m_unsubscribeOps a) \<and>
     m_recvOps b = m_recvOps a \<and> m_sendOps b = m_sendOps a"

text \<open>
  The operations, the session, the lock and the packet identifiers in use are those of before; the identifier
  0 is left out, since the pool never takes it back.
\<close>

definition restored :: "client \<Rightarrow> client \<Rightarrow> bool" where
  "restored a b \<longleftrightarrow> same_but Type_Connect a b \<and> live_ops b = live_ops a \<and>
     m_preparationLocked b = m_preparationLocked a \<and> pool_ids b = pool_ids a"

text \<open>One operation is prepared on top of a state.\<close>

definition prepared :: "op_type \<Rightarrow> client \<Rightarrow> op_id \<Rightarrow> client \<Rightarrow> bool" where
  "prepared t a i b \<longleftrightarrow> same_but t a b \<and> live_ops b = live_ops a @ [(t, i)] \<and> (t, i) \<notin> set (live_ops a) \<and>
     \<not> m_preparationLocked a \<and> m_preparationLocked b \<and> pool_ids b = pool_ids a \<and>
     pids_wf (m_packetIds (clientState b))"

section \<open>The contract\<close>

locale one_shot =
  fixes ok :: "client \<Rightarrow> bool"
    and prepare :: "client \<Rightarrow> (op_id option \<times> ErrorCode) \<times> client"
    and config :: "'c \<Rightarrow> op_id \<Rightarrow> client \<Rightarrow> ErrorCode \<times> client"
    and cancel :: "op_id \<Rightarrow> client \<Rightarrow> ErrorCode \<times> client"
    and send :: "op_id \<Rightarrow> client \<Rightarrow> ErrorCode \<times> client"
    and P :: "client \<Rightarrow> op_id \<Rightarrow> client \<Rightarrow> bool"
  assumes refused: "prepare a = ((None, ec), b) \<Longrightarrow> restored a b"
    and accepted: "ok a \<Longrightarrow> prepare a = ((Some i, ec), b) \<Longrightarrow> P a i b"
    and configured: "P a i b \<Longrightarrow> config c i b = (ec, b') \<Longrightarrow> P a i b'"
    and cancelled: "P a i b \<Longrightarrow> cancel i b = (ec, b') \<Longrightarrow> restored a b'"
    and not_sent: "P a i b \<Longrightarrow> send i b = (ec, b') \<Longrightarrow> ec \<noteq> EC_Success \<Longrightarrow> restored a b'"
begin

lemma config_topics_prepared:
  assumes "P a i b" "config_topics (\<lambda>c. on_op EC_BadParam (config c) (Some i)) cs (Some b) = (ec, h)"
  shows "\<exists>b'. h = Some b' \<and> P a i b'"
  using assms
proof (induction cs arbitrary: b)
  case (Cons c cs)
  obtain ec1 b1 where c: "config c i b = (ec1, b1)" by (metis surj_pair)
  with Cons configured [OF Cons.prems(1) c] show ?case by (auto split: if_splits)
qed auto

lemma all_or_nothing:
  assumes "ok st"
    "(let ((p, ec), h1) = on_client (None, EC_BadParam) prepare (Some st) in
      if p = None then (ec, h1)
      else or_cancel (on_op EC_BadParam cancel p) (config_topics (\<lambda>c. on_op EC_BadParam (config c) p) cs h1)
             (on_op EC_BadParam send p)) = (ec, h)"
    "ec \<noteq> EC_Success"
  shows "\<exists>st'. h = Some st' \<and> restored st st'"
proof -
  obtain p ec1 st1 where p: "prepare st = ((p, ec1), st1)" by (metis surj_pair)
  show ?thesis
  proof (cases p)
    case None
    then show ?thesis using assms(2) refused p by auto
  next
    case (Some i)
    obtain ec2 h2 where 2: "config_topics (\<lambda>c. on_op EC_BadParam (config c) (Some i)) cs (Some st1) = (ec2, h2)"
      by (metis surj_pair)
    with accepted [OF assms(1)] p Some config_topics_prepared obtain st2 where st2: "h2 = Some st2" "P st i st2" by blast
    obtain ec3 st3 ec4 st4 where 3: "cancel i st2 = (ec3, st3)" "send i st2 = (ec4, st4)" by (metis surj_pair)
    have "(ec, h) = (if ec2 \<noteq> EC_Success then (ec2, Some st3) else (ec4, Some st4))"
      using assms(2) p Some 2 3 st2(1) by (auto simp: or_cancel_def split: if_splits)
    then show ?thesis
      using assms(3) cancelled [OF st2(2) 3(1)] not_sent [OF st2(2) 3(2)] by (auto split: if_splits)
  qed
qed

end

section \<open>Adding and removing one operation\<close>

lemma live_ops_forgotten:
  "List.map_filter id (ps[find_index (\<lambda>q. q = Some p) ps := None]) = remove1 p (List.map_filter id ps)"
  by (induction ps) (auto simp: List.map_filter_simps split: option.split)

lemma erase_last:
  "key op = i \<Longrightarrow> i \<notin> key ` set xs \<Longrightarrow> snd (eraseFromList key i (xs @ [op])) = xs"
  by (induction xs) (auto simp: eraseFromList_def erase_at_def Let_def)

lemma find_last: "key op = i \<Longrightarrow> i \<notin> key ` set xs \<Longrightarrow> find_by key i (xs @ [op]) = Some op"
  by (induction xs) (auto simp: find_by_def)

lemma upd_last: "key op = i \<Longrightarrow> i \<notin> key ` set xs \<Longrightarrow> upd_by key i f (xs @ [op]) = xs @ [f op]"
  by (induction xs) (auto simp: upd_by_def)

lemmas last_op = erase_last find_last upd_last

lemma listed:
  assumes "live_ops b = xs @ [ptr]"
  shows "\<not> length (m_ops b) \<le> find_index (\<lambda>q. q = Some ptr) (m_ops b)"
proof -
  have "Some ptr \<in> set (m_ops b)" using assms set_live_ops [of ptr b] by simp
  then show ?thesis using find_index_less_iff [of "\<lambda>q. q = Some ptr" "m_ops b"] by auto
qed

lemma dropped_subscribe:
  assumes "same_but Type_Subscribe a b" "m_subscribeOps b = m_subscribeOps a @ [op]" "sub_id op = i"
    "i \<notin> sub_id ` set (m_subscribeOps a)" "live_ops b = live_ops a @ [(Type_Subscribe, i)]"
    "(Type_Subscribe, i) \<notin> set (live_ops a)" "m_preparationLocked b = m_preparationLocked a"
    "pids_wf (m_packetIds (clientState b))" "pool_ids b - {sm_packetId (sub_subMsg op)} = pool_ids a"
  shows "restored a (opComplete E (Type_Subscribe, i) b)"
  using assms listed [OF assms(5)] last_op [of sub_id op i "m_subscribeOps a"]
  by (auto simp: restored_def same_but_def opComplete_def opComplete_with_def opComplete_Subscribe_def
      forget_op_def client_releasePacketId_def Let_def live_ops_def live_ops_forgotten remove1_append pool_ids_def
      set_releasePacketId)

lemma dropped_unsubscribe:
  assumes "same_but Type_Unsubscribe a b" "m_unsubscribeOps b = m_unsubscribeOps a @ [op]" "unsub_id op = i"
    "i \<notin> unsub_id ` set (m_unsubscribeOps a)" "live_ops b = live_ops a @ [(Type_Unsubscribe, i)]"
    "(Type_Unsubscribe, i) \<notin> set (live_ops a)" "m_preparationLocked b = m_preparationLocked a"
    "pids_wf (m_packetIds (clientState b))" "pool_ids b - {um_packetId (unsub_unsubMsg op)} = pool_ids a"
  shows "restored a (opComplete E (Type_Unsubscribe, i) b)"
  using assms listed [OF assms(5)] last_op [of unsub_id op i "m_unsubscribeOps a"]
  by (auto simp: restored_def same_but_def opComplete_def opComplete_with_def opComplete_Unsubscribe_def
      forget_op_def client_releasePacketId_def Let_def live_ops_def live_ops_forgotten remove1_append pool_ids_def
      set_releasePacketId)

lemma allocated_pool:
  assumes "pids_wf (m_packetIds (clientState st))" "client_allocPacketId E st = (pid, st')"
  shows "pids_wf (m_packetIds (clientState st'))" "pool_ids st' - {pid} = pool_ids st"
proof -
  let ?p = "m_packetIds (clientState st)" and ?lim = "PacketIdsLimit E"
  have "pids_wf (m_packetIds (clientState st')) \<and> pool_ids st' - {pid} = pool_ids st"
  proof (cases "pids_full ?lim ?p")
    case False
    with alloc_returns [OF assms(1) False] assms show ?thesis
      by (auto simp: client_allocPacketId_def pool_ids_def pids_wf_def set_lb_insert strict_sorted_lb_insert)
  qed (use assms in \<open>auto simp: client_allocPacketId_def pool_ids_def alloc_full\<close>)
  then show "pids_wf (m_packetIds (clientState st'))" "pool_ids st' - {pid} = pool_ids st" by auto
qed

lemma allocated_frame:
  assumes "client_allocPacketId E st = (pid, st')"
  shows "same_but t st st'" "m_subscribeOps st' = m_subscribeOps st" "m_unsubscribeOps st' = m_unsubscribeOps st"
    "m_ops st' = m_ops st" "m_preparationLocked st' = m_preparationLocked st"
  using assms by (auto simp: same_but_def client_allocPacketId_def Let_def split: option.splits prod.splits if_splits)

lemma sendMessage_frame:
  assumes "sendMessage E msg st = (result, st')"
  shows "same_but t st st'" "m_subscribeOps st' = m_subscribeOps st" "m_unsubscribeOps st' = m_unsubscribeOps st"
    "m_ops st' = m_ops st" "m_preparationLocked st' = m_preparationLocked st" "clientState st' = clientState st"
proof -
  have "core st' = core st" using core_sendMessage [of E msg st] assms by simp
  note k = core_eqD [OF this]
  show "same_but t st st'" "m_subscribeOps st' = m_subscribeOps st" "m_unsubscribeOps st' = m_unsubscribeOps st"
    "m_ops st' = m_ops st" "m_preparationLocked st' = m_preparationLocked st" "clientState st' = clientState st"
    by (simp_all add: same_but_def k)
qed

lemmas kept = same_but_def live_ops_def pool_ids_def

lemma restored_errorLog: "restored a (errorLog E a)"
  by (simp add: restored_def kept)

section \<open>Subscription\<close>

definition sub_prepared :: "client \<Rightarrow> op_id \<Rightarrow> client \<Rightarrow> bool" where
  "sub_prepared a i b \<longleftrightarrow> prepared Type_Subscribe a i b \<and> i \<notin> sub_id ` set (m_subscribeOps a) \<and>
     (\<exists>op. m_subscribeOps b = m_subscribeOps a @ [op] \<and> sub_id op = i \<and> sub_cb op = None \<and>
        sm_packetId (sub_subMsg op) = 0)"

lemma fresh_ptr:
  assumes "client_inv a"
  shows "(t, next_id a) \<notin> set (live_ops a)" "next_id a \<notin> sub_id ` set (m_subscribeOps a)"
    "next_id a \<notin> unsub_id ` set (m_unsubscribeOps a)" "pids_wf (m_packetIds (clientState a))"
proof -
  have wf: "ops_wf a" using assms by (simp add: client_inv_def)
  then have f: "(t, next_id a) \<notin> set (all_ptrs a)" for t by (force simp: ops_wf_def)
  then show "(t, next_id a) \<notin> set (live_ops a)" using ops_wf_live_iff [OF wf] set_live_ops by blast
  show "next_id a \<notin> sub_id ` set (m_subscribeOps a)" "next_id a \<notin> unsub_id ` set (m_unsubscribeOps a)"
    using f [of Type_Subscribe] f [of Type_Unsubscribe] by (auto simp: all_ptrs_def)
  show "pids_wf (m_packetIds (clientState a))" using assms by (simp add: client_inv_def pid_own_def)
qed

lemma subscribe_accepted:
  assumes "codec_ok E" "client_inv a" "subscribePrepare E a = ((Some i, ec), b)"
  shows "sub_prepared a i b"
proof -
  obtain t tm where t: "allocTimer (TimersLimit E) (timerMgr a) = (t, tm)" by (metis surj_pair)
  show ?thesis
    using assms(1,3) fresh_ptr [OF assms(2)]
    by (auto simp: subscribePrepare_def refuse_def SubscribeOp_new_def client_allocTimer_def fresh_id_def t Let_def
        lock_prepare_def push_op_def sub_prepared_def prepared_def kept codec_ok_def List.map_filter_simps
        split: if_splits)
qed

lemma sub_prepared_core: "sub_prepared a i (core b) = sub_prepared a i b"
  by (simp add: sub_prepared_def prepared_def kept core_def)

lemma subscribe_configured:
  assumes "sub_prepared a i b" "SubscribeOp_configTopic E c i b = (ec, b')"
  shows "sub_prepared a i b'"
proof -
  obtain op where op: "m_subscribeOps b = m_subscribeOps a @ [op]" "sub_id op = i" "i \<notin> sub_id ` set (m_subscribeOps a)"
    using assms(1) by (auto simp: sub_prepared_def)
  have u: "sub_prepared a i (upd_subMsg i (\<lambda>m. m\<lparr>sm_list := sm_list m @ [x]\<rparr>) b)" for x
    using assms(1) op(1) last_op(3) [OF op(2,3)]
    by (auto simp: upd_subMsg_def sub_prepared_def prepared_def kept)
  have "core (upd_subMsg i f (log_opt E l b)) = core (upd_subMsg i f b)" "core (log_opt E l b) = core b" for f l
    by (simp_all add: log_opt_def core_def upd_subMsg_def errorLog_def emit_def split: option.split)
  then have "core b' = core b \<or>
      core b' = core (upd_subMsg i (\<lambda>m. m\<lparr>sm_list := sm_list m @ [(c_arg (stc_topic c), stc_maxQos c)]\<rparr>) b)"
    using assms(2) op(1) last_op(2) [OF op(2,3)]
    by (auto simp: SubscribeOp_configTopic_def on_subscribe_ret_def follow_ret_def Op_verifySubFilter_def Let_def split_def
        split: if_splits)
  moreover have "sub_prepared a i b'" if "core b' = core s" "sub_prepared a i s" for s
    using that sub_prepared_core [of a i b'] sub_prepared_core [of a i s] by simp
  ultimately show ?thesis using assms(1) u by blast
qed

lemma subscribe_cancelled:
  assumes "sub_prepared a i b" "SubscribeOp_cancel E i b = (ec, b')"
  shows "restored a b'"
proof -
  obtain op where op: "m_subscribeOps b = m_subscribeOps a @ [op]" "sub_id op = i" "i \<notin> sub_id ` set (m_subscribeOps a)"
    "sub_cb op = None" "sm_packetId (sub_subMsg op) = 0" and p: "prepared Type_Subscribe a i b"
    using assms(1) by (auto simp: sub_prepared_def)
  then have b': "b' = opComplete E (Type_Subscribe, i) (allowNextPrepare b)"
    using assms(2) last_op [OF op(2,3)] by (simp add: SubscribeOp_cancel_def on_subscribe_ret_def follow_ret_def Let_def)
  show ?thesis unfolding b'
    by (rule dropped_subscribe [OF _ _ op(2,3)]) (use op p in \<open>auto simp: prepared_def allowNextPrepare_def kept\<close>)
qed

lemma subscribe_not_sent:
  assumes "sub_prepared a i b" "SubscribeOp_send E elapsed cb i b = (ec, b')" "ec \<noteq> EC_Success"
  shows "restored a b'"
proof -
  obtain op where op: "m_subscribeOps b = m_subscribeOps a @ [op]" "sub_id op = i" "i \<notin> sub_id ` set (m_subscribeOps a)"
    "sub_cb op = None" "sm_packetId (sub_subMsg op) = 0" and p: "prepared Type_Subscribe a i b"
    using assms(1) by (auto simp: sub_prepared_def)
  let ?s = "allowNextPrepare b"
  obtain pid s2 where pid: "client_allocPacketId E ?s = (pid, s2)" by (metis surj_pair)
  define msg where "msg = (sub_subMsg op)\<lparr>sm_packetId := pid\<rparr>"
  define s3 where "s3 = upd_subscribe i (\<lambda>op. op\<lparr>sub_cb := cb, sub_subMsg := msg\<rparr>) s2"
  obtain result s4 where m: "sendMessage E (MSubscribe msg) s3 = (result, s4)" by (metis surj_pair)
  have "pids_wf (m_packetIds (clientState ?s))" using p by (simp add: allowNextPrepare_def prepared_def)
  note pool = allocated_pool [OF this pid] and f2 = allocated_frame [OF pid] and f4 = sendMessage_frame [OF m]
  have "b' = opComplete E (Type_Subscribe, i) (errorLog E ?s) \<or> b' = opComplete E (Type_Subscribe, i) s4"
    using assms(2,3) op(1) last_op(2) [OF op(2,3)] pid m [unfolded s3_def msg_def]
    by (auto simp: SubscribeOp_send_def on_subscribe_ret_def follow_ret_def Let_def split: if_splits)
  moreover have "restored a (opComplete E (Type_Subscribe, i) (errorLog E ?s))"
    by (rule dropped_subscribe [OF _ _ op(2,3)]) (use op p in \<open>auto simp: prepared_def allowNextPrepare_def kept\<close>)
  moreover have "restored a (opComplete E (Type_Subscribe, i) s4)"
  proof (rule dropped_subscribe [OF _ _ _ op(3), of _ "op\<lparr>sub_cb := cb, sub_subMsg := msg\<rparr>"])
    show "m_subscribeOps s4 = m_subscribeOps a @ [op\<lparr>sub_cb := cb, sub_subMsg := msg\<rparr>]"
      using f2(2) f4(2) op(1) last_op [OF op(2,3)] by (simp add: s3_def upd_subscribe_def allowNextPrepare_def)
  qed (use op(2) p pool f2(1) [of Type_Subscribe] f2(4,5) f4(1) [of Type_Subscribe] f4(4-6) in
      \<open>auto simp: prepared_def s3_def upd_subscribe_def allowNextPrepare_def kept msg_def\<close>)
  ultimately show ?thesis by auto
qed

lemma subscribe_refused:
  "subscribePrepare E a = ((None, ec), b) \<Longrightarrow> restored a b"
  using restored_errorLog [of a E]
  by (auto simp: subscribePrepare_def refuse_def Let_def split: if_splits prod.splits)

section \<open>Unsubscription\<close>

definition unsub_prepared :: "client \<Rightarrow> op_id \<Rightarrow> client \<Rightarrow> bool" where
  "unsub_prepared a i b \<longleftrightarrow> prepared Type_Unsubscribe a i b \<and> i \<notin> unsub_id ` set (m_unsubscribeOps a) \<and>
     (\<exists>op. m_unsubscribeOps b = m_unsubscribeOps a @ [op] \<and> unsub_id op = i \<and> unsub_cb op = None \<and>
        um_packetId (unsub_unsubMsg op) = 0)"

lemma unsubscribe_accepted:
  assumes "codec_ok E" "client_inv a" "unsubscribePrepare E a = ((Some i, ec), b)"
  shows "unsub_prepared a i b"
proof -
  obtain t tm where t: "allocTimer (TimersLimit E) (timerMgr a) = (t, tm)" by (metis surj_pair)
  show ?thesis
    using assms(1,3) fresh_ptr [OF assms(2)]
    by (auto simp: unsubscribePrepare_def refuse_def UnsubscribeOp_new_def client_allocTimer_def fresh_id_def t Let_def
        lock_prepare_def push_op_def unsub_prepared_def prepared_def kept codec_ok_def List.map_filter_simps
        split: if_splits)
qed

lemma unsub_prepared_core: "unsub_prepared a i (core b) = unsub_prepared a i b"
  by (simp add: unsub_prepared_def prepared_def kept core_def)

lemma unsubscribe_configured:
  assumes "unsub_prepared a i b" "UnsubscribeOp_configTopic E c i b = (ec, b')"
  shows "unsub_prepared a i b'"
proof -
  obtain op where op: "m_unsubscribeOps b = m_unsubscribeOps a @ [op]" "unsub_id op = i" "i \<notin> unsub_id ` set (m_unsubscribeOps a)"
    using assms(1) by (auto simp: unsub_prepared_def)
  have u: "unsub_prepared a i (upd_unsubMsg i (\<lambda>m. m\<lparr>um_list := um_list m @ [x]\<rparr>) b)" for x
    using assms(1) op(1) last_op(3) [OF op(2,3)]
    by (auto simp: upd_unsubMsg_def unsub_prepared_def prepared_def kept)
  have "core (upd_unsubMsg i f (log_opt E l b)) = core (upd_unsubMsg i f b)" "core (log_opt E l b) = core b" for f l
    by (simp_all add: log_opt_def core_def upd_unsubMsg_def errorLog_def emit_def split: option.split)
  then have "core b' = core b \<or>
      core b' = core (upd_unsubMsg i (\<lambda>m. m\<lparr>um_list := um_list m @ [c_arg (utc_topic c)]\<rparr>) b)"
    using assms(2) op(1) last_op(2) [OF op(2,3)]
    by (auto simp: UnsubscribeOp_configTopic_def on_unsubscribe_ret_def follow_ret_def Op_verifySubFilter_def Let_def split_def
        split: if_splits)
  moreover have "unsub_prepared a i b'" if "core b' = core s" "unsub_prepared a i s" for s
    using that unsub_prepared_core [of a i b'] unsub_prepared_core [of a i s] by simp
  ultimately show ?thesis using assms(1) u by blast
qed

lemma unsubscribe_cancelled:
  assumes "unsub_prepared a i b" "UnsubscribeOp_cancel E i b = (ec, b')"
  shows "restored a b'"
proof -
  obtain op where op: "m_unsubscribeOps b = m_unsubscribeOps a @ [op]" "unsub_id op = i" "i \<notin> unsub_id ` set (m_unsubscribeOps a)"
    "unsub_cb op = None" "um_packetId (unsub_unsubMsg op) = 0" and p: "prepared Type_Unsubscribe a i b"
    using assms(1) by (auto simp: unsub_prepared_def)
  then have b': "b' = opComplete E (Type_Unsubscribe, i) (allowNextPrepare b)"
    using assms(2) last_op [OF op(2,3)] by (simp add: UnsubscribeOp_cancel_def on_unsubscribe_ret_def follow_ret_def Let_def)
  show ?thesis unfolding b'
    by (rule dropped_unsubscribe [OF _ _ op(2,3)]) (use op p in \<open>auto simp: prepared_def allowNextPrepare_def kept\<close>)
qed

lemma unsubscribe_not_sent:
  assumes "unsub_prepared a i b" "UnsubscribeOp_send E elapsed cb i b = (ec, b')" "ec \<noteq> EC_Success"
  shows "restored a b'"
proof -
  obtain op where op: "m_unsubscribeOps b = m_unsubscribeOps a @ [op]" "unsub_id op = i" "i \<notin> unsub_id ` set (m_unsubscribeOps a)"
    "unsub_cb op = None" "um_packetId (unsub_unsubMsg op) = 0" and p: "prepared Type_Unsubscribe a i b"
    using assms(1) by (auto simp: unsub_prepared_def)
  let ?s = "allowNextPrepare b"
  obtain pid s2 where pid: "client_allocPacketId E ?s = (pid, s2)" by (metis surj_pair)
  define msg where "msg = (unsub_unsubMsg op)\<lparr>um_packetId := pid\<rparr>"
  define s3 where "s3 = upd_unsubscribe i (\<lambda>op. op\<lparr>unsub_cb := cb, unsub_unsubMsg := msg\<rparr>) s2"
  obtain result s4 where m: "sendMessage E (MUnsubscribe msg) s3 = (result, s4)" by (metis surj_pair)
  have "pids_wf (m_packetIds (clientState ?s))" using p by (simp add: allowNextPrepare_def prepared_def)
  note pool = allocated_pool [OF this pid] and f2 = allocated_frame [OF pid] and f4 = sendMessage_frame [OF m]
  have "b' = opComplete E (Type_Unsubscribe, i) (errorLog E ?s) \<or> b' = opComplete E (Type_Unsubscribe, i) s4"
    using assms(2,3) op(1) last_op(2) [OF op(2,3)] pid m [unfolded s3_def msg_def]
    by (auto simp: UnsubscribeOp_send_def on_unsubscribe_ret_def follow_ret_def Let_def split: if_splits)
  moreover have "restored a (opComplete E (Type_Unsubscribe, i) (errorLog E ?s))"
    by (rule dropped_unsubscribe [OF _ _ op(2,3)]) (use op p in \<open>auto simp: prepared_def allowNextPrepare_def kept\<close>)
  moreover have "restored a (opComplete E (Type_Unsubscribe, i) s4)"
  proof (rule dropped_unsubscribe [OF _ _ _ op(3), of _ "op\<lparr>unsub_cb := cb, unsub_unsubMsg := msg\<rparr>"])
    show "m_unsubscribeOps s4 = m_unsubscribeOps a @ [op\<lparr>unsub_cb := cb, unsub_unsubMsg := msg\<rparr>]"
      using f2(3) f4(3) op(1) last_op [OF op(2,3)] by (simp add: s3_def upd_unsubscribe_def allowNextPrepare_def)
  qed (use op(2) p pool f2(1) [of Type_Unsubscribe] f2(4,5) f4(1) [of Type_Unsubscribe] f4(4-6) in
      \<open>auto simp: prepared_def s3_def upd_unsubscribe_def allowNextPrepare_def kept msg_def\<close>)
  ultimately show ?thesis by auto
qed

lemma unsubscribe_refused:
  "unsubscribePrepare E a = ((None, ec), b) \<Longrightarrow> restored a b"
  using restored_errorLog [of a E]
  by (auto simp: unsubscribePrepare_def refuse_def Let_def split: if_splits prod.splits)

section \<open>The calls\<close>

interpretation subscription: one_shot "\<lambda>a. codec_ok E \<and> client_inv a" "subscribePrepare E" "SubscribeOp_configTopic E"
  "SubscribeOp_cancel E" "SubscribeOp_send E elapsed cb" sub_prepared
  by unfold_locales (blast intro: subscribe_refused subscribe_accepted subscribe_configured subscribe_cancelled
      subscribe_not_sent)+

interpretation unsubscription: one_shot "\<lambda>a. codec_ok E \<and> client_inv a" "unsubscribePrepare E"
  "UnsubscribeOp_configTopic E" "UnsubscribeOp_cancel E" "UnsubscribeOp_send E elapsed cb" unsub_prepared
  by unfold_locales (blast intro: unsubscribe_refused unsubscribe_accepted unsubscribe_configured unsubscribe_cancelled
      unsubscribe_not_sent)+

lemma config_topic_given:
  "client_subscribe_config_topic E (Some c) = on_op EC_BadParam (SubscribeOp_configTopic E c)"
  "client_unsubscribe_config_topic E (Some c') = on_op EC_BadParam (UnsubscribeOp_configTopic E c')"
  by (simp_all add: fun_eq_iff client_subscribe_config_topic_def client_unsubscribe_config_topic_def)

text \<open>
  C21. A call that subscribes or unsubscribes in one go either succeeds or leaves nothing behind. Whatever
  fails, the preparation, the configuration of one of the topics or the sending, the operations in progress, the
  registry, the session, the confirmed filters, the preparation lock and the packet identifiers in use are
  afterwards what they were before.
\<close>

theorem one_shot_all_or_nothing:
  assumes "codec_ok E" "client_reach E st" "ec \<noteq> EC_Success"
    "client_subscribe E elapsed topics cb (Some st) = (ec, h) \<or>
     client_unsubscribe E elapsed topics' cb (Some st) = (ec, h)"
  shows "\<exists>st'. h = Some st' \<and> sessionState st' = sessionState st \<and> reuseState st' = reuseState st \<and>
    all_ptrs st' = all_ptrs st \<and> live_ops st' = live_ops st \<and>
    m_preparationLocked st' = m_preparationLocked st \<and> pool_ids st' = pool_ids st"
proof -
  have i: "codec_ok E \<and> client_inv st" using assms(1,2) reach_inv by blast
  have "\<exists>st'. h = Some st' \<and> restored st st'"
    using assms(4)
  proof
    assume "client_subscribe E elapsed topics cb (Some st) = (ec, h)"
    from subscription.all_or_nothing [OF i this [unfolded client_subscribe_def client_subscribe_prepare_def
          client_subscribe_cancel_def client_subscribe_send_def config_topic_given] assms(3)]
    show ?thesis .
  next
    assume "client_unsubscribe E elapsed topics' cb (Some st) = (ec, h)"
    from unsubscription.all_or_nothing [OF i this [unfolded client_unsubscribe_def client_unsubscribe_prepare_def
          client_unsubscribe_cancel_def client_unsubscribe_send_def config_topic_given] assms(3)]
    show ?thesis .
  qed
  then show ?thesis by (auto simp: restored_def same_but_def all_ptrs_def)
qed

text \<open>The second topic is empty: the operation that was prepared for the first one is gone again.\<close>

theorem one_shot_all_or_nothing_witness:
  "\<exists>st'. client_subscribe demo_env 0 [\<lparr>stc_topic = Some ''a'', stc_maxQos = 1\<rparr>, \<lparr>stc_topic = Some [], stc_maxQos = 1\<rparr>]
       (Some 1) (Some demo_connected_st) = (EC_BadParam, Some st') \<and>
     all_ptrs st' = all_ptrs demo_connected_st \<and> \<not> m_preparationLocked st'"
proof -
  let ?call = "client_subscribe demo_env 0 [\<lparr>stc_topic = Some ''a'', stc_maxQos = 1\<rparr>, \<lparr>stc_topic = Some [], stc_maxQos = 1\<rparr>]
       (Some 1) (Some demo_connected_st)"
  have "fst ?call = EC_BadParam" "\<not> m_preparationLocked demo_connected_st" by code_simp+
  then obtain h where h: "?call = (EC_BadParam, h)" "\<not> m_preparationLocked demo_connected_st" by (metis prod.collapse)
  from one_shot_all_or_nothing [OF codec_ok_demo demo_reach(1) _ disjI1 [OF h(1)]] h show ?thesis by auto
qed

end
