(* ===== verification/App_Requests.thy ===== *)
theory App_Requests
  imports App_Client Delivery_Props One_Shot
begin

text \<open>
  What the applications ask the library for. Both make their request from inside the callback that
  reports the connection; the properties are about the packet this makes the library send.
\<close>

section \<open>A callback\<close>

text \<open>
  Inside a callback of \<open>processData\<close> the interface is entered once, so that entering it again neither
  advances the time nor cleans up.
\<close>

definition in_callback :: "client \<Rightarrow> bool" where
  "in_callback st \<longleftrightarrow> m_apiEnterCount st = 1 \<and> has_sendOutputDataCb st"

lemma nested_enter: "m_apiEnterCount st = 1 \<Longrightarrow> doApiEnter E elapsed st = st\<lparr>m_apiEnterCount := 2\<rparr>"
  by (simp add: doApiEnter_def Let_def)

lemma nested_exit: "m_apiEnterCount st = 2 \<Longrightarrow> doApiExit st = st\<lparr>m_apiEnterCount := 1\<rparr>"
  by (simp add: doApiExit_def Let_def)

lemma packets_complete [simp]: "packets (EvPublishComplete cb i status # es) = packets es"
  by (simp add: packets_def List.map_filter_simps)

text \<open>Everything but the history, as far as a callback is concerned.\<close>

definition same_place :: "client \<Rightarrow> client \<Rightarrow> bool" where
  "same_place st st' \<longleftrightarrow> m_apiEnterCount st' = m_apiEnterCount st \<and> has_sendOutputDataCb st' = has_sendOutputDataCb st \<and>
     packets (out st') = packets (out st)"

lemma same_place_errorLog [simp]: "same_place st (errorLog E st)"
  by (simp add: same_place_def errorLog_def emit_def)

lemma allocPacketId_place:
  assumes "client_allocPacketId E st = (pid, st')"
  shows "same_place st st'" "m_sendOps st' = m_sendOps st" "m_subscribeOps st' = m_subscribeOps st"
  using assms by (auto simp: client_allocPacketId_def same_place_def errorLog_def emit_def set_fault_def Let_def
      split: option.splits if_splits)

lemma sendMessage_place:
  assumes "sendMessage E msg st = (EC_Success, st')" "has_sendOutputDataCb st"
  obtains buf where "frame_write E msg = Some buf" "packets (out st') = packets (out st) @ [buf]"
    "m_apiEnterCount st' = m_apiEnterCount st" "m_sendOps st' = m_sendOps st" "m_subscribeOps st' = m_subscribeOps st"
proof -
  have "m_apiEnterCount (fold KeepAliveOp_messageSent kas s) = m_apiEnterCount s \<and>
    m_sendOps (fold KeepAliveOp_messageSent kas s) = m_sendOps s \<and>
    m_subscribeOps (fold KeepAliveOp_messageSent kas s) = m_subscribeOps s" for kas s
    by (induction kas arbitrary: s) (simp_all add: KeepAliveOp_messageSent_def)
  then show ?thesis using assms that
    by (auto simp: sendMessage_def Let_def emit_def split: if_splits option.splits)
qed

section \<open>The publisher\<close>

lemma publish_prepared:
  assumes "publishPrepare E st = ((Some i, ec), st')" "m_sendOps st = []"
  obtains op where "m_sendOps st' = [op]" "snd_id op = i" "snd_pubMsg op = PublishMsg_init E" "same_place st st'"
  using assms by (auto simp: publishPrepare_def refuse_def SendOp_new_def client_allocTimer_def fresh_id_def lock_prepare_def
      push_op_def set_fault_def same_place_def Let_def split: if_splits prod.splits)

lemma log_opt_place [simp]:
  "m_apiEnterCount (log_opt E l st) = m_apiEnterCount st" "has_sendOutputDataCb (log_opt E l st) = has_sendOutputDataCb st"
  "packets (out (log_opt E l st)) = packets (out st)" "m_sendOps (log_opt E l st) = m_sendOps st"
  "m_subscribeOps (log_opt E l st) = m_subscribeOps st"
  by (simp_all add: log_opt_def errorLog_def emit_def split: option.split)

lemma publish_configured:
  assumes "SendOp_config E c i st = (EC_Success, st')" "m_sendOps st = [op]" "snd_id op = i"
  shows "m_sendOps st' = [op\<lparr>snd_pubMsg := (snd_pubMsg op)\<lparr>pm_retain := pc_retain c, pm_qos := pc_qos c,
      pm_topic := c_arg (pc_topic c), pm_payload := pub_payload c (pm_payload (snd_pubMsg op))\<rparr>\<rparr>]"
    "same_place st st'"
  using assms
  by (auto simp: SendOp_config_def on_send_ret_def follow_ret_def find_by_def upd_pub_def upd_send_def upd_by_def set_fault_def
      Op_verifyPubTopic_def same_place_def Let_def split: if_splits prod.splits)

lemma only_send_canSend: "m_sendOps st = [op'] \<Longrightarrow> snd_id op = snd_id op' \<Longrightarrow> SendOp_canSend op st"
  by (simp add: SendOp_canSend_def hasPausedSendsBefore_def hasHigherQosSendsBefore_def find_index_def Let_def)

lemma only_send_completed:
  assumes "m_sendOps st = [op]" "st' = SendOp_completeWithCb E (snd_id op) status st"
  shows "packets (out st') = packets (out st)" "m_apiEnterCount st' = m_apiEnterCount st"
  using assms
  by (auto simp: SendOp_completeWithCb_def SendOp_completeWithCb_with_def on_send_def follow_def find_by_def opComplete_with_def
      opComplete_Send_def erase_Send_def forget_op_def eraseFromList_def client_releasePacketId_def on_timers_def
      resumeSendOpsSince_def send_fuel_def emit_def Let_def numeral_2_eq_2 split: option.splits)

lemma doSend_place:
  assumes "SendOp_doSendInternal E (snd_id op) st = (EC_Success, st')" "m_sendOps st = [op]" "has_sendOutputDataCb st"
  shows "\<exists>buf. frame_write E (MPublish (snd_pubMsg op)) = Some buf \<and> packets (out st') = packets (out st) @ [buf]"
    "m_apiEnterCount st' = m_apiEnterCount st"
proof -
  let ?s1 = "upd_send (snd_id op) (\<lambda>op. op\<lparr>snd_sendAttempts := 0\<rparr>) st"
  have one: "m_sendOps ?s1 = [op\<lparr>snd_sendAttempts := 0\<rparr>]" using assms(2) by (simp add: upd_send_def upd_by_def)
  obtain s2 where m: "sendMessage E (MPublish (snd_pubMsg op)) ?s1 = (EC_Success, s2)"
    using assms(1,2) by (auto simp: SendOp_doSendInternal_def SendOp_doSendInternal_with_def on_send_ret_def follow_ret_def
        find_by_def Let_def split: prod.splits if_splits)
  have cb: "has_sendOutputDataCb ?s1" using assms(3) by (simp add: upd_send_def)
  obtain buf where buf: "frame_write E (MPublish (snd_pubMsg op)) = Some buf" "packets (out s2) = packets (out ?s1) @ [buf]"
    "m_apiEnterCount s2 = m_apiEnterCount ?s1" "m_sendOps s2 = m_sendOps ?s1"
    by (rule sendMessage_place [OF m cb])
  define s3 where "s3 = upd_send (snd_id op) (\<lambda>op. op\<lparr>snd_published := True, snd_sendAttempts := snd_sendAttempts op + 1\<rparr>) s2"
  have s3: "m_sendOps s3 = [op\<lparr>snd_sendAttempts := 1, snd_published := True\<rparr>]" "packets (out s3) = packets (out st) @ [buf]"
    "m_apiEnterCount s3 = m_apiEnterCount st"
    using one buf by (simp_all add: s3_def upd_send_def upd_by_def)
  have st': "st' = (if pm_qos (snd_pubMsg op) = AtMostOnceDelivery then SendOp_completeWithCb E (snd_id op) ST_Complete s3
      else SendOp_restartResponseTimer op s3)"
    using assms(1,2) m unfolding s3_def
    by (auto simp: SendOp_doSendInternal_def SendOp_doSendInternal_with_def SendOp_completeWithCb_def on_send_ret_def
        follow_ret_def find_by_def Let_def split: if_splits)
  note completed = only_send_completed [OF s3(1) refl, of E ST_Complete]
  show "m_apiEnterCount st' = m_apiEnterCount st"
    using st' s3 completed by (simp add: SendOp_restartResponseTimer_def on_timers_def)
  show "\<exists>buf. frame_write E (MPublish (snd_pubMsg op)) = Some buf \<and> packets (out st') = packets (out st) @ [buf]"
    using st' s3 completed buf(1) by (simp add: SendOp_restartResponseTimer_def on_timers_def)
qed

lemma publish_sent:
  assumes "SendOp_send E elapsed cb i st = (EC_Success, st')" "m_sendOps st = [op]" "snd_id op = i" "in_callback st"
  shows "\<exists>pid buf. frame_write E (MPublish (publish_refresh E ((snd_pubMsg op)\<lparr>pm_packetId := pid\<rparr>))) = Some buf \<and>
    packets (out st') = packets (out st) @ [buf]"
proof -
  let ?s1 = "allowNextPrepare st"
  obtain op' s2 where a: "SendOp_assign E cb op ?s1 = (op', s2)" by (metis surj_pair)
  obtain pid where op': "snd_id op' = i" "snd_pubMsg op' = publish_refresh E ((snd_pubMsg op)\<lparr>pm_packetId := pid\<rparr>)"
    and s2: "m_sendOps s2 = [op']" "same_place st s2"
  proof (cases "AtMostOnceDelivery < pm_qos (snd_pubMsg op)")
    case True
    obtain pid s where p: "client_allocPacketId E ?s1 = (pid, s)" by (metis surj_pair)
    show ?thesis using a True p allocPacketId_place [OF p] assms(2,3)
      by (intro that [of pid]) (auto simp: SendOp_assign_def Let_def upd_send_def upd_by_def same_place_def allowNextPrepare_def)
  next
    case False
    show ?thesis using a False assms(2,3)
      by (intro that [of "pm_packetId (snd_pubMsg op)"])
        (auto simp: SendOp_assign_def Let_def upd_send_def upd_by_def same_place_def allowNextPrepare_def)
  qed
  have c: "m_apiEnterCount s2 = 1" "has_sendOutputDataCb s2" "packets (out s2) = packets (out st)"
    using s2(2) assms(4) by (simp_all add: same_place_def in_callback_def)
  let ?s3 = "s2\<lparr>m_apiEnterCount := 2\<rparr>"
  obtain s4 where d: "SendOp_doSendInternal E i ?s3 = (EC_Success, s4)" "st' = doApiExit s4"
    using assms(1-3) a only_send_canSend [OF s2(1), of op'] op'(1) nested_enter [OF c(1)]
    by (auto simp: SendOp_send_def on_send_ret_def follow_ret_def find_by_def Let_def split: if_splits prod.splits)
  have "m_sendOps ?s3 = [op']" "has_sendOutputDataCb ?s3" using s2 c by simp_all
  note sent = doSend_place [OF d(1) [folded op'(1)] this]
  then have "out st' = out s4" using nested_exit [of s4] d(2) by simp
  with sent(1) c(3) op'(2) show ?thesis by auto
qed

lemma client_publish_steps:
  assumes "client_publish E elapsed (Some c) cb (Some st) = (EC_Success, h)"
  obtains i ec st1 st2 st3 where "publishPrepare E st = ((Some i, ec), st1)" "SendOp_config E c i st1 = (EC_Success, st2)"
    "SendOp_send E elapsed cb i st2 = (EC_Success, st3)" "h = Some st3"
proof -
  obtain p ec st1 where p: "publishPrepare E st = ((p, ec), st1)" by (metis surj_pair)
  have ok: "ec = EC_Success \<Longrightarrow> p \<noteq> None"
    using p by (auto simp: publishPrepare_def refuse_def Let_def split: if_splits prod.splits)
  obtain ec2 st2 where c: "SendOp_config E c (the p) st1 = (ec2, st2)" by (metis surj_pair)
  obtain ec3 st3 where s: "SendOp_send E elapsed cb (the p) st2 = (ec3, st3)" by (metis surj_pair)
  from assms p ok c s show ?thesis
    by (intro that [of "the p" ec st1 st2 st3])
      (auto simp: client_publish_def client_publish_prepare_def client_publish_config_def client_publish_send_def or_cancel_def
        if_given_def split: if_splits option.splits)
qed

text \<open>
  C31. The publisher publishes what its options say. Called back with a new connection and nothing in flight, it
  makes the library send one packet, unless it ends with an error: the PUBLISH with the topic, the QoS and the
  retain flag of the options, and with the message of the options, its escapes decoded, as the payload. A new
  message of the codec has no payload.
\<close>

theorem publisher_sends_message:
  assumes "pm_payload (PublishMsg_init E) = []" "in_callback (app_client a)" "m_sendOps (app_client a) = []"
    "Pub_brokerConnectedImpl E elapsed vm a = Some a'" "\<not> app_stopped a'"
    "pubTopic vm = Some topic" "pubMessage vm = Some msg" "pubQos vm = Some qos" "pubRetain vm = Some retain"
  shows "\<exists>pid buf. frame_write E (MPublish (publish_refresh E ((PublishMsg_init E)\<lparr>pm_retain := retain, pm_qos := unat qos,
      pm_topic := c_str topic, pm_payload := parseBinaryData msg, pm_packetId := pid\<rparr>))) = Some buf \<and>
    packets (out (app_client a')) = packets (out (app_client a)) @ [buf]"
proof -
  let ?data = "parseBinaryData msg"
  define c where "c = client_publish_init_config\<lparr>pc_topic := Some topic, pc_data := data_arg ?data, pc_dataLen := length ?data,
       pc_qos := unat qos, pc_retain := retain\<rparr>"
  have "publish_config vm = Some c" using assms(6-9) by (simp add: publish_config_def c_def Let_def)
  then obtain h where h: "client_publish E elapsed (Some c) (Some publishCompleteCb) (Some (app_client a)) = (EC_Success, h)"
    and a': "a' = (case h of None \<Rightarrow> a | Some st \<Rightarrow> a\<lparr>app_client := st\<rparr>)"
    using assms(4,5) by (auto simp: Pub_brokerConnectedImpl_def with_client_def doTerminate_def Let_def split: if_splits prod.splits)
  obtain i ec st1 st2 st3 where p: "publishPrepare E (app_client a) = ((Some i, ec), st1)" "SendOp_config E c i st1 = (EC_Success, st2)"
    "SendOp_send E elapsed (Some publishCompleteCb) i st2 = (EC_Success, st3)" "h = Some st3"
    by (rule client_publish_steps [OF h])
  obtain op where op: "m_sendOps st1 = [op]" "snd_id op = i" "snd_pubMsg op = PublishMsg_init E" "same_place (app_client a) st1"
    by (rule publish_prepared [OF p(1) assms(3)])
  note conf = publish_configured [OF p(2) op(1,2)]
  have "in_callback st2" "packets (out st2) = packets (out (app_client a))"
    using assms(2) op(4) conf(2) by (simp_all add: in_callback_def same_place_def)
  moreover have "pub_payload c [] = ?data" by (simp add: pub_payload_def c_def data_arg_def c_buf_def)
  moreover have "c_arg (pc_topic c) = c_str topic" "pc_qos c = unat qos" "pc_retain c = retain" by (simp_all add: c_def c_arg_def)
  ultimately show ?thesis
    using publish_sent [OF p(3) conf(1)] op(2,3) a' p(4) assms(1) by auto
qed

text \<open>A publisher called back by the demonstration session.\<close>

definition demo_app :: app where
  "demo_app = (AppClient_init demo_env)\<lparr>app_client := demo_connected_st\<lparr>m_apiEnterCount := 1\<rparr>\<rparr>"

definition demo_pub_vars :: opt_vars where
  "demo_pub_vars = (default_vars (Pub_options True))(''pub-topic'' \<mapsto> VString ''a'', ''pub-qos'' \<mapsto> VUnsigned 1,
     ''pub-msg'' \<mapsto> VString ''x'')"

lemma demo_app_place: "in_callback (app_client demo_app)" "m_sendOps (app_client demo_app) = []"
    "m_subscribeOps (app_client demo_app) = []"
  by (simp_all add: demo_app_def in_callback_def demo_connected_st_def ClientImpl_init_def)

lemma demo_pub_ends: "map_option app_stopped (Pub_brokerConnectedImpl demo_env 0 demo_pub_vars demo_app) = Some False"
  by code_simp

theorem publisher_sends_message_witness:
  "\<exists>a' pid. Pub_brokerConnectedImpl demo_env 0 demo_pub_vars demo_app = Some a' \<and>
     packets (out (app_client a')) = packets (out (app_client demo_app)) @
       [demo_encode (MPublish \<lparr>pm_dup = False, pm_qos = 1, pm_retain = False, pm_topic = ''a'', pm_hasPacketId = True,
          pm_packetId = pid, pm_payload = [0x78]\<rparr>)]"
proof -
  obtain a' where a': "Pub_brokerConnectedImpl demo_env 0 demo_pub_vars demo_app = Some a'" "\<not> app_stopped a'"
    using demo_pub_ends by (cases "Pub_brokerConnectedImpl demo_env 0 demo_pub_vars demo_app") simp_all
  have v: "pubTopic demo_pub_vars = Some ''a''" "pubMessage demo_pub_vars = Some ''x''" "pubQos demo_pub_vars = Some 1"
    "pubRetain demo_pub_vars = Some False" "parseBinaryData ''x'' = [0x78]" "c_str ''a'' = ''a''"
    by code_simp+
  have "pm_payload (PublishMsg_init demo_env) = []" by (simp add: demo_env_def)
  from publisher_sends_message [OF this demo_app_place(1,2) a' v(1-4)] a' v(5,6)
  show ?thesis by (auto simp: demo_env_def)
qed

section \<open>The subscriber\<close>

lemma subscribe_prepared:
  assumes "subscribePrepare E st = ((Some i, ec), st')" "m_subscribeOps st = []"
  obtains op where "m_subscribeOps st' = [op]" "sub_id op = i" "sub_subMsg op = SubscribeMsg_init E" "same_place st st'"
  using assms by (auto simp: subscribePrepare_def refuse_def SubscribeOp_new_def client_allocTimer_def fresh_id_def lock_prepare_def
      push_op_def set_fault_def same_place_def Let_def split: if_splits prod.splits)

lemma topic_configured:
  assumes "SubscribeOp_configTopic E c i st = (EC_Success, st')" "m_subscribeOps st = [op]" "sub_id op = i"
  shows "m_subscribeOps st' = [op\<lparr>sub_subMsg := (sub_subMsg op)\<lparr>sm_list := sm_list (sub_subMsg op) @ [(c_arg (stc_topic c), stc_maxQos c)]\<rparr>\<rparr>]"
    "same_place st st'"
  using assms
  by (auto simp: SubscribeOp_configTopic_def on_subscribe_ret_def follow_ret_def find_by_def upd_subMsg_def upd_subscribe_def upd_by_def
      Op_verifySubFilter_def same_place_def Let_def split: if_splits prod.splits)

text \<open>The QoS at the position of a topic, or the largest one the library supports.\<close>

definition asked_qos :: "env \<Rightarrow> u32 list \<Rightarrow> nat \<Rightarrow> nat" where
  "asked_qos E qoses k = (if k < length qoses then unat (qoses ! k) else MaxQos E)"

definition asked_topics :: "env \<Rightarrow> u32 list \<Rightarrow> nat \<Rightarrow> string list \<Rightarrow> (string \<times> nat) list" where
  "asked_topics E qoses idx topics = map (\<lambda>(topic, k). (c_str topic, asked_qos E qoses k)) (zip topics [idx..<idx + length topics])"

lemma asked_topics_simps [simp]:
  "asked_topics E qoses idx [] = []"
  "asked_topics E qoses idx (topic # topics) = (c_str topic, asked_qos E qoses idx) # asked_topics E qoses (idx + 1) topics"
  by (simp_all add: asked_topics_def upt_conv_Cons del: upt_Suc)

lemma topics_configured:
  assumes "sub_config_loop E qoses (Some i) idx topics a = (True, a')" "m_subscribeOps (app_client a) = [op]" "sub_id op = i"
  shows "m_subscribeOps (app_client a') =
      [op\<lparr>sub_subMsg := (sub_subMsg op)\<lparr>sm_list := sm_list (sub_subMsg op) @ asked_topics E qoses idx topics\<rparr>\<rparr>] \<and>
    same_place (app_client a) (app_client a')"
  using assms
proof (induction topics arbitrary: idx a op)
  case (Cons topic topics)
  let ?c = "sub_topic_config E qoses idx topic"
  have c: "c_arg (stc_topic ?c) = c_str topic" "stc_maxQos ?c = asked_qos E qoses idx"
    by (simp_all add: sub_topic_config_def client_subscribe_init_config_topic_def asked_qos_def c_arg_def Let_def)
  obtain st where st: "SubscribeOp_configTopic E ?c i (app_client a) = (EC_Success, st)"
    "sub_config_loop E qoses (Some i) (idx + 1) topics (a\<lparr>app_client := st\<rparr>) = (True, a')"
    using Cons.prems(1) by (auto simp: with_client_def config_topic_given Let_def split: if_splits prod.splits)
  note one = topic_configured [OF st(1) Cons.prems(2,3)]
  from Cons.IH [OF st(2)] one Cons.prems(3) show ?case by (simp add: c same_place_def)
qed (simp_all add: same_place_def)

lemma sub_config_stops: "\<not> fst (sub_config_loop E qoses q idx topics a) \<Longrightarrow> app_stopped (snd (sub_config_loop E qoses q idx topics a))"
  by (induction topics arbitrary: idx a) (auto simp: doTerminate_def Let_def split: prod.splits if_splits)

lemma subscribe_sent:
  assumes "SubscribeOp_send E elapsed cb i st = (EC_Success, st')" "m_subscribeOps st = [op]" "sub_id op = i" "in_callback st"
  shows "\<exists>pid buf. frame_write E (MSubscribe ((sub_subMsg op)\<lparr>sm_packetId := pid\<rparr>)) = Some buf \<and>
    packets (out st') = packets (out st) @ [buf]"
proof -
  obtain pid s2 where p: "client_allocPacketId E (allowNextPrepare st) = (pid, s2)" by (metis surj_pair)
  let ?msg = "(sub_subMsg op)\<lparr>sm_packetId := pid\<rparr>"
  let ?s3 = "upd_subscribe i (\<lambda>op. op\<lparr>sub_cb := cb, sub_subMsg := ?msg\<rparr>) s2"
  note place = allocPacketId_place [OF p]
  have s3: "m_apiEnterCount ?s3 = 1" "has_sendOutputDataCb ?s3" "packets (out ?s3) = packets (out st)"
    "m_subscribeOps ?s3 = [op\<lparr>sub_cb := cb, sub_subMsg := ?msg\<rparr>]"
    using place assms(2-4) by (simp_all add: upd_subscribe_def upd_by_def same_place_def allowNextPrepare_def in_callback_def)
  obtain s4 where m: "sendMessage E (MSubscribe ?msg) ?s3 = (EC_Success, s4)"
    and st': "st' = doApiExit (on_subscribe i SubscribeOp_restartTimer (doApiEnter E elapsed s4))"
    using assms(1-3) p by (auto simp: SubscribeOp_send_def on_subscribe_ret_def follow_ret_def find_by_def Let_def split: if_splits prod.splits)
  obtain buf where buf: "frame_write E (MSubscribe ?msg) = Some buf" "packets (out s4) = packets (out ?s3) @ [buf]"
    "m_apiEnterCount s4 = m_apiEnterCount ?s3" "m_sendOps s4 = m_sendOps ?s3" "m_subscribeOps s4 = m_subscribeOps ?s3"
    by (rule sendMessage_place [OF m s3(2)])
  let ?s5 = "on_subscribe i SubscribeOp_restartTimer (s4\<lparr>m_apiEnterCount := 2\<rparr>)"
  have "m_apiEnterCount ?s5 = 2" "out ?s5 = out s4"
    using buf(5) s3(4) assms(3) by (simp_all add: on_subscribe_def follow_def find_by_def SubscribeOp_restartTimer_def on_timers_def)
  then have "out st' = out s4" using st' nested_enter [of s4 E elapsed] buf(3) s3(1) nested_exit [of ?s5] by simp
  with buf s3(3) show ?thesis by auto
qed

text \<open>
  C32. The subscriber subscribes to what its options say. Called back with a new connection, it makes the library send one
  packet, unless it ends with an error: the SUBSCRIBE with all topics of the options in their order, each with the QoS
  at its position, and with the largest QoS of the library where the options have fewer of them.
\<close>

theorem subscriber_asks_topics:
  assumes "sm_list (SubscribeMsg_init E) = []" "in_callback (app_client a)" "m_subscribeOps (app_client a) = []"
    "Sub_brokerConnectedImpl E elapsed vm a = Some a'" "\<not> app_stopped a'" "subTopics vm = Some topics" "subQoses vm = Some qoses"
  shows "\<exists>pid buf. frame_write E (MSubscribe ((SubscribeMsg_init E)\<lparr>sm_list := asked_topics E qoses 0 topics, sm_packetId := pid\<rparr>)) = Some buf \<and>
    packets (out (app_client a')) = packets (out (app_client a)) @ [buf]"
proof -
  obtain i ec st1 a2 st3 where p: "subscribePrepare E (app_client a) = ((Some i, ec), st1)"
    "sub_config_loop E qoses (Some i) 0 topics (a\<lparr>app_client := st1\<rparr>) = (True, a2)"
    "SubscribeOp_send E elapsed (Some subscribeCompleteCb) i (app_client a2) = (EC_Success, st3)" "a' = a2\<lparr>app_client := st3\<rparr>"
  proof -
    obtain q ec st1 where q: "subscribePrepare E (app_client a) = ((q, ec), st1)" by (metis surj_pair)
    obtain ok a2 where c: "sub_config_loop E qoses q 0 topics (a\<lparr>app_client := st1\<rparr>) = (ok, a2)" by (metis surj_pair)
    obtain ec3 st3 where s: "SubscribeOp_send E elapsed (Some subscribeCompleteCb) (the q) (app_client a2) = (ec3, st3)"
      by (metis surj_pair)
    have "\<not> ok \<Longrightarrow> app_stopped a2" using c sub_config_stops [of E qoses q 0 topics "a\<lparr>app_client := st1\<rparr>"] by simp
    with assms(4-7) q c s show ?thesis
      by (intro that [of "the q" ec st1 a2 st3])
        (auto simp: Sub_brokerConnectedImpl_def with_client_def client_subscribe_prepare_def client_subscribe_send_def
          doTerminate_def Let_def split: if_splits)
  qed
  obtain op where op: "m_subscribeOps st1 = [op]" "sub_id op = i" "sub_subMsg op = SubscribeMsg_init E" "same_place (app_client a) st1"
    by (rule subscribe_prepared [OF p(1) assms(3)])
  have conf: "m_subscribeOps (app_client a2) = [op\<lparr>sub_subMsg := (SubscribeMsg_init E)\<lparr>sm_list := asked_topics E qoses 0 topics\<rparr>\<rparr>]"
    "same_place st1 (app_client a2)"
    using topics_configured [OF p(2)] op(1-3) assms(1) by simp_all
  have "in_callback (app_client a2)" "packets (out (app_client a2)) = packets (out (app_client a))"
    using assms(2) op(4) conf(2) by (simp_all add: in_callback_def same_place_def)
  then show ?thesis using subscribe_sent [OF p(3) conf(1)] op(2) p(4) by auto
qed

definition demo_sub_vars :: opt_vars where
  "demo_sub_vars = (default_vars (Sub_options True))(''sub-topic'' \<mapsto> VStrings [''a'', ''b/#''], ''sub-qos'' \<mapsto> VUnsigneds [1])"

lemma demo_sub_ends: "map_option app_stopped (Sub_brokerConnectedImpl demo_env 0 demo_sub_vars demo_app) = Some False"
  by code_simp

theorem subscriber_asks_topics_witness:
  "\<exists>a' pid. Sub_brokerConnectedImpl demo_env 0 demo_sub_vars demo_app = Some a' \<and>
     packets (out (app_client a')) = packets (out (app_client demo_app)) @
       [demo_encode (MSubscribe \<lparr>sm_packetId = pid, sm_list = [(''a'', 1), (''b/#'', 2)]\<rparr>)]"
proof -
  obtain a' where a': "Sub_brokerConnectedImpl demo_env 0 demo_sub_vars demo_app = Some a'" "\<not> app_stopped a'"
    using demo_sub_ends by (cases "Sub_brokerConnectedImpl demo_env 0 demo_sub_vars demo_app") simp_all
  have v: "subTopics demo_sub_vars = Some [''a'', ''b/#'']" "subQoses demo_sub_vars = Some [1]"
    "asked_topics demo_env [1] 0 [''a'', ''b/#''] = [(''a'', 1), (''b/#'', 2)]"
    by code_simp+
  have "sm_list (SubscribeMsg_init demo_env) = []" by (simp add: demo_env_def)
  from subscriber_asks_topics [OF this demo_app_place(1,3) a' v(1,2)] a' v(3)
  show ?thesis by (auto simp: demo_env_def)
qed

end
