(* ===== verification/App_Main.thy ===== *)
theory App_Main
  imports App_Client
begin

text \<open>
  The \<open>main\<close> functions of the two applications, \<open>app/pub/main.cpp\<close> and \<open>app/sub/main.cpp\<close>, which differ only
  in the application they create: the start, the event loop, the handler of signals and the exit code.
\<close>

section \<open>What the subscriber reacts to\<close>

datatype sub_event = SE_ConnectComplete u32 AsyncOpStatus "ConnectResponse option" | SE_SubscribeComplete AsyncOpStatus "nat list option"
  | SE_MessageReceived MessageInfo | SE_BrokerDisconnected BrokerDisconnectReason | SE_NetworkDisconnected u32
  | SE_Timer io_status u32 | SE_Data u32 bytes | SE_NextTick nat u32 | SE_CancelTick nat

fun sub_handle :: "env \<Rightarrow> opt_vars \<Rightarrow> sub_event \<Rightarrow> app \<Rightarrow> app option" where
  "sub_handle E vm (SE_ConnectComplete elapsed status response) a =
     connectCompleteImpl (Sub_brokerConnectedImpl E elapsed vm) vm status response a"
| "sub_handle E vm (SE_SubscribeComplete status response) a = subscribeCompleteInternal vm status response a"
| "sub_handle E vm (SE_MessageReceived info) a = Some (Sub_messageReceivedImpl vm info a)"
| "sub_handle E vm (SE_BrokerDisconnected reason) a = Some (brokerDisconnectedImpl reason a)"
| "sub_handle E vm (SE_NetworkDisconnected elapsed) a = Some (onNetworkDisconnected E elapsed a)"
| "sub_handle E vm (SE_Timer ec duration) a = Some (onTimer E ec duration a)"
| "sub_handle E vm (SE_Data elapsed buf) a = Some (snd (onData E elapsed buf a))"
| "sub_handle E vm (SE_NextTick now duration) a = Some (nextTickProgramInternal now duration a)"
| "sub_handle E vm (SE_CancelTick now) a = Some (snd (cancelNextTickWaitInternal now a))"

section \<open>The event loop\<close>

text \<open>The handler of signals; the system's own error message is left out.\<close>

definition on_signal :: "io_status \<Rightarrow> nat \<Rightarrow> app \<Rightarrow> app" where
  "on_signal ec sigNum a =
     (case ec of
        IO_Aborted \<Rightarrow> a
      | IO_Failed \<Rightarrow> a\<lparr>app_cerr := app_cerr a @ ''ERROR: Unexpected error in signal handling: '' @ Newline,
          app_result := 150, app_stopped := True\<rparr>
      | IO_Success \<Rightarrow> a\<lparr>app_cerr := app_cerr a @ ''Terminated with signal '' @ to_string sigNum @ Newline,
          app_result := 100, app_stopped := True\<rparr>)"

text \<open>
  What the event loop runs: the handler of a signal, or one of the application, in which the library
  makes further reports. The loop looks at \<open>stop\<close> between two handlers only.
\<close>

datatype 'e handler = H_App "'e list" | H_Signal io_status nat

fun run_events :: "('e \<Rightarrow> app \<Rightarrow> app option) \<Rightarrow> 'e list \<Rightarrow> app \<Rightarrow> app option" where
  "run_events handle [] a = Some a"
| "run_events handle (e # es) a = do { a1 \<leftarrow> handle e a; run_events handle es a1 }"

fun run_handler :: "('e \<Rightarrow> app \<Rightarrow> app option) \<Rightarrow> 'e handler \<Rightarrow> app \<Rightarrow> app option" where
  "run_handler handle (H_App es) a = run_events handle es a"
| "run_handler handle (H_Signal ec sigNum) a = Some (on_signal ec sigNum a)"

datatype main_status = Running | Exited int

text \<open>
  As \<open>io_context::run\<close> documents, handlers run one after the other until the context is stopped. The signals are
  always waited for, so that the loop does not run out of work.
\<close>

fun io_run :: "('e \<Rightarrow> app \<Rightarrow> app option) \<Rightarrow> 'e handler list \<Rightarrow> app \<Rightarrow> main_status" where
  "io_run handle [] a = (if app_stopped a then Exited (app_result a) else Running)"
| "io_run handle (h # hs) a =
     (if app_stopped a then Exited (app_result a)
      else case run_handler handle h a of None \<Rightarrow> Exited 200 | Some a1 \<Rightarrow> io_run handle hs a1)"

definition app_main :: "('e \<Rightarrow> app \<Rightarrow> app option) \<Rightarrow> (bool \<times> app) option \<Rightarrow> 'e handler list \<Rightarrow> main_status" where
  "app_main handle start hs =
     (case start of
        None \<Rightarrow> Exited 200
      | Some (ok, a) \<Rightarrow> if \<not> ok then Exited (- 1) else io_run handle hs a)"

text \<open>The two programs; what the option parser and the start of the session give are arguments.\<close>

definition parsed_vars :: "(bool \<times> opt_vars) option \<Rightarrow> opt_vars" where
  "parsed_vars parsed = (case parsed of None \<Rightarrow> Map.empty | Some (_, vm) \<Rightarrow> vm)"

definition Pub_main ::
  "env \<Rightarrow> bool \<Rightarrow> bool \<Rightarrow> u32 \<Rightarrow> u32 \<Rightarrow> string \<Rightarrow> string \<Rightarrow> (bool \<times> opt_vars) option \<Rightarrow> pub_event handler list \<Rightarrow> main_status" where
  "Pub_main E has_openssl started elapsed1 elapsed2 prog help parsed =
     app_main (pub_handle E (parsed_vars parsed))
       (AppClient_start E has_openssl started elapsed1 elapsed2 prog help parsed (AppClient_init E))"

definition Sub_main ::
  "env \<Rightarrow> bool \<Rightarrow> bool \<Rightarrow> u32 \<Rightarrow> u32 \<Rightarrow> string \<Rightarrow> string \<Rightarrow> (bool \<times> opt_vars) option \<Rightarrow> sub_event handler list \<Rightarrow> main_status" where
  "Sub_main E has_openssl started elapsed1 elapsed2 prog help parsed =
     app_main (sub_handle E (parsed_vars parsed))
       (AppClient_start E has_openssl started elapsed1 elapsed2 prog help parsed (AppClient_init E))"

section \<open>The contract of an application\<close>

text \<open>An application ends with an error, except for some events that may end it with success.\<close>

locale application =
  fixes handle :: "'e \<Rightarrow> app \<Rightarrow> app option" and good :: "'e \<Rightarrow> bool"
  assumes handle_ends: "handle e a = Some a' \<Longrightarrow> ended a' = ended a \<or> ended a' = Some 1 \<or> ended a' = Some 0 \<and> good e"
begin

lemma run_events_ends:
  "run_events handle es a = Some a' \<Longrightarrow>
     ended a' = ended a \<or> ended a' = Some 1 \<or> ended a' = Some 0 \<and> (\<exists>e \<in> set es. good e)"
proof (induction es arbitrary: a)
  case (Cons e es)
  then obtain a1 where "handle e a = Some a1" "run_events handle es a1 = Some a'" by (auto split: bind_splits)
  with handle_ends [of e a a1] Cons.IH [of a1] show ?case by auto
qed simp

lemma io_run_exits:
  "io_run handle hs a = Exited code \<Longrightarrow> ended a = Some code \<or> code \<in> {1, 100, 150, 200} \<or>
     code = 0 \<and> (\<exists>es e. H_App es \<in> set hs \<and> e \<in> set es \<and> good e)"
proof (induction hs arbitrary: a)
  case (Cons h hs)
  show ?case
  proof (cases "app_stopped a \<or> run_handler handle h a = None")
    case True
    with Cons.prems show ?thesis by (auto simp: ended_def split: if_splits)
  next
    case False
    then obtain a1 where a1: "run_handler handle h a = Some a1" "io_run handle hs a1 = Exited code" "ended a = None"
      using Cons.prems by (auto simp: ended_def)
    have "ended a1 \<in> {None, Some 1, Some 100, Some 150} \<or> ended a1 = Some 0 \<and> (\<exists>es e. h = H_App es \<and> e \<in> set es \<and> good e)"
    proof (cases h)
      case (H_App es)
      with a1 run_events_ends [of es a a1] show ?thesis by auto
    next
      case (H_Signal ec n)
      with a1(1,3) show ?thesis by (auto simp: on_signal_def ended_def split: io_status.splits if_splits)
    qed
    with Cons.IH [OF a1(2)] show ?thesis by auto
  qed
qed (simp add: ended_def split: if_splits)

lemma app_main_exits:
  assumes "app_main handle start hs = Exited code" "\<And>a. start = Some (True, a) \<Longrightarrow> ended a = None \<or> ended a = Some 0 \<and> help"
  shows "code \<in> {- 1, 1, 100, 150, 200} \<or> code = 0 \<and> (help \<or> (\<exists>es e. H_App es \<in> set hs \<and> e \<in> set es \<and> good e))"
proof (cases start)
  case (Some r)
  obtain ok a where r: "r = (ok, a)" by (metis surj_pair)
  show ?thesis
  proof (cases ok)
    case True
    with assms(1) Some r have "io_run handle hs a = Exited code" by (simp add: app_main_def)
    from io_run_exits [OF this] assms(2) [of a] Some r True show ?thesis by auto
  qed (use assms(1) Some r in \<open>auto simp: app_main_def\<close>)
qed (use assms(1) in \<open>simp add: app_main_def\<close>)

end

interpretation publisher: application "pub_handle E vm" "\<lambda>e. e = PE_PublishComplete ST_Complete"
  by unfold_locales (rule ended_pub_handle)

lemma sub_config_ended: "ended (snd (sub_config_loop E qoses op idx topics a)) \<in> {ended a, Some 1}"
proof (induction topics arbitrary: idx a)
  case (Cons topic topics)
  let ?w = "with_client (client_subscribe_config_topic E (Some (sub_topic_config E qoses idx topic)) op) a"
  have "ended (snd ?w) = ended a" by simp
  with Cons.IH [of "idx + 1" "snd ?w"] show ?case by (auto simp: Let_def split_def)
qed simp

lemma ended_Sub_connected:
  assumes "Sub_brokerConnectedImpl E elapsed vm a = Some a'" shows "ended a' = ended a \<or> ended a' = Some 1"
proof -
  obtain topics qoses where v: "subTopics vm = Some topics" "subQoses vm = Some qoses"
    using assms by (auto simp: Sub_brokerConnectedImpl_def split: bind_splits)
  obtain q ec a1 where p: "with_client (client_subscribe_prepare E) a = ((q, ec), a1)" by (metis surj_pair)
  obtain ok a2 where c: "sub_config_loop E qoses q 0 topics a1 = (ok, a2)" by (metis surj_pair)
  obtain ec2 a3 where s: "with_client (client_subscribe_send E elapsed (Some subscribeCompleteCb) q) a2 = (ec2, a3)" by (metis surj_pair)
  have "ended a1 = ended a" "ended a2 \<in> {ended a1, Some 1}" "ended a3 = ended a2"
    using p c s ended_with_client sub_config_ended [of E qoses q 0 topics a1] by (metis snd_conv)+
  with assms v p c s show ?thesis by (auto simp: Sub_brokerConnectedImpl_def Let_def split: if_splits)
qed

lemma ended_sub_handle:
  assumes "sub_handle E vm e a = Some a'" shows "ended a' = ended a \<or> ended a' = Some 1"
proof (cases e)
  case (SE_ConnectComplete el status response)
  with assms have "connectCompleteImpl (Sub_brokerConnectedImpl E el vm) vm status response a = Some a'" by simp
  from connectComplete_ended [OF this] show ?thesis using ended_Sub_connected by metis
next
  case (SE_Timer ec d)
  then show ?thesis using assms by (auto simp: onTimer_def split: io_status.splits)
qed (use assms in \<open>auto simp: subscribeCompleteInternal_def Sub_messageReceivedImpl_def print_MessageInfo_def print_SubscribeResponse_def
    brokerDisconnectedImpl_def onNetworkDisconnected_def onData_def nextTickProgramInternal_def cancelNextTickWaitInternal_def
    Let_def split_def ended_def doTerminate_def say_def logError_def split: if_splits bind_splits\<close>)

interpretation subscriber: application "sub_handle E vm" "\<lambda>_. False"
  by unfold_locales (use ended_sub_handle in blast)

section \<open>Exit codes\<close>

lemma sendConnect_ended: "ended (snd (sendConnect E elapsed connect a)) = ended a"
proof -
  have "ended (snd (with_client (client_connect_send E elapsed (Some connectCompleteCb) connect) a)) = ended a" by simp
  then show ?thesis by (simp add: sendConnect_def Let_def split_def del: ended_with_client)
qed

lemma startImpl_ended:
  assumes "AppClient_startImpl E elapsed1 elapsed2 vm a = Some (ok, a')" shows "ended a' = ended a"
proof -
  obtain q ec a1 where p: "with_client (client_connect_prepare E elapsed1) a = ((q, ec), a1)" by (metis surj_pair)
  then have a1: "ended a1 = ended a" by (metis ended_with_client snd_conv)
  have w: "ended b = ended a1'" if "with_client f a1' = (r, b)" for f :: "client_handle \<Rightarrow> ErrorCode \<times> client_handle" and a1' r b
    using that by (metis ended_with_client snd_conv)
  have s: "ended b = ended c" if "sendConnect E elapsed2 q' c = (r, b)" for q' b c r
    using that sendConnect_ended by (metis snd_conv)
  show ?thesis
    using assms p a1
    by (auto simp: AppClient_startImpl_def Let_def split: if_splits prod.splits bind_splits dest!: w s)
qed

lemma start_ended:
  assumes "AppClient_start E has_openssl started elapsed1 elapsed2 prog help parsed (AppClient_init E) = Some (True, a)"
  shows "ended a = None \<or> ended a = Some 0 \<and> helpRequested (parsed_vars parsed)"
proof -
  have i: "ended (AppClient_init E) = None" by (simp add: ended_def AppClient_init_def)
  have c: "ended (snd (AppClient_createSession has_openssl started vm b)) = ended b" for vm b
    by (simp add: AppClient_createSession_def split: option.split)
  obtain ok vm where p: "parsed = Some (ok, vm)" using assms by (cases parsed) (auto simp: AppClient_start_def)
  show ?thesis
  proof (cases "ok \<and> \<not> helpRequested vm")
    case True
    obtain created b where b: "AppClient_createSession has_openssl started vm (AppClient_init E) = (created, b)" by (metis surj_pair)
    then have "ended b = None" using c [of vm "AppClient_init E"] i by simp
    with assms p True b startImpl_ended show ?thesis by (fastforce simp: AppClient_start_def split: if_splits)
  next
    case False
    with assms p i show ?thesis by (auto simp: AppClient_start_def parsed_vars_def ended_def say_def AppClient_init_def split: if_splits)
  qed
qed

text \<open>
  C33. The exit codes of the programs. Whatever the options, the library, the network, the timer and the signals bring about, and in
  whatever order, a program that ends has the exit code 0 only when it was asked for help or, for the publisher, when
  the library reported the publish as complete; otherwise the code is one of those for errors (-1 from a failed start, 1 from the
  application, 200 from an exception) and signals (100, or 150 where waiting for them failed).
\<close>

theorem program_exit_codes:
  "(Pub_main E has_openssl started elapsed1 elapsed2 prog help parsed hs = Exited code \<longrightarrow>
      code \<in> {- 1, 1, 100, 150, 200} \<or> code = 0 \<and> (helpRequested (parsed_vars parsed) \<or>
        (\<exists>es. H_App es \<in> set hs \<and> PE_PublishComplete ST_Complete \<in> set es))) \<and>
   (Sub_main E has_openssl started elapsed1 elapsed2 prog help parsed hs' = Exited code \<longrightarrow>
      code \<in> {- 1, 1, 100, 150, 200} \<or> code = 0 \<and> helpRequested (parsed_vars parsed))"
proof (intro conjI impI)
  assume "Pub_main E has_openssl started elapsed1 elapsed2 prog help parsed hs = Exited code"
  from publisher.app_main_exits [OF this [unfolded Pub_main_def]
      start_ended [of E has_openssl started elapsed1 elapsed2 prog "help" parsed]]
  show "code \<in> {- 1, 1, 100, 150, 200} \<or> code = 0 \<and> (helpRequested (parsed_vars parsed) \<or>
      (\<exists>es. H_App es \<in> set hs \<and> PE_PublishComplete ST_Complete \<in> set es))" by blast
next
  assume "Sub_main E has_openssl started elapsed1 elapsed2 prog help parsed hs' = Exited code"
  from subscriber.app_main_exits [OF this [unfolded Sub_main_def]
      start_ended [of E has_openssl started elapsed1 elapsed2 prog "help" parsed]]
  show "code \<in> {- 1, 1, 100, 150, 200} \<or> code = 0 \<and> helpRequested (parsed_vars parsed)" by blast
qed

definition demo_main :: "pub_event handler list \<Rightarrow> main_status" where
  "demo_main = Pub_main demo_env False True 0 0 ''pub'' [] (Some (True, default_vars (Pub_options False)))"

theorem program_exit_codes_witness:
  "demo_main [H_App [PE_Timer IO_Aborted 5], H_App [PE_PublishComplete ST_Complete]] = Exited 0 \<and>
   (\<exists>es. H_App es \<in> set [H_App [PE_Timer IO_Aborted 5], H_App [PE_PublishComplete ST_Complete]] \<and>
      PE_PublishComplete ST_Complete \<in> set es)"
proof -
  let ?hs = "[H_App [PE_Timer IO_Aborted 5], H_App [PE_PublishComplete ST_Complete]]"
  have e: "demo_main ?hs = Exited 0" by code_simp
  have "\<not> helpRequested (parsed_vars (Some (True, default_vars (Pub_options False))))" by code_simp
  with program_exit_codes [THEN conjunct1, THEN mp, OF e [unfolded demo_main_def]] e show ?thesis by auto
qed

end
