(* ===== verification/Fuzz_Generator.thy ===== *)
theory Fuzz_Generator
  imports Demo_Session
begin

text \<open>
  The generator of the fuzzing harness, \<open>afl_fuzz/Generator.cpp\<close>: a minimal broker that answers every
  message of the client and publishes to the topics the client subscribes to. What it sends is the list \<open>gen_out\<close>;
  the client answers from inside the callback that is given the data, and that nesting is not part of
  the model. The messages are those of the library's model, with the codec of \<open>env\<close>.
\<close>

section \<open>Topics for filters\<close>

definition is_wildcard :: "char \<Rightarrow> bool" where
  "is_wildcard c \<longleftrightarrow> c = CHR ''#'' \<or> c = CHR ''+''"

text \<open>The loop over the wildcards; the position is the rest of the filter.\<close>

function pubTopic_loop :: "string \<Rightarrow> string \<Rightarrow> string" where
  "pubTopic_loop result rest =
     (let wildcardPos = find_index is_wildcard rest in
      if length rest \<le> wildcardPos then result @ rest
      else let result1 = result @ take wildcardPos rest in
        if rest ! wildcardPos = CHR ''#'' then result1 @ ''hash''
        else pubTopic_loop (result1 @ ''plus'') (drop (wildcardPos + 1) rest))"
  by pat_completeness auto
termination by (relation "measure (\<lambda>(result, rest). length rest)") auto

declare pubTopic_loop.simps [simp del]

definition pubTopicFromFilter :: "string \<Rightarrow> string" where
  "pubTopicFromFilter flt = pubTopic_loop [] flt"

section \<open>The state and the operations\<close>

record generator =
  gen_minPubCount :: u32
  gen_lastPacketId :: u32
  gen_nextPubQos :: nat
  gen_lastPubTopic :: string
  gen_pubCount :: u32
  gen_connected :: bool
  gen_out :: "prot_msg list"

definition Generator_init :: "u32 \<Rightarrow> generator" where
  "Generator_init minPubCount = \<lparr>gen_minPubCount = minPubCount, gen_lastPacketId = 0, gen_nextPubQos = 0,
     gen_lastPubTopic = [], gen_pubCount = 0, gen_connected = False, gen_out = []\<rparr>"

definition Generator_sendMessage :: "prot_msg \<Rightarrow> generator \<Rightarrow> generator" where
  "Generator_sendMessage msg g = g\<lparr>gen_out := gen_out g @ [msg]\<rparr>"

definition Generator_allocPacketId :: "generator \<Rightarrow> u32 \<times> generator" where
  "Generator_allocPacketId g = (gen_lastPacketId g + 1, g\<lparr>gen_lastPacketId := gen_lastPacketId g + 1\<rparr>)"

text \<open>The packet identifier is a field of 16 bits; the payload is the topic.\<close>

definition Generator_sendPublish :: "env \<Rightarrow> string \<Rightarrow> nat \<Rightarrow> generator \<Rightarrow> generator" where
  "Generator_sendPublish E topic qos g =
     (let msg = (PublishMsg_init E)\<lparr>pm_qos := qos, pm_topic := topic\<rparr>;
          (msg1, g1) = (if 0 < qos then let (i, g1) = Generator_allocPacketId g in (msg\<lparr>pm_packetId := ucast i\<rparr>, g1)
                        else (msg, g));
          msg2 = msg1\<lparr>pm_payload := map (\<lambda>c. of_nat (of_char c)) topic\<rparr>;
          g2 = Generator_sendMessage (MPublish (publish_refresh E msg2)) g1
      in g2\<lparr>gen_pubCount := gen_pubCount g2 + 1\<rparr>)"

definition doPublish :: "env \<Rightarrow> generator \<Rightarrow> generator" where
  "doPublish E g =
     (let g1 = Generator_sendPublish E (gen_lastPubTopic g) (gen_nextPubQos g) g;
          q = gen_nextPubQos g1 + 1
      in g1\<lparr>gen_nextPubQos := if 2 < q then 0 else q\<rparr>)"

definition doNextPublishIfNeeded :: "env \<Rightarrow> generator \<Rightarrow> generator" where
  "doNextPublishIfNeeded E g = (if gen_pubCount g < gen_minPubCount g then doPublish E g else g)"

section \<open>The handlers\<close>

definition Generator_handle_Connect :: "prot_msg \<Rightarrow> generator \<Rightarrow> generator" where
  "Generator_handle_Connect connack g = (Generator_sendMessage connack g)\<lparr>gen_connected := True\<rparr>"

definition Generator_handle_Publish :: "env \<Rightarrow> PublishMsg \<Rightarrow> generator \<Rightarrow> generator" where
  "Generator_handle_Publish E msg g =
     (if pm_qos msg = AtMostOnceDelivery then doNextPublishIfNeeded E g
      else if pm_qos msg = AtLeastOnceDelivery
        then doNextPublishIfNeeded E (Generator_sendMessage (MPuback (pm_packetId msg)) g)
      else Generator_sendMessage (MPubrec (pm_packetId msg)) g)"

definition Generator_handle_Pubrec :: "u16 \<Rightarrow> generator \<Rightarrow> generator" where
  "Generator_handle_Pubrec pid g = Generator_sendMessage (MPubrel pid True) g"

definition Generator_handle_Pubrel :: "env \<Rightarrow> u16 \<Rightarrow> generator \<Rightarrow> generator" where
  "Generator_handle_Pubrel E pid g = doNextPublishIfNeeded E (Generator_sendMessage (MPubcomp pid) g)"

text \<open>Every filter is granted QoS 2, and every filter gets a message.\<close>

definition Generator_handle_Subscribe :: "env \<Rightarrow> SubscribeMsg \<Rightarrow> generator \<Rightarrow> generator" where
  "Generator_handle_Subscribe E msg g =
     fold (\<lambda>(topic, _) g. doPublish E (g\<lparr>gen_lastPubTopic := pubTopicFromFilter topic\<rparr>)) (sm_list msg)
       (Generator_sendMessage (MSuback (sm_packetId msg) (map (\<lambda>_. Suback_Qos2 E) (sm_list msg))) g)"

definition Generator_handle_Unsubscribe :: "UnsubscribeMsg \<Rightarrow> generator \<Rightarrow> generator" where
  "Generator_handle_Unsubscribe msg g = Generator_sendMessage (MUnsuback (um_packetId msg)) g"

fun Generator_dispatch :: "env \<Rightarrow> prot_msg \<Rightarrow> prot_msg \<Rightarrow> generator \<Rightarrow> generator" where
  "Generator_dispatch E connack (MConnect m) g = Generator_handle_Connect connack g"
| "Generator_dispatch E connack (MPublish m) g = Generator_handle_Publish E m g"
| "Generator_dispatch E connack (MPubrec pid) g = Generator_handle_Pubrec pid g"
| "Generator_dispatch E connack (MPubrel pid v) g = Generator_handle_Pubrel E pid g"
| "Generator_dispatch E connack (MSubscribe m) g = Generator_handle_Subscribe E m g"
| "Generator_dispatch E connack (MUnsubscribe m) g = Generator_handle_Unsubscribe m g"
| "Generator_dispatch E connack _ g = g"

section \<open>The topic matches the filter\<close>

text \<open>The substitution character by character.\<close>

fun instance_of :: "string \<Rightarrow> string" where
  "instance_of [] = []"
| "instance_of (c # cs) = (if c = CHR ''#'' then ''hash'' else if c = CHR ''+'' then ''plus'' @ instance_of cs else c # instance_of cs)"

lemma pubTopic_loop_instance: "pubTopic_loop result rest = result @ instance_of rest"
proof (induction result rest rule: pubTopic_loop.induct)
  case (1 result rest)
  let ?i = "find_index is_wildcard rest"
  have front: "instance_of (xs @ ys) = xs @ instance_of ys" if "\<forall>c\<in>set xs. \<not> is_wildcard c" for xs ys
    using that by (induction xs) (auto simp: is_wildcard_def)
  have clean: "\<forall>c\<in>set (take ?i rest). \<not> is_wildcard c"
    by (auto simp: find_index_def takeWhile_eq_take [symmetric] dest: set_takeWhileD)
  show ?case
  proof (cases "length rest \<le> ?i")
    case True
    then show ?thesis using front [OF clean, of "[]"] by (subst pubTopic_loop.simps) simp
  next
    case False
    then have "is_wildcard (rest ! ?i)" using find_index_sat by (simp add: not_le)
    moreover have "rest = take ?i rest @ rest ! ?i # drop (?i + 1) rest"
      using False by (simp add: id_take_nth_drop not_le)
    then have "instance_of rest = take ?i rest @ instance_of (rest ! ?i # drop (?i + 1) rest)" using front [OF clean] by metis
    ultimately show ?thesis using 1 False by (subst pubTopic_loop.simps) (auto simp: Let_def is_wildcard_def)
  qed
qed

definition level_instance :: "string \<Rightarrow> string" where
  "level_instance l = (if l = ''+'' then ''plus'' else if l = ''#'' then ''hash'' else l)"

lemma levels_append: "CHR ''/'' \<notin> set a \<Longrightarrow> levels (a @ s) = (a @ hd (levels s)) # tl (levels s)"
  by (induction a) auto

lemma levels_instance:
  "(sub_ok True s \<longrightarrow> levels (instance_of s) = map level_instance (levels s)) \<and>
   (sub_ok False s \<longrightarrow> levels (instance_of s) = hd (levels s) # map level_instance (tl (levels s)))"
proof (induction s)
  case (Cons c s)
  have "levels (''plus'' @ instance_of s) = (''plus'' @ hd (levels (instance_of s))) # tl (levels (instance_of s))"
    by (rule levels_append) simp
  then show ?case
    using Cons hd_levels_Nil [of s] by (auto simp: level_instance_def)
qed (simp add: level_instance_def)

lemma level_match_instance: "filter_levels_ok fs \<Longrightarrow> level_match fs (map level_instance fs)"
  by (induction fs) (auto simp: level_instance_def plain_level_def)

lemma plain_instance: "plain_level (instance_of s)"
  by (induction s) (auto simp: plain_level_def)

text \<open>
  C40. The harness publishes to topics the client accepts. For every filter the library lets the client
  subscribe to, the topic derived from it is a topic name without wildcards that the
  rules of MQTT match with the filter; the matcher of the library accepts it too, unless the filter ends
  with an empty level.
\<close>

theorem pubTopicFromFilter_matches:
  assumes "fst (verifySubFilter True True flt)"
  shows "fst (verifyPubTopic True True True (pubTopicFromFilter flt) False) \<and>
    mqtt_match flt (pubTopicFromFilter flt) \<and>
    (last (levels flt) \<noteq> [] \<longrightarrow> isTopicMatch flt (pubTopicFromFilter flt))"
proof -
  have topic: "pubTopicFromFilter flt = instance_of flt" by (simp add: pubTopicFromFilter_def pubTopic_loop_instance)
  have ok: "flt \<noteq> []" "sub_ok True flt" "filter_levels_ok (levels flt)"
    using assms verifySubFilter_loop_sub_ok [of "-1" 0 flt] sub_ok_levels [of flt]
    by (simp_all add: verifySubFilter_def verifySubFilterInternal_def split: if_splits)
  then have l: "levels (instance_of flt) = map level_instance (levels flt)" using levels_instance by blast
  have "instance_of flt \<noteq> []" using ok(1) by (cases flt) auto
  then have "fst (verifyPubTopic True True True (instance_of flt) False)"
    by (simp add: verifyPubTopic_def verifyPubTopicInternal_def verifyPubTopic_loop_plain plain_instance)
  moreover have m: "level_match (levels flt) (levels (instance_of flt))"
    unfolding l using ok(3) by (rule level_match_instance)
  moreover have "last (levels flt) \<noteq> [] \<Longrightarrow> last (levels (instance_of flt)) \<noteq> []"
    unfolding l by (simp add: last_map level_instance_def)
  then have "last (levels flt) \<noteq> [] \<Longrightarrow> isTopicMatch flt (instance_of flt)" using m isTopicMatch_complete by blast
  moreover have "\<not> dollar_exempt flt (instance_of flt)" by (cases flt) (auto simp: dollar_exempt_def)
  ultimately show ?thesis by (simp add: topic mqtt_match_def)
qed

theorem pubTopicFromFilter_matches_witness:
  "pubTopicFromFilter ''a/+/#'' = ''a/plus/hash'' \<and> isTopicMatch ''a/+/#'' (pubTopicFromFilter ''a/+/#'')"
proof -
  have "fst (verifySubFilter True True ''a/+/#'')" "last (levels ''a/+/#'') \<noteq> []" by code_simp+
  with pubTopicFromFilter_matches [of "''a/+/#''"] have "isTopicMatch ''a/+/#'' (pubTopicFromFilter ''a/+/#'')" by blast
  moreover have "pubTopicFromFilter ''a/+/#'' = ''a/plus/hash''" by (simp add: pubTopicFromFilter_def pubTopic_loop_instance)
  ultimately show ?thesis by simp
qed

text \<open>The messages cycle through the qualities of service, and each has an identifier of its own when it needs one.\<close>

lemma doPublish_cycles:
  assumes "gen_nextPubQos g \<le> 2" shows "gen_nextPubQos (doPublish E g) = (gen_nextPubQos g + 1) mod 3"
proof -
  have "gen_nextPubQos g = 0 \<or> gen_nextPubQos g = 1 \<or> gen_nextPubQos g = 2" using assms by linarith
  then show ?thesis
    by (auto simp: doPublish_def Generator_sendPublish_def Generator_allocPacketId_def Generator_sendMessage_def Let_def)
qed

end
