(* ===== verification/Fuzz_Options.thy ===== *)
theory Fuzz_Options
  imports App_Options Fuzz_Generator
begin

text \<open>
  The options of the fuzzing harness, \<open>afl_fuzz/ProgramOptions.cpp\<close>, with its lists of topics, and the choice of
  the log in \<open>afl_fuzz/Logger.cpp\<close>.
\<close>

definition Fuzz_options :: "opt_desc list" where
  "Fuzz_options = [
     (''help'', Some CHR ''h'', Flag),
     (''verbose'', Some CHR ''v'', Flag),
     (''log-file'', Some CHR ''f'', NoDefault (VString [])),
     (''gen-input'', Some CHR ''g'', Default (VString [])),
     (''client-id'', Some CHR ''i'', Default (VString ''afl_client'')),
     (''sub-topic'', Some CHR ''t'', NoDefault (VStrings [])),
     (''min-pub-count'', None, Default (VUnsigned 3))]"

definition hasLogFile :: "opt_vars \<Rightarrow> bool" where "hasLogFile vm = given ''log-file'' vm"
definition logFile :: "opt_vars \<Rightarrow> string option" where "logFile vm = as_string ''log-file'' vm"
definition genInputFile :: "opt_vars \<Rightarrow> string option" where "genInputFile vm = as_string ''gen-input'' vm"
definition fuzz_clientId :: "opt_vars \<Rightarrow> string option" where "fuzz_clientId vm = as_string ''client-id'' vm"
definition minPubCount :: "opt_vars \<Rightarrow> u32 option" where "minPubCount vm = as_unsigned ''min-pub-count'' vm"

text \<open>The loop that takes a list of topics apart; the position is the rest of the text.\<close>

function split_topics :: "string \<Rightarrow> string list" where
  "split_topics str =
     (if str = [] then []
      else let sepPos = find_index (\<lambda>c. c = CHR '','') str in
        if length str \<le> sepPos then [str] else take sepPos str # split_topics (drop (sepPos + 1) str))"
  by pat_completeness auto
termination by (relation "measure length") auto

declare split_topics.simps [simp del]

definition fuzz_subTopics :: "opt_vars \<Rightarrow> string list list option" where
  "fuzz_subTopics vm = (case stringListOpts ''sub-topic'' vm of
     None \<Rightarrow> None
   | Some values \<Rightarrow> Some (map split_topics (if values = [] then [''#''] else values)))"

text \<open>The log is a file when one is named and can be opened, and the standard output when none is named.\<close>

datatype log_target = Log_cout | Log_file string

definition Logger_open :: "(string \<Rightarrow> bool) \<Rightarrow> opt_vars \<Rightarrow> (bool \<times> log_target) option" where
  "Logger_open can_open vm =
     (if hasLogFile vm
      then (case logFile vm of None \<Rightarrow> None
            | Some f \<Rightarrow> Some (if can_open f then (True, Log_file f) else (False, Log_cout)))
      else Some (True, Log_cout))"

section \<open>The lists of topics\<close>

text \<open>
  No topic of a list is lost or cut: put together again with commas, the topics are the text, and none
  of them contains a comma. A comma at the end of the text does not start another topic.
\<close>

theorem split_topics_join:
  "concat (map (\<lambda>t. t @ '','') (split_topics str)) = (if str = [] \<or> last str = CHR '','' then str else str @ '','') \<and>
   (\<forall>t \<in> set (split_topics str). CHR '','' \<notin> set t)"
proof (induction str rule: split_topics.induct)
  case (1 str)
  let ?i = "find_index (\<lambda>c. c = CHR '','') str"
  have clean: "CHR '','' \<notin> set (take ?i str)"
    by (auto simp: find_index_def takeWhile_eq_take [symmetric] dest: set_takeWhileD)
  show ?case
  proof (cases "str = [] \<or> length str \<le> ?i")
    case True
    have "last str \<noteq> CHR '',''" if "str \<noteq> []" using True clean that last_in_set [OF that] by force
    with True clean show ?thesis by (subst (1 2) split_topics.simps) auto
  next
    case False
    then have s: "str = take ?i str @ CHR '','' # drop (?i + 1) str"
      using find_index_sat [of "\<lambda>c. c = CHR '',''" str] id_take_nth_drop [of ?i str] by (simp add: not_le)
    have l: "last str = (if drop (?i + 1) str = [] then CHR '','' else last (drop (?i + 1) str))"
      by (subst s) simp
    have e: "split_topics str = take ?i str # split_topics (drop (?i + 1) str)"
      using False by (subst split_topics.simps) (simp add: Let_def)
    from 1 False have IH: "concat (map (\<lambda>t. t @ '','') (split_topics (drop (?i + 1) str))) =
        (if drop (?i + 1) str = [] \<or> last (drop (?i + 1) str) = CHR '','' then drop (?i + 1) str else drop (?i + 1) str @ '','')"
      "\<forall>t \<in> set (split_topics (drop (?i + 1) str)). CHR '','' \<notin> set t" by auto
    have j: "take ?i str @ '','' @ drop (?i + 1) str = str" using s by simp
    have c: "concat (map (\<lambda>t. t @ '','') (split_topics str)) =
        take ?i str @ '','' @ concat (map (\<lambda>t. t @ '','') (split_topics (drop (?i + 1) str)))" by (simp add: e)
    have "concat (map (\<lambda>t. t @ '','') (split_topics str)) =
        (if str = [] \<or> last str = CHR '','' then str else str @ '','')"
    proof (cases "drop (?i + 1) str = [] \<or> last (drop (?i + 1) str) = CHR '',''")
      case True
      then have "last str = CHR '',''" unfolding l by auto
      then show ?thesis using True j unfolding c IH(1) by simp
    next
      case False
      then have "str \<noteq> []" "last str \<noteq> CHR '',''" unfolding l by auto
      moreover have "take ?i str @ '','' @ drop (?i + 1) str @ '','' = str @ '',''"
        using arg_cong [OF j, of "\<lambda>x. x @ '',''"] by (simp only: append.assoc)
      ultimately show ?thesis unfolding c IH(1) using False by (simp only: if_False simp_thms)
    qed
    moreover have "\<forall>t \<in> set (split_topics str). CHR '','' \<notin> set t" unfolding e using IH(2) clean by simp
    ultimately show ?thesis by blast
  qed
qed

lemma fuzz_getters:
  assumes "conforms Fuzz_options vm"
  shows "genInputFile vm \<noteq> None" "fuzz_clientId vm \<noteq> None" "minPubCount vm \<noteq> None" "fuzz_subTopics vm \<noteq> None"
    "hasLogFile vm \<Longrightarrow> logFile vm \<noteq> None"
proof -
  note c = conformsD [OF assms]
  have "conforms_kind (Default (VString [])) (vm ''gen-input'')" "conforms_kind (Default (VString ''afl_client'')) (vm ''client-id'')"
    "conforms_kind (Default (VUnsigned 3)) (vm ''min-pub-count'')" "conforms_kind (NoDefault (VStrings [])) (vm ''sub-topic'')"
    "conforms_kind (NoDefault (VString [])) (vm ''log-file'')"
    by (rule c, simp add: Fuzz_options_def)+
  then show "genInputFile vm \<noteq> None" "fuzz_clientId vm \<noteq> None" "minPubCount vm \<noteq> None" "fuzz_subTopics vm \<noteq> None"
    "hasLogFile vm \<Longrightarrow> logFile vm \<noteq> None"
    by (auto simp: genInputFile_def fuzz_clientId_def minPubCount_def fuzz_subTopics_def stringListOpts_def hasLogFile_def
        logFile_def given_def as_string_def as_unsigned_def split: option.splits elim: same_type_elims)
qed

end
