(* ===== verification/Sub_Props.thy ===== *)
theory Sub_Props
  imports Recv_Props
begin

text \<open>
  Subscriptions: the sorted vector of confirmed filters implements the set of the subscriptions the
  broker has granted and not yet cancelled.
\<close>

section \<open>What a broker may answer\<close>

text \<open>
  A return code is acceptable for a request when it grants at most the requested QoS or refuses; the
  codec knows the same limits.
\<close>

definition code_ok :: "nat \<Rightarrow> string \<times> nat \<Rightarrow> bool" where
  "code_ok rc req \<longleftrightarrow> rc \<le> 2 \<and> rc \<le> snd req \<or> rc = 128"

definition granted :: "nat list \<Rightarrow> (string \<times> nat) list \<Rightarrow> string set" where
  "granted codes reqs = {topic. \<exists>rc qos. (rc, (topic, qos)) \<in> set (zip codes reqs) \<and> rc \<le> 2}"

definition suback_codec :: "env \<Rightarrow> bool" where
  "suback_codec E \<longleftrightarrow> Suback_Qos2 E = 2 \<and> Suback_Failure E = 128"

text \<open>There is room for all codes and filters of the answer.\<close>

definition suback_room :: "env \<Rightarrow> nat \<Rightarrow> string list \<Rightarrow> bool" where
  "suback_room E n filters \<longleftrightarrow> (suback_list_limit E = 0 \<or> n \<le> suback_list_limit E) \<and>
     (SubFiltersLimit E = 0 \<or> length filters + n \<le> SubFiltersLimit E)"

lemma granted_simps [simp]:
  "granted [] reqs = {}" "granted codes [] = {}"
  "granted (rc # codes) ((topic, qos) # reqs) = (if rc \<le> 2 then {topic} else {}) \<union> granted codes reqs"
  by (auto simp: granted_def)

lemma suback_loop_grants:
  assumes "strict_sorted filters" "suback_codec E" "list_all2 code_ok codes reqs"
    "suback_list_limit E = 0 \<or> length acc + length codes \<le> suback_list_limit E"
    "SubFiltersLimit E = 0 \<or> length filters + length codes \<le> SubFiltersLimit E"
  shows "fst (suback_loop E verify codes reqs acc filters) = (ST_Complete, acc @ codes) \<and>
    set (snd (suback_loop E verify codes reqs acc filters)) =
      set filters \<union> (if HasSubTopicVerification E \<and> verify then granted codes reqs else {})"
  using assms(3,1,4,5)
proof (induction codes reqs arbitrary: acc filters rule: list_all2_induct)
  case (Cons rc codes req reqs)
  obtain topic qos where req: "req = (topic, qos)" by (cases req)
  have c: "\<not> vec_full (suback_list_limit E) acc" "\<not> vec_full (SubFiltersLimit E) filters"
    using Cons.prems by (auto simp: vec_full_def)
  have rc: "rc \<le> 2 \<and> rc \<le> qos \<or> rc = 128" using Cons.hyps by (simp add: code_ok_def req)
  have f: "lb_found filters topic \<longleftrightarrow> topic \<in> set filters" by (rule lb_found_iff [OF Cons.prems(1)])
  have ins: "strict_sorted (lb_insert topic filters)" if "topic \<notin> set filters"
    using Cons.prems(1) that by (rule strict_sorted_lb_insert)
  note IH = Cons.IH [of filters "acc @ [rc]"] Cons.IH [of "lb_insert topic filters" "acc @ [rc]"]
  have "suback_list_limit E = 0 \<or> length (acc @ [rc]) + length codes \<le> suback_list_limit E"
    "SubFiltersLimit E = 0 \<or> length filters + length codes \<le> SubFiltersLimit E"
    "SubFiltersLimit E = 0 \<or> length (lb_insert topic filters) + length codes \<le> SubFiltersLimit E"
    using Cons.prems(2,3) by auto
  with IH Cons.prems(1) ins show ?case
    using c rc f assms(2) by (auto simp: req suback_codec_def Let_def)
qed simp

lemma completed_subscribe:
  assumes "ops_wf st" "op \<in> set (m_subscribeOps st)"
  shows "SubscribeOp_completeOpInternal E (sub_id op) status response st =
    (case sub_cb op of None \<Rightarrow> drop_op (Type_Subscribe, sub_id op) st
     | Some cb \<Rightarrow> emit (EvSubscribeComplete cb (sub_id op) status response) (drop_op (Type_Subscribe, sub_id op) st))"
  using find_by_distinct [OF ops_wf_distinct(4) [OF assms(1)] assms(2)]
  by (simp add: SubscribeOp_completeOpInternal_def on_subscribe_def follow_def opComplete_def opComplete_with_eq Let_def)

text \<open>
  C22. The answer to a subscribe request. When the codes are acceptable, one per requested filter, the
  confirmed filters are the previous ones together with the granted ones (where they are tracked),
  exactly this operation is gone, and the application is told the codes of the broker.
\<close>

theorem suback_refines_subscription:
  assumes "codec_ok E" "client_reach E st" "op \<in> set (m_subscribeOps st)" "sub_cb op = Some cb"
    "suback_codec E" "list_all2 code_ok codes (sm_list (sub_subMsg op))"
    "suback_room E (length codes) (m_subFilters (reuseState st))"
    "st' = SubscribeOp_handle_Suback E (sm_packetId (sub_subMsg op)) codes (sub_id op) st"
  shows "set (m_subFilters (reuseState st')) = set (m_subFilters (reuseState st)) \<union>
      (if HasSubTopicVerification E \<and> m_verifySubFilter (configState st)
       then granted codes (sm_list (sub_subMsg op)) else {}) \<and>
    strict_sorted (m_subFilters (reuseState st')) \<and>
    set (all_ptrs st') = set (all_ptrs st) - {(Type_Subscribe, sub_id op)} \<and>
    out st' = out st @ [EvSubscribeComplete cb (sub_id op) ST_Complete (Some codes)]"
proof -
  have wf: "ops_wf st" and fs: "strict_sorted (m_subFilters (reuseState st))"
    using reach_inv [OF assms(1,2)] by (simp_all add: client_inv_def filters_wf_def)
  let ?reqs = "sm_list (sub_subMsg op)"
  define st1 where "st1 = on_timers (timerCancel (sub_timer op)) st"
  define r where "r = suback_loop E (m_verifySubFilter (configState st)) codes ?reqs [] (m_subFilters (reuseState st))"
  define st2 where "st2 = set_subFilters (snd r) st1"
  have r: "fst r = (ST_Complete, codes)" "set (snd r) = set (m_subFilters (reuseState st)) \<union>
      (if HasSubTopicVerification E \<and> m_verifySubFilter (configState st) then granted codes ?reqs else {})"
    using suback_loop_grants [OF fs assms(5,6), of "[]"] assms(7) by (simp_all add: r_def suback_room_def)
  have "suback_outcome E codes op st1 = ((ST_Complete, codes), st2)"
    using r(1) list_all2_lengthD [OF assms(6)]
    by (simp add: suback_outcome_def st1_def st2_def Let_def split_def flip: r_def)
  moreover have f: "find_by sub_id (sub_id op) (m_subscribeOps st) = Some op"
    by (rule find_by_distinct [OF ops_wf_distinct(4) [OF wf] assms(3)])
  ultimately have "st' = SubscribeOp_completeOpInternal E (sub_id op) ST_Complete (Some codes) st2"
    by (simp add: assms(8) SubscribeOp_handle_Suback_def on_subscribe_def follow_def Let_def flip: st1_def)
  moreover have wf2: "ops_wf st2" and p: "all_ptrs st2 = all_ptrs st"
    using wf ops_wf_cong [of st2 st] by (simp_all add: st2_def st1_def set_subFilters_def live_ops_def all_ptrs_def)
  moreover have "op \<in> set (m_subscribeOps st2)" using assms(3) by (simp add: st2_def st1_def set_subFilters_def)
  ultimately have st': "st' = emit (EvSubscribeComplete cb (sub_id op) ST_Complete (Some codes))
      (drop_op (Type_Subscribe, sub_id op) st2)"
    using completed_subscribe [of st2 op] assms(4) by simp
  have "strict_sorted (snd r)" unfolding r_def using fs by (rule suback_loop_sorted)
  moreover have "all_ptrs (s\<lparr>out := x\<rparr>) = all_ptrs s" for x s by (simp add: all_ptrs_def)
  ultimately show ?thesis
    using r(2) drop_op_ptrs [OF wf2] p
    by (simp add: st' drop_op_frame emit_def st2_def st1_def set_subFilters_def)
qed

text \<open>A subscribe request for two filters in flight.\<close>

definition demo_subscribing :: client where
  "demo_subscribing = fold (run_call demo_env)
     [CSubscribePrepare, CSubscribeConfig \<lparr>stc_topic = Some ''x'', stc_maxQos = 1\<rparr> 2,
      CSubscribeConfig \<lparr>stc_topic = Some ''a/#'', stc_maxQos = 2\<rparr> 2, CSubscribeSend 0 (Some 5) 2]
     demo_connected_st"

definition demo_sub_op :: SubscribeOp where
  "demo_sub_op = \<lparr>sub_id = 2, sub_responseTimeoutMs = 2000,
     sub_subMsg = \<lparr>sm_packetId = 1, sm_list = [(''x'', 1), (''a/#'', 2)]\<rparr>, sub_timer = 0, sub_cb = Some 5\<rparr>"

lemma demo_subscribing_eval:
  "m_subscribeOps demo_subscribing = [demo_sub_op] \<and> m_subFilters (reuseState demo_subscribing) = [] \<and>
   m_verifySubFilter (configState demo_subscribing)"
  by code_simp

lemma demo_subscribing_reach: "client_reach demo_env demo_subscribing"
  unfolding demo_subscribing_def by (simp add: client_reach.intros demo_reach(1) del: run_call.simps)

theorem suback_refines_subscription_witness:
  "set (m_subFilters (reuseState (SubscribeOp_handle_Suback demo_env 1 [128, 2] 2 demo_subscribing))) = {''a/#''}"
proof -
  have op: "demo_sub_op \<in> set (m_subscribeOps demo_subscribing)" "sub_cb demo_sub_op = Some 5"
    "sub_id demo_sub_op = 2" "sm_packetId (sub_subMsg demo_sub_op) = 1"
    "sm_list (sub_subMsg demo_sub_op) = [(''x'', 1), (''a/#'', 2)]"
    using demo_subscribing_eval by (simp_all add: demo_sub_op_def)
  have E: "suback_codec demo_env" "HasSubTopicVerification demo_env"
    "suback_room demo_env (length [128, 2]) (m_subFilters (reuseState demo_subscribing))"
    by (simp_all add: suback_codec_def suback_room_def demo_env_def)
  have c: "list_all2 code_ok [128, 2] (sm_list (sub_subMsg demo_sub_op))" by (simp add: op code_ok_def)
  from suback_refines_subscription [OF codec_ok_demo demo_subscribing_reach op(1,2) E(1) c E(3) refl]
    demo_subscribing_eval op E(2)
  show ?thesis by simp
qed

section \<open>Cancelled subscriptions\<close>

lemma set_unsuback_filters:
  "strict_sorted filters \<Longrightarrow> set (unsuback_filters topics filters) = set filters - set topics"
  unfolding unsuback_filters_def
proof (induction topics arbitrary: filters)
  case (Cons topic topics)
  have "set (lb_erase topic filters) = set filters - {topic}" using Cons.prems by (rule set_lb_erase)
  moreover have "lb_found filters topic \<longleftrightarrow> topic \<in> set filters" using Cons.prems by (rule lb_found_iff)
  ultimately show ?case
    using Cons.IH [of "lb_erase topic filters"] Cons.IH [of filters] Cons.prems strict_sorted_lb_erase [OF Cons.prems]
    by auto
qed simp

text \<open>
  C23. The answer to an unsubscribe request removes exactly the filters of the request from the
  confirmed ones, ends exactly this operation and is reported.
\<close>

theorem unsuback_refines_subscription:
  assumes "codec_ok E" "client_reach E st" "op \<in> set (m_unsubscribeOps st)" "unsub_cb op = Some cb"
    "HasSubTopicVerification E"
    "st' = UnsubscribeOp_handle_Unsuback E (um_packetId (unsub_unsubMsg op)) (unsub_id op) st"
  shows "set (m_subFilters (reuseState st')) =
      set (m_subFilters (reuseState st)) - set (um_list (unsub_unsubMsg op)) \<and>
    strict_sorted (m_subFilters (reuseState st')) \<and>
    set (all_ptrs st') = set (all_ptrs st) - {(Type_Unsubscribe, unsub_id op)} \<and>
    out st' = out st @ [EvUnsubscribeComplete cb (unsub_id op) ST_Complete]"
proof -
  have wf: "ops_wf st" and fs: "strict_sorted (m_subFilters (reuseState st))"
    using reach_inv [OF assms(1,2)] by (simp_all add: client_inv_def filters_wf_def)
  let ?fs = "unsuback_filters (um_list (unsub_unsubMsg op)) (m_subFilters (reuseState st))"
  define st2 where "st2 = set_subFilters ?fs (on_timers (timerCancel (unsub_timer op)) st)"
  have wf2: "ops_wf st2" and p: "all_ptrs st2 = all_ptrs st"
    using wf ops_wf_cong [of st2 st] by (simp_all add: st2_def set_subFilters_def live_ops_def all_ptrs_def)
  have f: "find_by unsub_id (unsub_id op) (m_unsubscribeOps st) = Some op"
    by (rule find_by_distinct [OF ops_wf_distinct(5) [OF wf] assms(3)])
  then have "find_by unsub_id (unsub_id op) (m_unsubscribeOps st2) = Some op"
    by (simp add: st2_def set_subFilters_def)
  with f have st': "st' = emit (EvUnsubscribeComplete cb (unsub_id op) ST_Complete)
      (drop_op (Type_Unsubscribe, unsub_id op) st2)"
    using assms(4-6)
    by (simp add: UnsubscribeOp_handle_Unsuback_def on_unsubscribe_def follow_def opComplete_def opComplete_with_eq
        UnsubscribeOp_completeOpInternal_def Let_def flip: st2_def)
  have "all_ptrs (s\<lparr>out := x\<rparr>) = all_ptrs s" for x s by (simp add: all_ptrs_def)
  then show ?thesis
    using set_unsuback_filters [OF fs] unsuback_filters_sorted [OF fs] drop_op_ptrs [OF wf2] p
    by (simp add: st' drop_op_frame emit_def st2_def set_subFilters_def)
qed

definition demo_unsubscribing :: client where
  "demo_unsubscribing = fold (run_call demo_env)
     [CUnsubscribePrepare, CUnsubscribeConfig \<lparr>utc_topic = Some ''a/#''\<rparr> 3, CUnsubscribeSend 0 (Some 6) 3]
     demo_subscribed_st"

definition demo_unsub_op :: UnsubscribeOp where
  "demo_unsub_op = \<lparr>unsub_id = 3, unsub_responseTimeoutMs = 2000,
     unsub_unsubMsg = \<lparr>um_packetId = 2, um_list = [''a/#'']\<rparr>, unsub_timer = 0, unsub_cb = Some 6\<rparr>"

lemma demo_unsubscribing_eval:
  "m_unsubscribeOps demo_unsubscribing = [demo_unsub_op] \<and>
   m_subFilters (reuseState demo_unsubscribing) = [''a/#'']"
  by code_simp

lemma demo_unsubscribing_reach: "client_reach demo_env demo_unsubscribing"
  unfolding demo_unsubscribing_def by (simp add: client_reach.intros demo_reach(4) del: run_call.simps)

theorem unsuback_refines_subscription_witness:
  "set (m_subFilters (reuseState demo_unsubscribing)) = {''a/#''} \<and>
   set (m_subFilters (reuseState (UnsubscribeOp_handle_Unsuback demo_env 2 3 demo_unsubscribing))) = {}"
proof -
  have op: "demo_unsub_op \<in> set (m_unsubscribeOps demo_unsubscribing)" "unsub_cb demo_unsub_op = Some 6"
    "unsub_id demo_unsub_op = 3" "um_packetId (unsub_unsubMsg demo_unsub_op) = 2"
    "um_list (unsub_unsubMsg demo_unsub_op) = [''a/#'']"
    using demo_unsubscribing_eval by (simp_all add: demo_unsub_op_def)
  have E: "HasSubTopicVerification demo_env" by (simp add: demo_env_def)
  from unsuback_refines_subscription [OF codec_ok_demo demo_unsubscribing_reach op(1,2) E refl]
    demo_unsubscribing_eval op
  show ?thesis by simp
qed

text \<open>
  C24. Unsubscribing from filters that were all granted and not confirmed before restores the vector
  of confirmed filters exactly, element by element.
\<close>

theorem unsubscribe_undoes_subscribe:
  assumes "strict_sorted filters" "suback_codec E" "HasSubTopicVerification E"
    "list_all2 code_ok codes reqs" "\<forall>rc \<in> set codes. rc \<le> 2" "suback_room E (length codes) filters"
    "set (map fst reqs) \<inter> set filters = {}"
  shows "unsuback_filters (map fst reqs) (snd (suback_loop E True codes reqs [] filters)) = filters"
proof -
  let ?new = "snd (suback_loop E True codes reqs [] filters)"
  have len: "length codes = length reqs" using assms(4) by (rule list_all2_lengthD)
  have "granted codes reqs = set (map fst reqs)"
    using len assms(5)
  proof (induction codes reqs rule: list_induct2)
    case (Cons rc codes req reqs)
    then show ?case by (cases req) simp
  qed simp
  then have "set ?new = set filters \<union> set (map fst reqs)"
    using suback_loop_grants [OF assms(1,2,4), of "[]" True] assms(3,6) by (simp add: suback_room_def)
  moreover have sorted: "strict_sorted ?new" using assms(1) by (rule suback_loop_sorted)
  ultimately have "set (unsuback_filters (map fst reqs) ?new) = set filters"
    using set_unsuback_filters assms(7) by fastforce
  then show ?thesis using unsuback_filters_sorted [OF sorted] assms(1) strict_sorted_equal unfolding strict_sorted_def by metis
qed

theorem unsubscribe_undoes_subscribe_witness:
  "snd (suback_loop demo_env True [1, 2] [(''x'', 1), (''a/#'', 2)] [] [''b'']) = [''a/#'', ''b'', ''x''] \<and>
   unsuback_filters [''x'', ''a/#''] [''a/#'', ''b'', ''x''] = [''b'']"
proof -
  have e: "snd (suback_loop demo_env True [1, 2] [(''x'', 1), (''a/#'', 2)] [] [''b'']) = [''a/#'', ''b'', ''x'']"
    by code_simp
  have "suback_codec demo_env" "HasSubTopicVerification demo_env" "suback_room demo_env (length [1, 2]) [''b'']"
    by (simp_all add: suback_codec_def suback_room_def demo_env_def)
  with unsubscribe_undoes_subscribe [of "[''b'']" demo_env "[1, 2]" "[(''x'', 1), (''a/#'', 2)]"] e
  show ?thesis by (simp add: code_ok_def)
qed

end
