(* ===== verification/Interface_Props.thy ===== *)
theory Interface_Props
  imports Recv_Props
begin

text \<open>
  The start of operations: preparation under the lock, and the answer of the broker to the connect
  request.
\<close>

section \<open>Preparation\<close>

text \<open>
  C20. The preparation of a publish. A code other than \<open>Success\<close> comes without a handle and leaves all
  operations, the session and the lock as they are. Otherwise exactly one operation is added at the
  end of the publishes, under the identifier that is returned, and the lock is taken; it was free, the
  client is connected and not disconnecting.
\<close>

theorem publishPrepare_outcome:
  assumes "codec_ok E" "client_reach E st" "publishPrepare E st = ((handle, ec), st')"
  shows "(ec \<noteq> EC_Success \<longrightarrow> handle = None \<and> all_ptrs st' = all_ptrs st \<and> m_ops st' = m_ops st \<and>
      sessionState st' = sessionState st \<and> m_preparationLocked st' = m_preparationLocked st) \<and>
    (ec = EC_Success \<longrightarrow> \<not> m_preparationLocked st \<and> m_preparationLocked st' \<and>
      m_connected (sessionState st) \<and> \<not> m_disconnecting (sessionState st) \<and>
      (\<exists>op. handle = Some (snd_id op) \<and> m_sendOps st' = m_sendOps st @ [op] \<and> \<not> snd_published op \<and>
        (Type_Send, snd_id op) \<notin> set (all_ptrs st) \<and> all_ptrs st' = all_ptrs st @ [(Type_Send, snd_id op)]))"
proof -
  have wf: "ops_wf st" using reach_inv [OF assms(1,2)] by (simp add: client_inv_def)
  then have fresh: "(Type_Send, next_id st) \<notin> set (all_ptrs st)" by (force simp: ops_wf_def)
  obtain t tm where t: "allocTimer (TimersLimit E) (timerMgr st) = (t, tm)" by (metis surj_pair)
  show ?thesis
    using assms(3) fresh
    by (auto simp: publishPrepare_def refuse_def SendOp_new_def client_allocTimer_def fresh_id_def t Let_def
        lock_prepare_def push_op_def all_ptrs_def client_releasePacketId_def split: if_splits)
qed

theorem publishPrepare_outcome_witness:
  "\<exists>op. m_sendOps (snd (publishPrepare demo_env demo_connected_st)) = [op] \<and> snd_id op = 2"
proof -
  have "fst (publishPrepare demo_env demo_connected_st) = (Some 2, EC_Success)" by code_simp
  then obtain st' where p: "publishPrepare demo_env demo_connected_st = ((Some 2, EC_Success), st')" by (metis prod.collapse)
  have "m_sendOps demo_connected_st = []" by (simp add: demo_connected_st_def ClientImpl_init_def)
  with publishPrepare_outcome [OF codec_ok_demo demo_reach(1) p] p show ?thesis by auto
qed

section \<open>The answer to the connect request\<close>

text \<open>What the work on publishes and received messages leaves alone.\<close>

definition session_kept :: "client \<Rightarrow> client \<Rightarrow> bool" where
  "session_kept a b \<longleftrightarrow> sessionState b = sessionState a \<and> reuseState b = reuseState a \<and>
     m_connectOps b = m_connectOps a \<and> m_keepAliveOps b = m_keepAliveOps a"

lemma drop_recv_kept:
  "m_connectOps (drop_op (Type_Recv, i) st) = m_connectOps st" "m_keepAliveOps (drop_op (Type_Recv, i) st) = m_keepAliveOps st"
  by (simp_all add: drop_op_def opComplete_with_def opComplete_Recv_def forget_op_def Let_def split: option.split)

interpretation kept: op_frame session_kept
  by unfold_locales (auto simp: session_kept_def upd_send_def drop_op_frame drop_op_kept drop_send_kept)

lemma kept_abort: "session_kept a b \<Longrightarrow> session_kept a (abort_body E p b)"
proof -
  assume k: "session_kept a b"
  have d: "session_kept a (drop_op (Type_Recv, i) b)" for i
    using k by (simp add: session_kept_def drop_op_frame drop_op_kept drop_recv_kept)
  consider "p = None" | i where "p = Some (Type_Send, i)" | i where "p = Some (Type_Recv, i)"
    | ty i where "p = Some (ty, i)" "ty \<noteq> Type_Send" "ty \<noteq> Type_Recv"
    by (cases p) auto
  then show ?thesis
    using k d
    by cases (auto simp: kept.R_then kept.R_completeWithCb on_recv_def Op_terminateOpImpl_def opComplete_def
        opComplete_with_eq intro: kept.R_follow)
qed

lemma kept_resumed: "session_kept a b \<Longrightarrow> session_kept a (session_resumed E b)"
proof -
  have "session_kept a s \<Longrightarrow> session_kept a (SendOp_postReconnectionResend E i s)" for s i
    by (auto simp: SendOp_postReconnectionResend_def intro!: kept.R_on_send kept.R_resendDupMsg kept.R_then)
  then have "session_kept a b \<Longrightarrow> session_kept a (fold (\<lambda>k s. if length (m_sendOps s) \<noteq> n
      then set_fault IteratorInvalidated s else SendOp_postReconnectionResend E (snd_id (m_sendOps s ! k)) s) ks b)" for ks n b
    by (induction ks arbitrary: b) (simp_all add: kept.R_then)
  then have 1: "session_kept a b \<Longrightarrow> session_kept a (for_sends (SendOp_postReconnectionResend E) b)"
    by (simp add: for_sends_def)
  have "session_kept a s \<Longrightarrow> session_kept a (RecvOp_postReconnectionResume E op s)" for s op
    by (simp add: RecvOp_postReconnectionResume_def RecvOp_restartResponseTimer_def RecvOp_connectivityChangedImpl_def
        kept.R_then)
  then have "session_kept a s \<Longrightarrow> session_kept a (fold (RecvOp_postReconnectionResume E) ops s)" for ops s
    by (induction ops arbitrary: s) simp_all
  with 1 show "session_kept a b \<Longrightarrow> session_kept a (session_resumed E b)"
    by (simp add: session_resumed_def Let_def kept.R_resume)
qed

lemma connack_accepted_effect:
  assumes "st' = connack_accepted E sp m st"
  shows "m_connected (sessionState st')" "m_keepAliveMs (sessionState st') = keepAlive_ms m"
    "m_disconnecting (sessionState st') = m_disconnecting (sessionState st)"
    "reuseState st' = (if sp then reuseState st else ReuseState_init)" "m_connectOps st' = m_connectOps st"
proof -
  define s where "s = session_up (set_session ((sessionState st)\<lparr>m_keepAliveMs := keepAlive_ms m\<rparr>)
    (if sp then st else st\<lparr>reuseState := ReuseState_init\<rparr>))"
  define u where "u = (if sp then session_resumed E else session_dropped E) s"
  have k: "session_kept s u"
    using kept_resumed [OF kept.R_refl] kept.R_for_ops [OF kept_abort kept.R_refl]
    by (simp add: u_def session_dropped_def)
  have c: "sessionState (createKeepAliveOpIfNeeded E u) = sessionState u" "reuseState (createKeepAliveOpIfNeeded E u) = reuseState u"
    "m_connectOps (createKeepAliveOpIfNeeded E u) = m_connectOps u"
    by (simp_all add: createKeepAliveOpIfNeeded_def KeepAliveOp_new_def client_allocTimer_def push_op_def Let_def split_def)
  have "st' = createKeepAliveOpIfNeeded E u"
    by (simp add: assms connack_accepted_def brokerConnected_def u_def s_def Let_def)
  then show "m_connected (sessionState st')" "m_keepAliveMs (sessionState st') = keepAlive_ms m"
    "m_disconnecting (sessionState st') = m_disconnecting (sessionState st)"
    "reuseState st' = (if sp then reuseState st else ReuseState_init)" "m_connectOps st' = m_connectOps st"
    using c k by (simp_all add: session_kept_def s_def session_up_def set_session_def)
qed

lemma completed_connect:
  assumes "m_connectOps st = m_connectOps st0" "ops_wf st0" "op \<in> set (m_connectOps st0)" "con_cb op = Some cb"
  shows "ConnectOp_completeOpInternal E (con_id op) status resp st =
    emit (EvConnectComplete cb (con_id op) status resp) (drop_op (Type_Connect, con_id op) st)"
  using find_by_distinct [OF ops_wf_distinct(1) [OF assms(2)] assms(3)] assms(1,4)
  by (simp add: ConnectOp_completeOpInternal_def on_connect_def follow_def opComplete_def opComplete_with_eq Let_def)

text \<open>
  C19. The answer of the broker to the connect request; in every case the connect operation is gone and
  its callback is the last thing called. When the request is accepted, the client is connected, keeps
  the negotiated keep alive period, and keeps the confirmed filters exactly when the broker has kept
  the session. When it is refused, the application gets the reason and the session state is the
  initial one. A malformed answer, or a session that is present although a clean one was requested,
  is reported as a protocol error.
\<close>

theorem connack_outcome:
  assumes "codec_ok E" "client_reach E st" "op \<in> set (m_connectOps st)" "con_cb op = Some cb"
    "bad \<longleftrightarrow> Connack_ValuesLimit E \<le> rc \<or> sp \<and> cm_cleanSession (con_connectMsg op)"
    "st' = ConnectOp_handle_Connack E sp rc (con_id op) st"
  shows "(Type_Connect, con_id op) \<notin> set (all_ptrs st') \<and>
    last (out st') = (if bad then EvConnectComplete cb (con_id op) ST_ProtocolError None
      else EvConnectComplete cb (con_id op) ST_Complete (Some \<lparr>cr_returnCode = rc, cr_sessionPresent = sp\<rparr>)) \<and>
    (\<not> bad \<and> rc = 0 \<longrightarrow> m_connected (sessionState st') \<and>
       m_keepAliveMs (sessionState st') = keepAlive_ms (con_connectMsg op) \<and>
       reuseState st' = (if sp then reuseState st else ReuseState_init)) \<and>
    (\<not> bad \<and> rc \<noteq> 0 \<longrightarrow> sessionState st' = SessionState_init \<and> reuseState st' = reuseState st) \<and>
    (bad \<longrightarrow> sessionState st' = sessionState st \<and> reuseState st' = reuseState st)"
proof -
  have inv: "client_inv st" using assms(1,2) by (rule reach_inv)
  then have wf: "ops_wf st" by (simp add: client_inv_def)
  let ?ptr = "(Type_Connect, con_id op)"
  define st1 where "st1 = on_timers (timerCancel (con_timer op)) st"
  define s where "s = (if bad then errorLog E st1 else if rc \<noteq> 0 then set_session SessionState_init st1
    else connack_accepted E sp (con_connectMsg op) st1)"
  define e where "e = (if bad then EvConnectComplete cb (con_id op) ST_ProtocolError None
    else EvConnectComplete cb (con_id op) ST_Complete (Some \<lparr>cr_returnCode = rc, cr_sessionPresent = sp\<rparr>))"
  note acc = connack_accepted_effect [OF refl, of E sp "con_connectMsg op" st1]
  have "m_connectOps (errorLog E st1) = m_connectOps st" "m_connectOps (set_session SessionState_init st1) = m_connectOps st"
    "m_connectOps (connack_accepted E sp (con_connectMsg op) st1) = m_connectOps st"
    using acc(5) by (simp_all add: st1_def set_session_def)
  note c = this [THEN completed_connect, OF wf assms(3,4), of E]
  have f: "find_by con_id (con_id op) (m_connectOps st) = Some op"
    by (rule find_by_distinct [OF ops_wf_distinct(1) [OF wf] assms(3)])
  then have st': "st' = emit e (drop_op ?ptr s)"
    by (simp add: assms(5,6) ConnectOp_handle_Connack_def on_connect_def follow_def Let_def e_def s_def c
        flip: st1_def)
  have "msteps E False st s"
    unfolding s_def st1_def set_session_def
    using ev_errorLog ev_connack_accepted ev_cancel msteps_refl ev_flags by (auto intro!: evolve)
  then have "ops_wf s" using inv client_inv_msteps by (auto simp: msteps_def client_inv_def)
  then have "?ptr \<notin> set (all_ptrs (drop_op ?ptr s))" using drop_op_ptrs by simp
  then have "?ptr \<notin> set (all_ptrs st')" by (simp add: st' all_ptrs_def)
  moreover have "sessionState st' = sessionState s" "reuseState st' = reuseState s"
    by (simp_all add: st' drop_op_frame drop_op_kept)
  moreover have "last (out st') = e" by (simp add: st' emit_def)
  ultimately show ?thesis using acc by (auto simp: e_def s_def st1_def set_session_def)
qed

text \<open>A connect request in flight.\<close>

definition demo_connecting :: client where
  "demo_connecting = run_calls demo_env (demo_setup @ take 3 demo_connect)"

definition demo_connect_op :: ConnectOp where
  "demo_connect_op = \<lparr>con_id = 0, con_responseTimeoutMs = 2000,
     con_connectMsg = (ConnectMsg_init demo_env)\<lparr>cm_clientId := ''c'', cm_cleanSession := True, cm_keepAlive := 60\<rparr>,
     con_timer = 0, con_cb = Some 7\<rparr>"

lemma demo_connecting_ops: "m_connectOps demo_connecting = [demo_connect_op]"
  by code_simp

theorem connack_outcome_witness:
  "let st' = ConnectOp_handle_Connack demo_env False 0 0 demo_connecting
   in m_connected (sessionState st') \<and> m_keepAliveMs (sessionState st') = 60000 \<and>
      last (out st') = EvConnectComplete 7 0 ST_Complete (Some \<lparr>cr_returnCode = 0, cr_sessionPresent = False\<rparr>)"
proof -
  have op: "demo_connect_op \<in> set (m_connectOps demo_connecting)" "con_cb demo_connect_op = Some 7"
    "con_id demo_connect_op = 0" "cm_keepAlive (con_connectMsg demo_connect_op) = 60"
    by (simp_all add: demo_connecting_ops) (simp_all add: demo_connect_op_def)
  have b: "False \<longleftrightarrow> Connack_ValuesLimit demo_env \<le> 0 \<or> False \<and> cm_cleanSession (con_connectMsg demo_connect_op)"
    by (simp add: demo_env_def)
  have r: "client_reach demo_env demo_connecting" unfolding demo_connecting_def by (rule run_calls_reach)
  from connack_outcome [OF codec_ok_demo r op(1,2) b refl] op(3,4)
  show ?thesis by (simp add: keepAlive_ms_def Let_def)
qed

end
