(* ===== verification/Client_Capacity.thy ===== *)
theory Client_Capacity
  imports Client_Steps Demo_Session
begin

text \<open>
  A build without dynamic memory: the lists of operations stay within the capacities \<open>ExtConfig.h\<close>
  derives for them, and the timer slots it reserves are enough for every operation there can be.
\<close>

definition within_caps :: "env \<Rightarrow> client \<Rightarrow> bool" where
  "within_caps E st \<longleftrightarrow> (\<forall>t. count_ops t st \<le> ops_cap E t) \<and> length (m_timers (timerMgr st)) \<le> TimersLimit E \<and>
     (\<forall>s \<in> set (timer_slots st). Timer_isValid (fst s))"

lemma length_timer_slots:
  "length (timer_slots st) = count_ops Type_Connect st + 3 * count_ops Type_KeepAlive st + count_ops Type_Subscribe st +
     count_ops Type_Unsubscribe st + count_ops Type_Recv st + count_ops Type_Send st"
proof -
  have "length (concat (map ka_slots ops)) = 3 * length ops" for ops
    by (induction ops) (simp_all add: ka_slots_def)
  then show ?thesis by (simp add: timer_slots_def)
qed

lemma count_ops_add:
  assumes "mset (all_ptrs st') = add_mset (t, i) (mset (all_ptrs st))"
  shows "count_ops t' st' = count_ops t' st + (if t' = t then 1 else 0)"
proof -
  have "count_ops t' s = size (filter_mset (\<lambda>p. fst p = t') (mset (all_ptrs s)))" for s
    by (simp add: count_ops_def flip: mset_filter)
  then show ?thesis using assms by simp
qed

section \<open>Timer slots\<close>

lemma allocTimer_length:
  "lim \<noteq> 0 \<Longrightarrow> length (m_timers tm) \<le> lim \<Longrightarrow> length (m_timers (snd (allocTimer lim tm))) \<le> lim"
  by (auto simp: allocTimer_def createTimer_def vec_full_def Let_def)

text \<open>While fewer slots are owned than there may be, an allocation succeeds.\<close>

lemma allocTimer_succeeds:
  assumes "tm_own tm S" "length (m_timers tm) \<le> lim" "length S < lim" "lim < InvalidIdx" "allocTimer lim tm = (k, tm')"
  shows "Timer_isValid k" "length (m_timers tm') \<le> lim"
proof -
  show "length (m_timers tm') \<le> lim" using allocTimer_length [of lim tm] assms(2,3,5) by simp
  have wf: "timers_wf tm" using assms(1) by (simp add: tm_own_def)
  from wf assms(5) show "Timer_isValid k"
  proof (cases rule: allocTimer_cases)
    case full
    have "{..<length (m_timers tm)} \<subseteq> set (map fst S)"
    proof
      fix j assume j: "j \<in> {..<length (m_timers tm)}"
      then have "j \<in> allocated_idx tm" "Timer_isValid j"
        using full(2) assms(2,4) by (auto simp: allocated_idx_def Timer_isValid_def)
      then show "j \<in> set (map fst S)" using assms(1) unfolding tm_own_def by blast
    qed
    from card_mono [OF finite_set this] have "length (m_timers tm) \<le> length S"
      using card_length [of "map fst S"] by simp
    then show ?thesis using full(1) assms(3) by (simp add: vec_full_def)
  next
    case fresh
    then show ?thesis using \<open>length (m_timers tm') \<le> lim\<close> assms(4) by (simp add: Timer_isValid_def)
  qed
qed

lemma alloc_timers_succeed:
  assumes "tm_own tm S" "length (m_timers tm) \<le> lim" "length N + length S \<le> lim" "lim < InvalidIdx" "alloc_timers lim N tm tm'"
  shows "(\<forall>s \<in> set N. Timer_isValid (fst s)) \<and> length (m_timers tm') \<le> lim"
  using assms
proof (induction lim N tm tm' arbitrary: S rule: alloc_timers.induct)
  case (2 lim k cb i N tm tm')
  then obtain tm1 where tm1: "allocTimer lim tm = (k, tm1)" "alloc_timers lim N tm1 tm'" by auto
  note a = allocTimer_succeeds [OF "2.prems"(1,2) _ "2.prems"(4) tm1(1)]
  have "tm_own tm1 ((k, cb, i) # S)" using tm_own_alloc [OF "2.prems"(1) tm1(1)] .
  from "2.IH" [OF this _ _ "2.prems"(4) tm1(2)] a "2.prems"(3) show ?case by simp
qed simp

section \<open>Every step stays within the capacities\<close>

definition static_build :: "env \<Rightarrow> bool" where
  "static_build E \<longleftrightarrow> Config_asserts E \<and> \<not> HasDynMemAlloc E \<and> no_wrap E"

lemma caps_slots:
  assumes "static_build E" "\<forall>t. count_ops t st \<le> ops_cap E t"
  shows "length (timer_slots st) \<le> TimersLimit E" "TimersLimit E < InvalidIdx"
proof -
  note l = static_limits [of E]
  have c: "count_ops Type_Connect st \<le> ConnectOpsLimit E" "count_ops Type_KeepAlive st \<le> KeepAliveOpsLimit E"
    "count_ops Type_Subscribe st \<le> SubscribeOpsLimit E" "count_ops Type_Unsubscribe st \<le> UnsubscribeOpsLimit E"
    "count_ops Type_Recv st \<le> RecvOpsLimit E" "count_ops Type_Send st \<le> SendOpsLimit E"
    using assms(2) by (metis ops_cap.simps)+
  then show "length (timer_slots st) \<le> TimersLimit E"
    unfolding length_timer_slots using l(8) assms(1) unfolding static_build_def by linarith
  show "TimersLimit E < InvalidIdx" using l(10) assms(1) by (simp add: static_build_def InvalidIdx_def)
qed

lemma within_caps_cong:
  assumes "within_caps E st" "all_ptrs st' = all_ptrs st" "timer_slots st' = timer_slots st"
    "length (m_timers (timerMgr st')) = length (m_timers (timerMgr st))"
  shows "within_caps E st'"
  using assms by (simp add: within_caps_def count_ops_def)

lemma length_destroy [simp]: "length (m_timers (Timer_destroy k tm)) = length (m_timers tm)"
  by (simp add: Timer_destroy_def freeTimer_def)

lemma within_caps_drop:
  assumes "within_caps E st" "client_inv st" shows "within_caps E (drop_op ptr st)"
proof (cases "Some ptr \<in> set (m_ops st)")
  case True
  have "ptr \<in> set (all_ptrs st)" using True assms(2) ops_wf_live_iff by (auto simp: client_inv_def)
  with True obtain S Q where d: "dropped ptr S Q st (drop_op ptr st)" using drop_op_dropped by blast
  then have m: "mset (all_ptrs st) = add_mset (fst ptr, snd ptr) (mset (all_ptrs (drop_op ptr st)))"
    "mset (timer_slots st) = mset (S @ timer_slots (drop_op ptr st))"
    "timerMgr (drop_op ptr st) = fold Timer_destroy (map fst S) (timerMgr st)"
    by (simp_all add: dropped_def erased_def)
  have len: "length (m_timers (fold Timer_destroy ks tm)) = length (m_timers tm)" for ks and tm :: timers
    by (induction ks arbitrary: tm) simp_all
  have "count_ops t (drop_op ptr st) \<le> count_ops t st" for t using count_ops_add [OF m(1), of t] by simp
  then have "count_ops t (drop_op ptr st) \<le> ops_cap E t" for t
    using assms(1) order_trans unfolding within_caps_def by blast
  then show ?thesis
    using assms(1) mset_eq_setD [OF m(2)] m(3) len [of "map fst S" "timerMgr st"] by (auto simp: within_caps_def)
qed (simp add: drop_op_unlisted assms(1))

lemma within_caps_add:
  assumes "static_build E" "within_caps E st" "client_inv st" "adds_op E st st'"
  shows "within_caps E st'"
proof -
  obtain t N where a: "has_room E t st" "mset (all_ptrs st') = add_mset (t, next_id st) (mset (all_ptrs st))"
    "alloc_timers (TimersLimit E) N (timerMgr st) (timerMgr st')" "mset (timer_slots st') = mset (N @ timer_slots st)"
    using assms(4) by (auto simp: adds_op_def)
  note l = static_limits [of E]
  have "0 < ops_cap E t" using l(1-7) assms(1) by (cases t) (simp_all add: static_build_def)
  then have room: "count_ops t st < ops_cap E t" using a(1) by (simp add: has_room_def)
  have caps: "\<forall>t'. count_ops t' st' \<le> ops_cap E t'"
    using count_ops_add [OF a(2)] room assms(2) by (auto simp: within_caps_def)
  note s = caps_slots [OF assms(1) caps]
  have "length (timer_slots st') = length (N @ timer_slots st)" using a(4) by (rule mset_eq_length)
  with alloc_timers_succeed [OF _ _ _ s(2) a(3), of "timer_slots st"] s(1) assms(2,3)
  have n: "(\<forall>s \<in> set N. Timer_isValid (fst s)) \<and> length (m_timers (timerMgr st')) \<le> TimersLimit E"
    by (simp add: within_caps_def client_inv_def)
  show ?thesis
    using caps n assms(2) mset_eq_setD [OF a(4)] unfolding within_caps_def by auto
qed

lemma within_caps_mstep:
  assumes "mstep E st st'" "static_build E" "client_inv st" "within_caps E st"
  shows "within_caps E st'"
  using assms
proof (induction rule: mstep.induct)
  case (ms_same st st')
  then show ?case by (intro within_caps_cong [OF ms_same.prems(3)]) (simp_all add: view_eq_def)
next
  case (ms_wait k cb i st d)
  then show ?case by (intro within_caps_cong [OF ms_wait.prems(3)]) (simp_all add: on_timers_def timerWait_def)
next
  case (ms_quiet st t)
  then show ?case by (intro within_caps_cong [OF ms_quiet.prems(3)]) (simp_all add: quiet_def)
next
  case (ms_drop st ptr)
  then show ?case using within_caps_drop by blast
next
  case (ms_pid st st')
  then show ?case by (intro within_caps_cong [OF ms_pid.prems(3)]) (simp_all add: takes_pid_def)
next
  case (ms_new st st')
  then show ?case using within_caps_add by blast
next
  case (ms_probe st k tm)
  have "TimersLimit E \<noteq> 0" using static_limits(1,8) [of E] ms_probe.prems(1) by (simp add: static_build_def)
  then have "length (m_timers (Timer_destroy k tm)) \<le> TimersLimit E"
    using allocTimer_length [of "TimersLimit E" "timerMgr st"] ms_probe by (simp add: within_caps_def)
  then show ?case
    using ms_probe.prems(3) by (simp add: within_caps_def count_ops_def all_ptrs_def timer_slots_def)
next
  case (ms_finish ptr st e st')
  have d: "client_inv (drop_op ptr st)" "within_caps E (drop_op ptr st)"
    using ms_finish.prems client_inv_drop within_caps_drop by blast+
  have "client_inv st' \<and> within_caps E st'"
    using ms_finish.IH d ms_finish.prems(1) by (induction rule: rtranclp_induct) (auto intro: client_inv_mstep)
  then show ?case
    using within_caps_cong [of E st' "emit e st'"] by (simp add: all_ptrs_def timer_slots_def)
next
  case (ms_fuel st)
  then show ?case
    by (intro within_caps_cong [OF ms_fuel.prems(3)]) (simp_all add: set_fault_def all_ptrs_def timer_slots_def)
qed

lemma within_caps_msteps:
  assumes "msteps E b st st'" "static_build E" "client_inv st" "within_caps E st"
  shows "within_caps E st'"
proof -
  have "(mstep E)\<^sup>*\<^sup>* st st'" using assms(1,3) by (simp add: msteps_def)
  then show ?thesis
    using assms(2-4) by (induction rule: rtranclp_induct) (auto intro: within_caps_mstep client_inv_msteps)
qed

lemma reach_within_caps:
  assumes "codec_ok E" "static_build E" "client_reach E st" shows "within_caps E st"
  using assms(3)
proof induction
  case reach_init
  show ?case
    by (simp add: within_caps_def count_ops_def ClientImpl_init_def all_ptrs_def timer_slots_def TimerMgr_init_def)
next
  case (reach_call st c)
  then show ?case
    using within_caps_msteps [OF reach_steps(1) [OF assms(1)] assms(2) reach_inv [OF assms(1)]] by blast
next
  case (reach_data st react el data)
  then show ?case
    using within_caps_msteps [OF reach_steps(2) [OF assms(1)] assms(2) reach_inv [OF assms(1)]] by blast
qed

text \<open>
  C39. In every reachable state of a client built without dynamic memory no list of operations
  exceeds its capacity, all operations together are no more than \<open>OpsLimit\<close>, and the \<open>TimersLimit\<close>
  slots of the timer manager are enough: every operation that exists, whatever others exist beside
  it, has got all its timers. (The vector \<open>m_ops\<close> can still overflow, by the null entries of completed
  operations that are only removed at the end of a call.)
\<close>

theorem capacities_respected:
  assumes "codec_ok E" "Config_asserts E" "\<not> HasDynMemAlloc E" "no_wrap E" "client_reach E st"
  shows "length (m_connectOps st) \<le> ConnectOpsLimit E \<and> length (m_keepAliveOps st) \<le> KeepAliveOpsLimit E \<and>
    length (m_disconnectOps st) \<le> DisconnectOpsLimit E \<and> length (m_subscribeOps st) \<le> SubscribeOpsLimit E \<and>
    length (m_unsubscribeOps st) \<le> UnsubscribeOpsLimit E \<and> length (m_recvOps st) \<le> RecvOpsLimit E \<and>
    length (m_sendOps st) \<le> SendOpsLimit E \<and> length (all_ptrs st) \<le> OpsLimit E \<and>
    length (m_timers (timerMgr st)) \<le> TimersLimit E \<and>
    (\<forall>(k, cb, i) \<in> set (timer_slots st). Timer_isValid k \<and> k < length (m_timers (timerMgr st)))"
proof -
  have s: "static_build E" using assms(2-4) by (simp add: static_build_def)
  have w: "within_caps E st" using reach_within_caps [OF assms(1) s assms(5)] .
  then have c: "count_ops t st \<le> ops_cap E t" for t by (simp add: within_caps_def)
  note l = c [of Type_Connect] c [of Type_KeepAlive] c [of Type_Disconnect] c [of Type_Subscribe]
    c [of Type_Unsubscribe] c [of Type_Recv] c [of Type_Send]
  have "length (all_ptrs st) = length (m_connectOps st) + length (m_keepAliveOps st) + length (m_disconnectOps st) +
      length (m_subscribeOps st) + length (m_unsubscribeOps st) + length (m_recvOps st) + length (m_sendOps st)"
    by (simp add: all_ptrs_def)
  then have o: "length (all_ptrs st) \<le> OpsLimit E" using l static_limits(9) [OF assms(2-4)] by simp
  have own: "tm_own (timerMgr st) (timer_slots st)" using reach_inv [OF assms(1,5)] by (simp add: client_inv_def)
  have t: "Timer_isValid k \<and> k < length (m_timers (timerMgr st))" if "(k, cb, i) \<in> set (timer_slots st)" for k cb i
  proof -
    have v: "Timer_isValid k" using w that by (auto simp: within_caps_def)
    moreover have "k \<in> set (map fst (timer_slots st))" using that by force
    ultimately have "k \<in> allocated_idx (timerMgr st)" using own by (auto simp: tm_own_def slots.holds_def)
    then show ?thesis using v by (simp add: allocated_idx_def)
  qed
  have "length (m_timers (timerMgr st)) \<le> TimersLimit E" using w by (simp add: within_caps_def)
  then show ?thesis using l o t by auto
qed

text \<open>A static build with room for two publishes: the third one is refused, the timers are enough.\<close>

definition demo_static_st :: client where
  "demo_static_st = run_calls demo_static (demo_connected @ demo_publish 1 2 @ demo_publish 1 3 @ demo_publish 1 4)"

theorem capacities_respected_witness:
  "length (m_sendOps demo_static_st) = 2 \<and> SendOpsLimit demo_static = 2 \<and> length (all_ptrs demo_static_st) \<le> 8 \<and>
     length (m_timers (timerMgr demo_static_st)) \<le> 9 \<and>
     list_all (\<lambda>(k, cb, i). Timer_isValid k \<and> k < length (m_timers (timerMgr demo_static_st))) (timer_slots demo_static_st)"
proof -
  have c: "codec_ok demo_static" using codec_ok_demo by (simp add: codec_ok_def demo_static_def)
  have s: "Config_asserts demo_static" "\<not> HasDynMemAlloc demo_static" "no_wrap demo_static" by code_simp+
  have l: "SendOpsLimit demo_static = 2" "OpsLimit demo_static = 8" "TimersLimit demo_static = 9" by code_simp+
  have n: "length (m_sendOps demo_static_st) = 2" by code_simp
  have "client_reach demo_static demo_static_st" unfolding demo_static_st_def by (rule run_calls_reach)
  from capacities_respected [OF c s this] n l show ?thesis by (simp add: list_all_iff)
qed

end
