(* ===== verification/Session_Defects.thy ===== *)
theory Session_Defects
  imports Delivery_Props Client_Capacity
begin

text \<open>
  Where the client does not do what it is meant to: the response timers of publishes after a
  reconnection, and sessions, short sequences of calls and received packets, evaluated on the model.
\<close>

definition demo_reconnect :: "u8 \<Rightarrow> op_id \<Rightarrow> call list" where
  "demo_reconnect present i = [CNetworkDisconnected 0, CConnectPrepare 0,
     CConnectConfig \<lparr>cc_clientId = Some ''c'', cc_username = None, cc_password = None,
       cc_passwordLen = 0, cc_keepAlive = 60, cc_cleanSession = False\<rparr> i,
     CConnectSend 0 (Some 7) i, CProcessData 0 [0x20, 2, present, 0]]"

definition demo_subscribe_sent :: "op_id \<Rightarrow> call list" where
  "demo_subscribe_sent i = [CSubscribePrepare, CSubscribeConfig \<lparr>stc_topic = Some ''a'', stc_maxQos = 2\<rparr> i,
     CSubscribeSend 0 (Some i) i]"

definition continue :: "call list \<Rightarrow> client \<Rightarrow> client" where
  "continue cs st = fold (run_call demo_env) cs st"

text \<open>The packets sent since an earlier state.\<close>

definition sent_since :: "client \<Rightarrow> client \<Rightarrow> bytes list" where
  "sent_since st st' =
     List.map_filter (\<lambda>e. case e of EvSendOutputData buf \<Rightarrow> Some buf | _ \<Rightarrow> None) (drop (length (out st)) (out st'))"

section \<open>Reconnection\<close>

text \<open>Every slot that would call back the timeout of a publish is suspended.\<close>

definition stuck :: "op_id \<Rightarrow> timers \<Rightarrow> bool" where
  "stuck i tm \<longleftrightarrow> (\<forall>info \<in> set (m_timers tm). m_timeoutCb info = Some SendOp_recvTimeoutCb \<and>
     m_timeoutData info = Some i \<longrightarrow> m_suspended info)"

lemma stuck_tick:
  assumes "stuck i tm"
  shows "stuck i (snd (tick_collect ms tm))" "(SendOp_recvTimeoutCb, Some i) \<notin> set (fst (tick_collect ms tm))"
  using assms
  by (auto simp: stuck_def tick_collect_eq tick_info_def cancel_info_def expired_def running_def callback_def)

lemma stuck_ticks: "stuck i tm \<Longrightarrow> stuck i (fold (\<lambda>d t. snd (tick_collect d t)) ds tm)"
  by (induction ds arbitrary: tm) (simp_all add: stuck_tick(1))

lemma stuck_own:
  assumes "client_inv st" "op \<in> set (m_sendOps st)" "m_suspended (m_timers (timerMgr st) ! snd_responseTimer op)"
    "length (m_timers (timerMgr st)) \<le> InvalidIdx"
  shows "stuck (snd_id op) (timerMgr st)"
  unfolding stuck_def
proof (intro ballI impI)
  fix info assume info: "info \<in> set (m_timers (timerMgr st))"
    "m_timeoutCb info = Some SendOp_recvTimeoutCb \<and> m_timeoutData info = Some (snd_id op)"
  then obtain j where j: "j < length (m_timers (timerMgr st))" "info = m_timers (timerMgr st) ! j"
    by (metis in_set_conv_nth)
  moreover have "Timer_isValid j" using j(1) assms(4) by (simp add: Timer_isValid_def)
  ultimately have "(j, SendOp_recvTimeoutCb, snd_id op) \<in> set (timer_slots st)"
    using assms(1) info(2) unfolding client_inv_def tm_own_def by (metis option.inject)
  then obtain op' where "op' \<in> set (m_sendOps st)" "snd_id op' = snd_id op" "snd_responseTimer op' = j"
    by (auto simp: timer_slots_def ka_slots_def)
  moreover have "distinct (map snd_id (m_sendOps st))" using ops_wf_distinct(7) assms(1) by (simp add: client_inv_def)
  ultimately have "op' = op" using assms(2) by (metis distinct_map inj_onD)
  then show "m_suspended info" using assms(3) j \<open>snd_responseTimer op' = j\<close> by simp
qed

lemma rewaits_kept:
  assumes "k < length (m_timers (timerMgr st))"
  shows "length (m_timers (timerMgr (snd (sendMessage E msg st)))) = length (m_timers (timerMgr st))"
    "m_suspended (m_timers (timerMgr (snd (sendMessage E msg st))) ! k) = m_suspended (m_timers (timerMgr st) ! k)"
proof -
  have "rewaits 0 (timerMgr st) (timerMgr (snd (sendMessage E msg st)))"
    by (rule rewaits_sendMessage) (simp add: unat_gt_0)
  then show "length (m_timers (timerMgr (snd (sendMessage E msg st)))) = length (m_timers (timerMgr st))"
    "m_suspended (m_timers (timerMgr (snd (sendMessage E msg st))) ! k) = m_suspended (m_timers (timerMgr st) ! k)"
    using assms by (simp_all add: rewaits_def)
qed

text \<open>The duplicate sent after a reconnection.\<close>

lemma reconnection_resend:
  assumes "client_inv st" "op \<in> set (m_sendOps st)" "\<not> snd_paused op" "snd_sendAttempts op - 1 < snd_totalSendAttempts op"
    "transmits E (resend_msg op) buf st" "snd_responseTimer op < length (m_timers (timerMgr st))"
    "m_suspended (m_timers (timerMgr st) ! snd_responseTimer op)" "st' = SendOp_postReconnectionResend E (snd_id op) st"
  shows "packets (out st') = packets (out st) @ [buf]" "\<exists>op' \<in> set (m_sendOps st'). snd_id op' = snd_id op \<and>
      snd_responseTimer op' = snd_responseTimer op" "Timer_isSuspended (snd_responseTimer op) (timerMgr st')"
    "length (m_timers (timerMgr st')) = length (m_timers (timerMgr st))"
proof -
  let ?i = "snd_id op" and ?k = "snd_responseTimer op" and ?dec = "\<lambda>op. op\<lparr>snd_sendAttempts := snd_sendAttempts op - 1\<rparr> :: SendOp"
  define s where "s = on_timers (timerCancel ?k) (upd_send ?i ?dec st)"
  define s1 where "s1 = (if snd_acked op then s else upd_pub ?i (\<lambda>m. m\<lparr>pm_dup := True\<rparr>) s)"
  have d: "distinct (map snd_id (m_sendOps st))" "distinct (map snd_id (m_sendOps s))"
    using ops_wf_distinct(7) assms(1) by (simp_all add: client_inv_def s_def)
  have dec: "?dec op \<in> set (m_sendOps s)"
    using upd_by_mem [OF assms(2), of snd_id ?i ?dec] by (simp add: s_def upd_send_def)
  have f: "find_by snd_id ?i (m_sendOps st) = Some op" "find_by snd_id ?i (m_sendOps s) = Some (?dec op)"
    using find_by_distinct [OF d(1) assms(2)] find_by_distinct [OF d(2) dec] by simp_all
  have s1: "timerMgr s1 = timerCancel ?k (timerMgr st)" "out s1 = out st" "transmits E (resend_msg op) buf s1"
    using assms(5) by (simp_all add: s1_def s_def upd_pub_def upd_send_def on_timers_def transmits_def)
  note t = sendMessage_transmits [OF s1(3)]
  have st': "st' = SendOp_restartResponseTimer (?dec op) (upd_send ?i
      (\<lambda>op. op\<lparr>snd_sendAttempts := snd_sendAttempts op + 1\<rparr>) (snd (sendMessage E (resend_msg op) s1)))"
    using f assms(3,4,8) t(1)
    by (auto simp: SendOp_postReconnectionResend_def SendOp_resendDupMsg_def on_send_def follow_def Let_def split_def
        s_def [symmetric] s1_def resend_msg_def not_le)
  show "packets (out st') = packets (out st) @ [buf]"
    using t(2) s1(2) by (simp add: st' SendOp_restartResponseTimer_def upd_send_def)
  have "map (\<lambda>o'. (snd_id o', snd_responseTimer o')) (m_sendOps st') = map (\<lambda>o'. (snd_id o', snd_responseTimer o')) (m_sendOps st)"
    by (simp add: st' SendOp_restartResponseTimer_def s1_def s_def upd_pub_def upd_by_def)
  then have "(?i, ?k) \<in> set (map (\<lambda>o'. (snd_id o', snd_responseTimer o')) (m_sendOps st'))" using assms(2) by force
  then show "\<exists>op' \<in> set (m_sendOps st'). snd_id op' = snd_id op \<and> snd_responseTimer op' = snd_responseTimer op" by force
  show "Timer_isSuspended ?k (timerMgr st')" "length (m_timers (timerMgr st')) = length (m_timers (timerMgr st))"
    using assms(6,7) s1(1) rewaits_kept [of ?k s1 E "resend_msg op"]
    by (simp_all add: st' SendOp_restartResponseTimer_def upd_send_def on_timers_def Timer_isSuspended_def timerIsActive_def
        timerIsSuspended_def timerWait_def timerCancel_def cancel_info_def)
qed

text \<open>
  C25. When the broker resumes the session, a publish in flight is sent again as a duplicate, once,
  but its response timer, suspended when the connection was lost, stays suspended although it is
  started: however long and in whatever steps time passes, the timer never expires. Without an
  acknowledgement the publish is neither sent again nor reported.
\<close>

theorem resumed_publishes_never_time_out:
  assumes "codec_ok E" "client_reach E st" "op \<in> set (m_sendOps st)" "\<not> snd_paused op"
    "Timer_isSuspended (snd_responseTimer op) (timerMgr st)" "length (m_timers (timerMgr st)) \<le> InvalidIdx"
    "snd_sendAttempts op - 1 < snd_totalSendAttempts op" "transmits E (resend_msg op) buf st"
    "st' = SendOp_postReconnectionResend E (snd_id op) st"
  shows "packets (out st') = packets (out st) @ [buf] \<and> (Type_Send, snd_id op) \<in> set (all_ptrs st') \<and>
    Timer_isSuspended (snd_responseTimer op) (timerMgr st') \<and>
    (\<forall>durations ms. (SendOp_recvTimeoutCb, Some (snd_id op)) \<notin>
       set (fst (tick_collect ms (fold (\<lambda>d t. snd (tick_collect d t)) durations (timerMgr st')))))"
proof -
  have inv: "client_inv st" using assms(1,2) by (rule reach_inv)
  let ?i = "snd_id op" and ?k = "snd_responseTimer op"
  have k: "?k < length (m_timers (timerMgr st))" "m_suspended (m_timers (timerMgr st) ! ?k)"
    using assms(5) by (auto simp: Timer_isSuspended_def timerIsActive_def timerIsSuspended_def)
  note r = reconnection_resend [OF inv assms(3,4,7,8) k assms(9)]
  obtain op' where op': "op' \<in> set (m_sendOps st')" "snd_id op' = ?i" "snd_responseTimer op' = ?k" using r(2) by blast
  have "msteps E False st st'" unfolding assms(9) by (intro ev_resends msteps_refl)
  then have "client_inv st'" using inv client_inv_msteps by (auto simp: msteps_def)
  moreover have "m_suspended (m_timers (timerMgr st') ! ?k)" using r(3) by (simp add: Timer_isSuspended_def timerIsSuspended_def)
  ultimately have "stuck ?i (timerMgr st')" using stuck_own [of st' op'] op' assms(6) r(4) by simp
  from stuck_tick(2) [OF stuck_ticks [OF this]] r(1,3) ptr_of_op(4) [OF op'(1)] op'(2) show ?thesis by simp
qed

text \<open>The network is lost with two publishes in flight; the second one is of QoS 2.\<close>

definition demo_lost_st :: client where
  "demo_lost_st = run_call demo_env (CNetworkDisconnected 0) demo_session_st"

theorem resumed_publishes_never_time_out_witness:
  "let st' = SendOp_postReconnectionResend demo_env 3 demo_lost_st
   in packets (out st') = packets (out demo_lost_st) @ [[60, 6, 0, 1, 116, 0, 2, 1]] \<and>
      (\<forall>ms. (SendOp_recvTimeoutCb, Some 3) \<notin>
         set (fst (tick_collect ms (snd (tick_collect 4294967295 (snd (tick_collect 4294967295 (timerMgr st'))))))))"
proof -
  let ?st = demo_lost_st let ?op = "m_sendOps ?st ! 1"
  have r: "client_reach demo_env ?st" unfolding demo_lost_st_def by (intro client_reach.intros demo_reach)
  have len: "1 < length (m_sendOps ?st)" by code_simp
  have h: "\<not> snd_paused ?op" "Timer_isSuspended (snd_responseTimer ?op) (timerMgr ?st)"
    "length (m_timers (timerMgr ?st)) \<le> InvalidIdx" "snd_sendAttempts ?op - 1 < snd_totalSendAttempts ?op"
    "transmits demo_env (resend_msg ?op) [60, 6, 0, 1, 116, 0, 2, 1] ?st" by code_simp+
  have i: "snd_id ?op = 3" by code_simp
  from resumed_publishes_never_time_out [OF codec_ok_demo r nth_mem [OF len] h refl]
  have "packets (out (SendOp_postReconnectionResend demo_env 3 ?st)) = packets (out ?st) @ [[60, 6, 0, 1, 116, 0, 2, 1]]"
    "(SendOp_recvTimeoutCb, Some 3) \<notin> set (fst (tick_collect ms
      (fold (\<lambda>d t. snd (tick_collect d t)) [4294967295, 4294967295] (timerMgr (SendOp_postReconnectionResend demo_env 3 ?st)))))" for ms
    unfolding i by blast+
  then show ?thesis by (simp add: Let_def)
qed

text \<open>
  With the session not resumed, the pending publishes are aborted in a loop over all operations.
  Under the full ordering an abort can send, and so complete, a paused publish of QoS 0 that comes
  later in the same loop; the loop then dereferences the null pointer left in its place.
\<close>

theorem abort_loop_null_pointer:
  "fault (continue ([CPublishOrdering PO_Full] @ demo_publish 1 2 @ demo_publish 0 3 @ demo_reconnect 0 4)
     demo_connected_st) = Some NullPointer"
  by code_simp

section \<open>Timers that expire together\<close>

text \<open>
  The timers that expire in one tick are all called back, even those of operations that an
  earlier callback of the same tick has destroyed: the timeout of the ping terminates the second
  subscribe operation, whose own timeout is called on the destroyed object then.
\<close>

theorem tick_calls_destroyed_operation:
  "fault (continue ([CTick 60000] @ demo_subscribe_sent 2 @ demo_subscribe_sent 3 @ [CTick 2000])
     demo_connected_st) = Some (DanglingPointer (Type_Subscribe, 3))"
  by code_simp

text \<open>
  The time that has passed is only accounted for inside \<open>send\<close> of a subscribe operation, where the
  timeout of the ping can destroy the very operation that is being sent.
\<close>

theorem send_destroys_its_own_operation:
  "fault (continue [CTick 60000, CSubscribePrepare, CSubscribeConfig \<lparr>stc_topic = Some ''a'', stc_maxQos = 2\<rparr> 2,
     CSubscribeSend 2000 (Some 2) 2] demo_connected_st) = Some (DanglingPointer (Type_Subscribe, 2))"
  by code_simp

section \<open>The preparation lock\<close>

text \<open>
  When the network is lost between \<open>prepare\<close> and \<open>send\<close>, the operation is destroyed with the lock
  held: no operation can be prepared any more, the connect operation included.
\<close>

theorem preparation_lock_stuck:
  "let st = continue [CSubscribePrepare, CNetworkDisconnected 0] demo_connected_st
   in m_ops st = [] \<and> m_preparationLocked st \<and> fst (connectPrepare demo_env 0 st) = (None, EC_PreparationLocked)"
  by code_simp

text \<open>
  A publish may be sent without a callback. Cancelling it later takes it for one that has not been
  sent and releases the lock another operation in preparation holds.
\<close>

theorem cancel_releases_foreign_lock:
  "let st = continue [CPublishPrepare, CPublishConfig (pub_cfg 1) 2, CPublishSend 0 None 2, CPublishPrepare]
         demo_connected_st
   in m_preparationLocked st \<and> \<not> m_preparationLocked (continue [CPublishCancel 2] st) \<and>
      map snd_published (m_sendOps (continue [CPublishCancel 2] st)) = [False]"
  by code_simp

section \<open>Acknowledgements in another order\<close>

text \<open>
  The broker may acknowledge a publish of QoS 2 before an earlier one of QoS 1, MQTT only orders
  the acknowledgements of one QoS. The client drops such an acknowledgement and sends both publishes
  again.
\<close>

theorem ack_out_of_order_dropped:
  "let st = demo_session_st; st' = continue [CProcessData 0 [0x50, 2, 0, 2]] st
   in sent_since st st' = [[58, 6, 0, 1, 116, 0, 1, 1], [60, 6, 0, 1, 116, 0, 2, 1]] \<and>
      map snd_acked (m_sendOps st') = [False, False]"
  by code_simp

section \<open>Receiving operations\<close>

text \<open>
  A message that is rejected ends the session, but its receiving operation stays, without a packet
  identifier by which anything could ever reach it, even when the session is resumed later.
\<close>

theorem rejected_message_leaks_operation:
  "map rcv_packetId (m_recvOps (continue ([CProcessData 0 [0x30, 5, 0, 3, 97, 47, 98]] @ demo_reconnect 1 3)
     demo_connected_st)) = [0]"
  by code_simp

text \<open>
  A message of QoS 2 whose \<open>PUBREL\<close> does not come is given up after the response timeout, but not once
  a duplicate has arrived: the duplicate stops the timer of the receiving operation for good.
\<close>

theorem duplicate_stops_timeout:
  "let received = ClientImpl_dispatch demo_env (MPublish demo_message) demo_subscribed_st;
       repeated = ClientImpl_dispatch demo_env (MPublish (demo_message\<lparr>pm_dup := True\<rparr>)) received
   in m_recvOps (tick demo_env 2000 received) = [] \<and> map rcv_packetId (m_recvOps (tick demo_env 59999 repeated)) = [9]"
  by code_simp

text \<open>
  A build without dynamic memory: the entries of completed operations are only removed from \<open>m_ops\<close>
  at the end of a call, so messages that arrive together overflow the vector, although each of them
  is finished before the next one is handled.
\<close>

theorem messages_overflow_operations:
  "let st = fold (run_call demo_static) [CVerifySubscribed False, CProcessData 0
        (concat (replicate 8 [0x30, 5, 0, 3, 97, 47, 98]))] (run_calls demo_static demo_connected)
   in length (reports st) = 8 \<and> m_recvOps st = [] \<and> fault st = Some CapacityExceeded"
  by code_simp

end
