(* ===== verification/Spec2Isabelle.thy ===== *)
theory Spec2Isabelle
  imports App_Requests App_Main Fuzz_Options Sub_Props Input_Props Delivery_Props Interface_Props Session_Defects
begin

text \<open>
  A verification of the client library of \<open>cc.mqtt311.libs\<close>, an MQTT v3.1.1 client in C++
  (\<open>src/client/lib\<close>), with its public C functions.

  \<^bold>\<open>The program.\<close> An application drives one \<open>ClientImpl\<close> object per client. It feeds received bytes
  to \<open>processData\<close>, reports elapsed time to \<open>tick\<close>, and starts operations in two phases
  (\<open>publishPrepare\<close>, \<open>send\<close>). The client keeps one object per operation in progress in seven typed
  lists, a common list \<open>m_ops\<close> of raw pointers to them, a fixed set of software timers, a sorted
  pool of packet identifiers, and the session state. It answers through callbacks: bytes to send,
  the next time it wants a tick, received messages, completions and the loss of the broker.

  \<^bold>\<open>The theories and the files they model\<close> (under \<open>src/client/lib/src\<close> unless another is named):

  \<^item> \<open>Mqtt_Prelude\<close>: generic facts on lists, sorted vectors and words; the named collections.
  \<^item> \<open>Packet_Ids\<close>: \<open>Op::allocPacketId\<close>, \<open>Op::releasePacketId\<close> (\<open>op/Op.cpp\<close>) on 16-bit words.
  \<^item> \<open>Topic_Filters\<close>: \<open>verifySubFilterInternal\<close>, \<open>verifyPubTopicInternal\<close> (\<open>op/Op.cpp\<close>) and
    \<open>isTopicMatch\<close> (\<open>op/RecvOp.cpp\<close>), against the wording of the MQTT standard.
  \<^item> \<open>Timer_Mgr\<close>: \<open>TimerMgr.cpp\<close>, \<open>TimerMgr.h\<close>, generic in the callback type.
  \<^item> \<open>Ext_Config\<close>: the build configuration and the capacities \<open>ExtConfig.h\<close> derives from it.
  \<^item> \<open>Client_Types\<close>: the data: \<open>common.h\<close>, \<open>ProtocolDefs.h\<close>, the state structures and the members of
    \<open>ClientImpl\<close> and of the operation classes as records. A pointer to an operation is its kind
    together with the number it was created with, so that a stale pointer is recognised.
  \<^item> \<open>Client_Core\<close>, \<open>Client_Resume\<close>, \<open>Client_Registry\<close>, \<open>Client_Session\<close>: \<open>ClientImpl.cpp\<close> beneath the
    operations: sending, completion, ordering and resumption of publishes, loss and establishment
    of the session; \<open>op/KeepAliveOp.cpp\<close>.
  \<^item> \<open>Send_Op\<close>, \<open>Recv_Op\<close>, \<open>Sub_Ops\<close>, \<open>Connect_Op\<close>: the files of \<open>op/\<close> of the same names.
  \<^item> \<open>Client_Api\<close>: the public members of \<open>ClientImpl\<close>: \<open>tick\<close>, \<open>processData\<close>, the \<open>...Prepare\<close>
    functions, the setters; the calls of an application (\<open>call\<close>, \<open>run_call\<close>), those it makes from
    inside callbacks (\<open>processData_with\<close>), and the states they reach, \<open>client_reach\<close>.
  \<^item> \<open>Client_Inv\<close>, \<open>Client_Steps\<close>: the invariant of \<open>client_reach\<close>, kept by every step;
    \<open>Client_Capacity\<close>: the one of builds without dynamic memory, that the static capacities are kept.
  \<^item> \<open>Session_Frame\<close>: locales for relations every operation keeps (\<open>op_frame\<close>, \<open>session_frame\<close>),
    interpreted for the relations the properties need.
  \<^item> \<open>Session_Props\<close>, \<open>Publish_Props\<close>, \<open>Recv_Props\<close>, \<open>Sub_Props\<close>, \<open>Input_Props\<close>, \<open>Delivery_Props\<close>,
    \<open>Interface_Props\<close>: what the operations do; \<open>Demo_Session\<close>: concrete reachable sessions, on which
    the properties are instantiated; \<open>Session_Defects\<close>: where the code does not do what it means to.
  \<^item> \<open>C_Interface\<close>, \<open>One_Shot\<close>: the public C functions (\<open>client/lib/templ/client.cpp.templ\<close>), and the
    contract of those that prepare, configure and send in one go.
  \<^item> \<open>App_Session\<close>, \<open>App_Options\<close>, \<open>App_Text\<close>, \<open>App_Client\<close>: the example applications
    (\<open>client/app\<close>): network sessions, command line options, texts and the escapes of binary data, and
    the publisher and subscriber themselves; \<open>App_Requests\<close>: what they make the library send;
    \<open>App_Main\<close>: their \<open>main\<close> functions and exit codes.
  \<^item> \<open>Fuzz_Generator\<close>, \<open>Fuzz_Options\<close>: the broker the fuzzing harness plays (\<open>client/afl_fuzz\<close>) and its options.

  This theory holds the properties of every reachable state.

  \<^bold>\<open>Conventions.\<close> Stateful code is state passing on the record \<open>client\<close>; its field \<open>out\<close> is the history
  of callbacks, \<open>next_id\<close> the ghost counter that numbers operations, and \<open>fault\<close> records the first
  undefined behaviour (a null or dangling pointer used, a full static vector appended to, a loop
  bound exhausted). Error codes are values. \<open>COMMS_ASSERT\<close> does nothing in a release build, and the
  model follows the release build: where an assertion would have stopped the program, the model
  continues as the code does or records a fault.

  \<^bold>\<open>Code outside the repository.\<close> The encoder and decoder of messages (the \<open>cc.mqtt311.generated\<close>
  and \<open>COMMS\<close> libraries) are functions of the record \<open>env\<close> that every operation takes. The
  properties name what they rely on: \<open>codec_ok\<close> (a decoded message consumes input; new messages
  have identifier 0), \<open>delimited\<close> (the frame of a message does not depend on what follows it), \<open>suback_codec\<close>
  (the numeric values of the SUBACK return codes). \<open>Demo_Session\<close> instantiates them. What \<open>boost\<close> returns to
  the applications is an argument of their functions; of its option parser \<open>conforms\<close> is relied on.

  \<^bold>\<open>Loops and bounds.\<close> Loops over lists are structural. \<open>process_loop\<close> has a bound one larger than
  the number of bytes, \<open>resendAllUntil\<close> one larger than the number of publishes, and \<open>resumeSendOpsSince\<close>
  the bound \<open>send_fuel\<close>, which is larger than any chain of nested resumptions. The properties on termination show that
  they are never exhausted, so the bounded functions satisfy the equations of the unbounded loops.

  \<^bold>\<open>What is shown.\<close> The registry, timers and identifiers of every reachable state are consistent; a
  completion is reported at most once; every call returns; each acknowledgement and timeout does what the
  protocol requires of a publish, in both directions and for every QoS; a publish that is never
  acknowledged is sent again as time passes and ends; the ordering of publishes is kept and what it
  postpones is resumed; static capacities suffice for the operations and their timers; subscriptions refine a set
  of filters; input may be cut anywhere; a failed preparation changes nothing, and a failed one-shot
  call leaves nothing behind. The applications hand the library what the network delivers as one stream, never ask
  for an option that is not there, make it send exactly what their options say, and tell a
  successful publish by their exit code. Where a property
  does not hold of the code, \<open>Session_Defects\<close> proves the failure: timers that stay suspended after a
  reconnection for every reachable state, the others on concrete sessions.

  \<^bold>\<open>Not modelled.\<close> Calls of an application from inside the report of a received message and from
  inside callbacks of other entry points than \<open>processData\<close>; the content of log messages; the bytes of
  the output buffer before they reach the codec; the placement of client objects in memory (\<open>ClientAllocator.h\<close>); the codec libraries;
  the event loop, sockets and TLS of the applications, whose results are arguments of their model; the
  driver of the fuzzing harness, which publishes from inside the report of a received message.
\<close>

section \<open>The state between calls\<close>

text \<open>
  C1. The registry of operations. In every reachable state the list \<open>m_ops\<close> names every operation of
  the seven per-kind lists exactly once and no other, so that no pointer of the list dangles and no
  operation is unknown to the termination and connectivity loops.
\<close>

theorem ops_registry:
  assumes "codec_ok E" "client_reach E st"
  shows "distinct (all_ptrs st) \<and> distinct (live_ops st) \<and>
    (\<forall>ptr. Some ptr \<in> set (m_ops st) \<longleftrightarrow> ptr \<in> set (all_ptrs st))"
proof -
  have wf: "ops_wf st" using reach_inv [OF assms] by (simp add: client_inv_def)
  then have "distinct (live_ops st)" by (metis mset_eq_imp_distinct_iff ops_wf_def)
  with wf ops_wf_live_iff [OF wf] show ?thesis by (simp add: ops_wf_def)
qed

lemma demo_session_ptrs: "all_ptrs demo_session_st = [(Type_KeepAlive, 1), (Type_Send, 2), (Type_Send, 3)]"
  "op_pids demo_session_st = [1, 2]"
  by (simp_all add: all_ptrs_def op_pids_def demo_st_simps)

theorem ops_registry_witness:
  "all_ptrs demo_session_st = [(Type_KeepAlive, 1), (Type_Send, 2), (Type_Send, 3)] \<and>
   Some (Type_Send, 3) \<in> set (m_ops demo_session_st) \<and> Some (Type_Send, 4) \<notin> set (m_ops demo_session_st)"
  using ops_registry [OF codec_ok_demo demo_reach(2)] by (simp add: demo_session_ptrs)

text \<open>The kind of operation a timer callback belongs to.\<close>

fun cb_type :: "timeout_cb \<Rightarrow> op_type" where
  "cb_type ConnectOp_opTimeoutCb = Type_Connect"
| "cb_type KeepAliveOp_pingTimeoutCb = Type_KeepAlive"
| "cb_type KeepAliveOp_recvTimeoutCb = Type_KeepAlive"
| "cb_type KeepAliveOp_sendPingCb = Type_KeepAlive"
| "cb_type SubscribeOp_opTimeoutCb = Type_Subscribe"
| "cb_type UnsubscribeOp_opTimeoutCb = Type_Unsubscribe"
| "cb_type RecvOp_recvTimeoutCb = Type_Recv"
| "cb_type SendOp_recvTimeoutCb = Type_Send"

lemma slot_ptr: "(k, cb, i) \<in> set (timer_slots st) \<Longrightarrow> (cb_type cb, i) \<in> set (all_ptrs st)"
  by (auto simp: timer_slots_def all_ptrs_def ka_slots_def)

text \<open>
  C2. Timers. In every reachable state no two operations share a timer slot, exactly the slots of the
  live operations are allocated (no slot is leaked), and a running timer calls back a live operation
  of the kind its callback is for, the one that owns the slot.
\<close>

theorem timers_owned:
  assumes "codec_ok E" "client_reach E st"
  shows "distinct (filter Timer_isValid (map fst (timer_slots st))) \<and>
    {k \<in> allocated_idx (timerMgr st). Timer_isValid k} = {k \<in> set (map fst (timer_slots st)). Timer_isValid k} \<and>
    (\<forall>k cb. k < length (m_timers (timerMgr st)) \<and> Timer_isValid k \<and>
       m_timeoutCb (m_timers (timerMgr st) ! k) = Some cb \<longrightarrow>
       (\<exists>i. m_timeoutData (m_timers (timerMgr st) ! k) = Some i \<and> (k, cb, i) \<in> set (timer_slots st) \<and>
          (cb_type cb, i) \<in> set (all_ptrs st)))"
proof -
  have own: "tm_own (timerMgr st) (timer_slots st)" using reach_inv [OF assms] by (simp add: client_inv_def)
  then have "distinct (filter Timer_isValid (map fst (timer_slots st)))" by (simp add: tm_own_def slots.holds_def)
  moreover have "{k \<in> allocated_idx (timerMgr st). Timer_isValid k} =
      {k \<in> set (map fst (timer_slots st)). Timer_isValid k}"
    using own by (auto simp: tm_own_def slots.holds_def)
  moreover have "\<exists>i. m_timeoutData (m_timers (timerMgr st) ! k) = Some i \<and> (k, cb, i) \<in> set (timer_slots st)"
    if "k < length (m_timers (timerMgr st))" "Timer_isValid k" "m_timeoutCb (m_timers (timerMgr st) ! k) = Some cb" for k cb
    using own that by (simp add: tm_own_def)
  ultimately show ?thesis using slot_ptr by blast
qed

theorem timers_owned_witness:
  "m_timeoutCb (m_timers (timerMgr demo_session_st) ! 4) = Some SendOp_recvTimeoutCb \<and>
   (\<exists>i. m_timeoutData (m_timers (timerMgr demo_session_st) ! 4) = Some i \<and>
     (Type_Send, i) \<in> set (all_ptrs demo_session_st))"
proof -
  have c: "4 < length (m_timers (timerMgr demo_session_st)) \<and> Timer_isValid 4 \<and>
      m_timeoutCb (m_timers (timerMgr demo_session_st) ! 4) = Some SendOp_recvTimeoutCb"
    by (simp add: demo_st_simps demo_send_timer_def Timer_isValid_def InvalidIdx_def)
  with timers_owned [OF codec_ok_demo demo_reach(2)] show ?thesis by (metis cb_type.simps(8))
qed

text \<open>
  C3. Packet identifiers. In every reachable state the identifiers of the live subscribe, unsubscribe
  and publish operations are in use in the pool, and no two operations have the same one, unless
  they have none (0).
\<close>

theorem packet_ids_owned:
  assumes "codec_ok E" "client_reach E st"
  shows "pids_wf (m_packetIds (clientState st)) \<and> distinct (filter (\<lambda>i. i \<noteq> 0) (op_pids st)) \<and>
    (\<forall>i \<in> set (op_pids st). i \<noteq> 0 \<longrightarrow> i \<in> set (m_allocatedPacketIds (m_packetIds (clientState st))))"
proof -
  have "pid_own (m_packetIds (clientState st)) (op_pids st)" using reach_inv [OF assms] by (simp add: client_inv_def)
  then show ?thesis by (auto simp: pid_own_def pool.holds_def)
qed

theorem packet_ids_owned_witness:
  "op_pids demo_session_st = [1, 2] \<and> 2 \<in> set (m_allocatedPacketIds (m_packetIds (clientState demo_session_st)))"
  using packet_ids_owned [OF codec_ok_demo demo_reach(2)] by (simp add: demo_session_ptrs)

section \<open>Histories\<close>

text \<open>
  C4. Over any sequence of calls, timer expirations and received bytes, the completion callback of a
  connect, subscribe, unsubscribe or publish operation is called at most once, and the operation is gone
  when it has been called. The event of a connect operation names its operation only in the model.
\<close>

theorem completion_at_most_once:
  assumes "codec_ok E" "client_reach E st"
  shows "distinct (List.map_filter done_of (out st)) \<and>
    set (List.map_filter done_of (out st)) \<inter> set (all_ptrs st) = {}"
  using reach_advances(1) [OF assms] by (auto simp: advances_def ClientImpl_init_def)

theorem completion_at_most_once_witness:
  "List.map_filter done_of (out demo_subscribed_st) = [(Type_Connect, 0), (Type_Subscribe, 2)] \<and>
   (Type_Subscribe, 2) \<notin> set (all_ptrs demo_subscribed_st)"
proof -
  have "List.map_filter done_of (out demo_subscribed_st) = [(Type_Connect, 0), (Type_Subscribe, 2)]"
    by (simp add: demo_subscribed_st_def demo_connected_st_def List.map_filter_simps)
  with completion_at_most_once [OF codec_ok_demo demo_reach(4)] show ?thesis by simp
qed

text \<open>
  C5. The loops of the client end: in no reachable state has a loop exhausted the bound the model
  gives it, so every call returns, also where the application calls the client again from inside
  the callbacks of \<open>processData\<close>.
\<close>

theorem loops_end:
  assumes "codec_ok E" "client_reach E st"
  shows "fault (run_call E c st) \<noteq> Some OutOfFuel \<and>
    fault (snd (processData_with E react el data st)) \<noteq> Some OutOfFuel"
  using reach_advances(2) [OF assms(1) reach_call [OF assms(2)]]
    reach_advances(2) [OF assms(1) reach_data [OF assms(2)]] by blast

theorem loops_end_witness:
  "fault (run_call demo_env (CNetworkDisconnected 0) demo_session_st) \<noteq> Some OutOfFuel \<and>
   fault (snd (processData_with demo_env (\<lambda>_. [CSubscribePrepare, CDisconnectPrepare]) 0
     [0x40, 2, 0, 1, 0x50, 2, 0, 2] demo_session_st)) \<noteq> Some OutOfFuel"
  by (rule loops_end [OF codec_ok_demo demo_reach(2)])

end
